(* ===== verification/Prelude.thy ===== *)
theory Prelude
  imports
    "HOL-Library.Word"
    "HOL-Library.Char_ord"
    "HOL-Library.List_Lexorder"
    "HOL-Library.AList"
begin

text \<open>
  The vocabulary every component shares. It holds Python's exceptions as values and the sum
  type that carries them; bytes objects as lists of 8-bit words with slicing, slice assignment,
  \<open>int.from_bytes\<close>, \<open>struct.unpack_from\<close> and \<open>bytes.hex\<close>; dictionaries as association lists
  in insertion order (with the \<open>setdefault(k, []).append(v)\<close> idiom); and the locales
  \<open>byte_buffer\<close> and \<open>multimap\<close>, the two container interfaces that several components use.
\<close>

unbundle bit_operations_syntax

section \<open>Exceptions as values\<close>

text \<open>
  \<open>Raised c t\<close> is an exception of a package that is not part of the repository: its class
  name and its text. \<open>StructError\<close> is Python's \<open>struct.error\<close>.
\<close>

datatype pyerr =
    StructError
  | IndexError
  | KeyError string
  | ValueError
  | AssertionError
  | TypeError
  | AttributeError
  | StopIteration
  | FileNotFoundError
  | PermissionError string
  | Raised string string

type_synonym 'a res = "pyerr + 'a"

abbreviation Ok :: "'a \<Rightarrow> 'a res" where "Ok \<equiv> Inr"
abbreviation Err :: "pyerr \<Rightarrow> 'a res" where "Err \<equiv> Inl"

text \<open>\<open>type(e).__name__\<close>.\<close>

fun err_type :: "pyerr \<Rightarrow> string" where
  "err_type StructError = ''error''"
| "err_type IndexError = ''IndexError''"
| "err_type (KeyError k) = ''KeyError''"
| "err_type ValueError = ''ValueError''"
| "err_type AssertionError = ''AssertionError''"
| "err_type TypeError = ''TypeError''"
| "err_type AttributeError = ''AttributeError''"
| "err_type StopIteration = ''StopIteration''"
| "err_type FileNotFoundError = ''FileNotFoundError''"
| "err_type (PermissionError t) = ''PermissionError''"
| "err_type (Raised c t) = c"

text \<open>Sequencing: the first exception ends the computation.\<close>

definition rbind :: "'a res \<Rightarrow> ('a \<Rightarrow> 'b res) \<Rightarrow> 'b res" where
  "rbind m f = (case m of Inl e \<Rightarrow> Inl e | Inr x \<Rightarrow> f x)"

definition rassert :: "bool \<Rightarrow> pyerr \<Rightarrow> unit res" where
  "rassert b e = (if b then Ok () else Err e)"

definition of_option :: "pyerr \<Rightarrow> 'a option \<Rightarrow> 'a res" where
  "of_option e x = (case x of None \<Rightarrow> Err e | Some v \<Rightarrow> Ok v)"

definition is_ok :: "'a res \<Rightarrow> bool" where
  "is_ok r = (case r of Inl _ \<Rightarrow> False | Inr _ \<Rightarrow> True)"

text \<open>The results of a list of fallible computations, up to the first exception.\<close>

fun rmap :: "('a \<Rightarrow> 'b res) \<Rightarrow> 'a list \<Rightarrow> 'b list res" where
  "rmap f [] = Ok []"
| "rmap f (x # xs) = rbind (f x) (\<lambda>y. rbind (rmap f xs) (\<lambda>ys. Ok (y # ys)))"

named_theorems res_iff \<open>inversion of a computation that returned\<close>

lemma rbind_simps [simp]:
  "rbind (Inl e) f = Inl e"
  "rbind (Inr x) f = f x"
  by (simp_all add: rbind_def)

lemma rbind_Inr_iff [res_iff]: "rbind m f = Inr y \<longleftrightarrow> (\<exists>x. m = Inr x \<and> f x = Inr y)"
  by (cases m) auto

lemma rbind_Inl_iff:
  "rbind m f = Inl e \<longleftrightarrow> m = Inl e \<or> (\<exists>x. m = Inr x \<and> f x = Inl e)"
  by (cases m) auto

lemma rassert_simps [simp]:
  "rassert True e = Ok ()"
  "rassert False e = Err e"
  by (simp_all add: rassert_def)

lemma rassert_Inr_iff [res_iff]: "rassert b e = Inr u \<longleftrightarrow> b"
  by (simp add: rassert_def)

lemma of_option_simps [simp]:
  "of_option e None = Err e"
  "of_option e (Some v) = Ok v"
  by (simp_all add: of_option_def)

lemma of_option_Inr_iff [res_iff]: "of_option e x = Inr v \<longleftrightarrow> x = Some v"
  by (cases x) auto

lemma is_ok_simps [simp]: "is_ok (Inl e) = False" "is_ok (Inr x) = True"
  by (simp_all add: is_ok_def)

lemma rmap_Ok_length: "rmap f xs = Inr ys \<Longrightarrow> length ys = length xs"
  by (induction xs arbitrary: ys) (auto simp: res_iff)

lemma rmap_Ok_total: "(\<And>x. x \<in> set xs \<Longrightarrow> f x = Inr (g x)) \<Longrightarrow> rmap f xs = Inr (map g xs)"
  by (induction xs) auto

lemma rmap_map: "rmap f (map g xs) = rmap (\<lambda>x. f (g x)) xs"
  by (induction xs) simp_all

lemma rmap_Ok_member: "rmap f xs = Inr ys \<Longrightarrow> y \<in> set ys \<Longrightarrow> \<exists>x \<in> set xs. f x = Inr y"
  by (induction xs arbitrary: ys) (auto simp: res_iff)

lemma rmap_zip_member: "rmap f xs = Inr ys \<Longrightarrow> (x, y) \<in> set (zip xs ys) \<Longrightarrow> x \<in> set xs \<and> f x = Inr y"
proof (induction xs arbitrary: ys)
  case (Cons a as)
  then obtain b bs where "ys = b # bs" "f a = Inr b" "rmap f as = Inr bs" by (auto simp: res_iff)
  with Cons.IH [of bs] Cons.prems show ?case by auto
qed simp

lemma find_Some: "List.find p xs = Some x \<Longrightarrow> p x \<and> x \<in> set xs"
  by (induction xs) (auto split: if_splits)

section \<open>Bytes\<close>

type_synonym byte = "8 word"
type_synonym bytes = "byte list"

text \<open>\<open>b[i:j]\<close> for non-negative bounds: out of range parts are dropped, never an error.\<close>

definition slice :: "'a list \<Rightarrow> nat \<Rightarrow> nat \<Rightarrow> 'a list" where
  "slice b i j = take (j - i) (drop i b)"

text \<open>\<open>b[i:j] = x\<close> on a bytearray with \<open>i <= j\<close>.\<close>

definition put_slice :: "'a list \<Rightarrow> nat \<Rightarrow> nat \<Rightarrow> 'a list \<Rightarrow> 'a list" where
  "put_slice b i j x = take i b @ x @ drop j b"

text \<open>\<open>b[i]\<close> and \<open>bytes(n)\<close>.\<close>

definition byte_at :: "bytes \<Rightarrow> nat \<Rightarrow> int res" where
  "byte_at b i = (if i < length b then Ok (uint (b ! i)) else Err IndexError)"

definition zeros :: "nat \<Rightarrow> bytes" where
  "zeros n = replicate n 0"

lemma length_zeros [simp]: "length (zeros n) = n"
  by (simp add: zeros_def)

lemma length_slice [simp]: "length (slice b i j) = min (j - i) (length b - i)"
  by (simp add: slice_def)

lemma slice_append_left: "j \<le> length xs \<Longrightarrow> slice (xs @ ys) i j = slice xs i j"
  by (simp add: slice_def)

lemma slice_append_right:
  "length xs \<le> i \<Longrightarrow> slice (xs @ ys) i j = slice ys (i - length xs) (j - length xs)"
  by (simp add: slice_def)

lemma slice_all [simp]: "slice xs 0 (length xs) = xs"
  by (simp add: slice_def)

lemma slice_take: "j \<le> n \<Longrightarrow> slice (take n xs) i j = slice xs i j"
  by (simp add: slice_def drop_take min_def diff_le_mono)

lemma slice_map: "slice (map f xs) i j = map f (slice xs i j)"
  by (simp add: slice_def take_map drop_map)

lemma length_put_slice:
  "i \<le> j \<Longrightarrow> j \<le> length b \<Longrightarrow> length x = j - i \<Longrightarrow> length (put_slice b i j x) = length b"
  by (simp add: put_slice_def)

lemma slice_put_same:
  "i \<le> j \<Longrightarrow> j \<le> length b \<Longrightarrow> length x = j - i \<Longrightarrow> slice (put_slice b i j x) i j = x"
  by (simp add: put_slice_def slice_def)

lemma slice_put_before:
  "i \<le> j \<Longrightarrow> j \<le> length b \<Longrightarrow> length x = j - i \<Longrightarrow> l \<le> i \<Longrightarrow>
    slice (put_slice b i j x) k l = slice b k l"
  by (simp add: put_slice_def slice_append_left slice_take)

lemma slice_put_after:
  assumes "i \<le> j" "j \<le> length b" "length x = j - i" "j \<le> k"
  shows "slice (put_slice b i j x) k l = slice b k l"
proof -
  have "drop k (put_slice b i j x) = drop k b"
    using assms by (simp add: put_slice_def)
  then show ?thesis by (simp add: slice_def)
qed

text \<open>
  The interface of a fixed-size buffer that is written and read by ranges: what a writer
  relies on when it fills the fields of a record one after another.
\<close>

locale byte_buffer =
  fixes get :: "'b \<Rightarrow> nat \<Rightarrow> nat \<Rightarrow> bytes"
    and put :: "'b \<Rightarrow> nat \<Rightarrow> nat \<Rightarrow> bytes \<Rightarrow> 'b"
    and size_of :: "'b \<Rightarrow> nat"
  assumes size_put: "i \<le> j \<Longrightarrow> j \<le> size_of b \<Longrightarrow> length x = j - i \<Longrightarrow> size_of (put b i j x) = size_of b"
    and get_put_same: "i \<le> j \<Longrightarrow> j \<le> size_of b \<Longrightarrow> length x = j - i \<Longrightarrow> get (put b i j x) i j = x"
    and get_put_disjoint: "i \<le> j \<Longrightarrow> j \<le> size_of b \<Longrightarrow> length x = j - i \<Longrightarrow> l \<le> i \<or> j \<le> k \<Longrightarrow>
        get (put b i j x) k l = get b k l"
begin

text \<open>Two writes to disjoint ranges: both values are read back.\<close>

lemma get_two_writes:
  assumes "i \<le> j" "j \<le> k" "k \<le> l" "l \<le> size_of b" "length x = j - i" "length y = l - k"
  shows "get (put (put b i j x) k l y) i j = x" "get (put (put b i j x) k l y) k l = y"
  using assms by (simp_all add: get_put_same get_put_disjoint size_put)

end

interpretation bytearray: byte_buffer slice "put_slice :: bytes \<Rightarrow> nat \<Rightarrow> nat \<Rightarrow> bytes \<Rightarrow> bytes" length
  by unfold_locales
    (auto simp: length_put_slice slice_put_same intro: slice_put_before slice_put_after)

subsection \<open>Integers from bytes\<close>

text \<open>\<open>int.from_bytes(b, "big")\<close> and \<open>int.from_bytes(b, "little")\<close>.\<close>

definition from_big :: "bytes \<Rightarrow> int" where
  "from_big b = foldl (\<lambda>a x. a * 256 + uint x) 0 b"

fun from_little :: "bytes \<Rightarrow> int" where
  "from_little [] = 0"
| "from_little (x # xs) = uint x + 256 * from_little xs"

text \<open>\<open>n.to_bytes(k, "big")\<close> and \<open>n.to_bytes(k, "little")\<close> for \<open>0 <= n < 256 ** k\<close>.\<close>

fun to_little :: "nat \<Rightarrow> int \<Rightarrow> bytes" where
  "to_little 0 n = []"
| "to_little (Suc k) n = word_of_int (n mod 256) # to_little k (n div 256)"

definition to_big :: "nat \<Rightarrow> int \<Rightarrow> bytes" where
  "to_big k n = rev (to_little k n)"

lemma from_big_snoc: "from_big (xs @ [x]) = from_big xs * 256 + uint x"
  by (simp add: from_big_def)

lemma from_big_Nil [simp]: "from_big [] = 0"
  by (simp add: from_big_def)

lemma from_big_rev: "from_big (rev b) = from_little b"
  by (induction b) (simp_all add: from_big_snoc)

lemma from_big_eq: "from_big b = from_little (rev b)"
  by (metis from_big_rev rev_rev_ident)

lemma uint_byte_bounds: "0 \<le> uint (x :: byte)" "uint (x :: byte) < 256"
  using uint_bounded [of x] by simp_all

lemma from_little_bounds: "0 \<le> from_little b \<and> from_little b < 256 ^ length b"
proof (induction b)
  case (Cons x xs)
  have "uint x < 256" "0 \<le> uint x" by (rule uint_byte_bounds)+
  with Cons show ?case by simp
qed simp

lemma from_big_bounds: "0 \<le> from_big b" "from_big b < 256 ^ length b"
  using from_little_bounds [of "rev b"] by (simp_all add: from_big_eq)

lemma length_to_little [simp]: "length (to_little k n) = k"
  by (induction k arbitrary: n) simp_all

lemma length_to_big [simp]: "length (to_big k n) = k"
  by (simp add: to_big_def)

lemma uint_word_of_int_byte: "0 \<le> n \<Longrightarrow> n < 256 \<Longrightarrow> uint (word_of_int n :: byte) = n"
  by (simp add: uint_word_of_int)

lemma from_little_to_little: "0 \<le> n \<Longrightarrow> n < 256 ^ k \<Longrightarrow> from_little (to_little k n) = n"
proof (induction k arbitrary: n)
  case (Suc k)
  from Suc.prems have "0 \<le> n div 256" "n div 256 < 256 ^ k"
    by (auto simp: div_less_iff_less_mult mult.commute pos_imp_zdiv_nonneg_iff
        int_div_less_self intro: pos_imp_zdiv_nonneg_iff [THEN iffD2])
  then have "from_little (to_little k (n div 256)) = n div 256" by (rule Suc.IH)
  then show ?case by (simp add: uint_word_of_int_byte)
qed simp

lemma from_big_to_big: "0 \<le> n \<Longrightarrow> n < 256 ^ k \<Longrightarrow> from_big (to_big k n) = n"
  by (simp add: to_big_def from_big_rev from_little_to_little)

lemma to_little_from_little: "to_little (length b) (from_little b) = b"
proof (induction b)
  case (Cons x xs)
  have x: "0 \<le> uint x" "uint x < 256" by (rule uint_byte_bounds)+
  have m: "(uint x + 256 * from_little xs) mod 256 = uint x"
    using x by (simp only: mod_mult_self2 mod_pos_pos_trivial)
  have d: "(uint x + 256 * from_little xs) div 256 = from_little xs"
    using x by simp
  show ?case by (simp only: length_Cons to_little.simps from_little.simps m d Cons.IH word_of_int_uint)
qed simp

lemma to_big_from_big: "to_big (length b) (from_big b) = b"
  using to_little_from_little [of "rev b"] by (simp add: to_big_def from_big_eq)

lemma from_big_inj: "length a = length b \<Longrightarrow> from_big a = from_big b \<Longrightarrow> a = b"
  by (metis to_big_from_big)

lemma from_little_inj: "length a = length b \<Longrightarrow> from_little a = from_little b \<Longrightarrow> a = b"
  by (metis to_little_from_little)

lemma from_little_append: "from_little (a @ b) = from_little a + 256 ^ length a * from_little b"
  by (induction a) (simp_all add: algebra_simps)

text \<open>\<open>struct.unpack_from\<close> for one unsigned field of \<open>k\<close> bytes, little and big endian.\<close>

definition unpack_le :: "nat \<Rightarrow> bytes \<Rightarrow> nat \<Rightarrow> int res" where
  "unpack_le k b off =
     (if off + k \<le> length b then Ok (from_little (slice b off (off + k))) else Err StructError)"

definition unpack_be :: "nat \<Rightarrow> bytes \<Rightarrow> nat \<Rightarrow> int res" where
  "unpack_be k b off =
     (if off + k \<le> length b then Ok (from_big (slice b off (off + k))) else Err StructError)"

lemma unpack_le_Inr_iff [res_iff]:
  "unpack_le k b off = Inr v \<longleftrightarrow> off + k \<le> length b \<and> v = from_little (slice b off (off + k))"
  by (auto simp: unpack_le_def)

lemma unpack_be_Inr_iff [res_iff]:
  "unpack_be k b off = Inr v \<longleftrightarrow> off + k \<le> length b \<and> v = from_big (slice b off (off + k))"
  by (auto simp: unpack_be_def)

lemma byte_at_Inr_iff [res_iff]: "byte_at b i = Inr v \<longleftrightarrow> i < length b \<and> v = uint (b ! i)"
  by (auto simp: byte_at_def)

text \<open>\<open>struct.pack("B", n)\<close> and \<open>struct.pack(">H", n)\<close> for \<open>n >= 0\<close>: out of range is an error.\<close>

definition pack_u8 :: "nat \<Rightarrow> bytes res" where
  "pack_u8 n = (if n < 256 then Ok [word_of_nat n] else Err StructError)"

definition pack_u16_be :: "nat \<Rightarrow> bytes res" where
  "pack_u16_be n = (if n < 65536 then Ok (to_big 2 (int n)) else Err StructError)"

lemma pack_u8_Inr_iff [res_iff]: "pack_u8 n = Inr b \<longleftrightarrow> n < 256 \<and> b = [word_of_nat n]"
  by (auto simp: pack_u8_def)

lemma pack_u16_be_Inr_iff [res_iff]: "pack_u16_be n = Inr b \<longleftrightarrow> n < 65536 \<and> b = to_big 2 (int n)"
  by (auto simp: pack_u16_be_def)

subsection \<open>Text\<close>

text \<open>
  Python strings are lists of characters here, for the code points below 256. \<open>utf8\<close> is
  \<open>str.encode()\<close> on them.
\<close>

definition char_byte :: "char \<Rightarrow> byte" where
  "char_byte c = word_of_nat (of_char c)"

definition utf8_char :: "char \<Rightarrow> bytes" where
  "utf8_char c = (let n = (of_char c :: nat) in
     if n < 128 then [word_of_nat n] else [word_of_nat (192 + n div 64), word_of_nat (128 + n mod 64)])"

definition utf8 :: "string \<Rightarrow> bytes" where
  "utf8 s = concat (map utf8_char s)"

definition is_ascii :: "string \<Rightarrow> bool" where
  "is_ascii s = (\<forall>c \<in> set s. (of_char c :: nat) < 128)"

lemma utf8_ascii: "is_ascii s \<Longrightarrow> utf8 s = map char_byte s"
  by (induction s) (simp_all add: utf8_def utf8_char_def char_byte_def is_ascii_def)

lemma length_utf8_ascii: "is_ascii s \<Longrightarrow> length (utf8 s) = length s"
  by (simp add: utf8_ascii)

lemma char_byte_inj: "char_byte c = char_byte d \<Longrightarrow> c = d"
proof -
  assume "char_byte c = char_byte d"
  then have "unat (char_byte c) = unat (char_byte d)" by simp
  then have "(of_char c :: nat) = of_char d"
    by (simp add: char_byte_def unat_of_nat of_char_mod_256)
  then show "c = d" by simp
qed

lemma map_char_byte_inj: "map char_byte s = map char_byte t \<Longrightarrow> s = t"
  using inj_map_eq_map [of char_byte] char_byte_inj by (metis injI)

text \<open>\<open>bytes.hex()\<close>: two lower-case digits for each byte.\<close>

definition hex_digit :: "nat \<Rightarrow> char" where
  "hex_digit n = ''0123456789abcdef'' ! n"

definition hex_byte :: "byte \<Rightarrow> string" where
  "hex_byte x = [hex_digit (unat x div 16), hex_digit (unat x mod 16)]"

definition hex :: "bytes \<Rightarrow> string" where
  "hex b = concat (map hex_byte b)"

lemma length_hex [simp]: "length (hex b) = 2 * length b"
  by (induction b) (simp_all add: hex_def hex_byte_def)

lemma hex_Nil [simp]: "hex [] = []"
  by (simp add: hex_def)

lemma hex_append: "hex (a @ b) = hex a @ hex b"
  by (simp add: hex_def)

lemma hex_digit_inj: "i < 16 \<Longrightarrow> j < 16 \<Longrightarrow> hex_digit i = hex_digit j \<Longrightarrow> i = j"
  using nth_eq_iff_index_eq [of "''0123456789abcdef''" i j] by (simp add: hex_digit_def)

lemma unat_byte_less: "unat (x :: byte) < 256"
  using unsigned_less [of x, where 'a = nat] by simp

lemma hex_byte_inj: "hex_byte x = hex_byte y \<Longrightarrow> x = y"
proof -
  assume eq: "hex_byte x = hex_byte y"
  have bx: "unat x < 256" and by_: "unat y < 256"
    by (rule unat_byte_less)+
  from eq have "unat x div 16 = unat y div 16" "unat x mod 16 = unat y mod 16"
    using bx by_ by (auto simp: hex_byte_def intro!: hex_digit_inj)
  then have "unat x = unat y" by (metis div_mult_mod_eq)
  then show "x = y" by (simp only: word_unat_eq_iff)
qed

lemma hex_inj: "hex a = hex b \<Longrightarrow> a = b"
proof (induction a arbitrary: b)
  case Nil
  then show ?case by (cases b) (auto simp: hex_def hex_byte_def)
next
  case (Cons x xs)
  then obtain y ys where b: "b = y # ys"
    by (cases b) (auto simp: hex_def hex_byte_def)
  with Cons.prems have "hex_byte x @ hex xs = hex_byte y @ hex ys"
    by (simp add: hex_def)
  then have "hex_byte x = hex_byte y \<and> hex xs = hex ys"
    by (simp add: hex_byte_def)
  with Cons.IH b show ?case using hex_byte_inj by blast
qed

lemma hex_eq_iff [simp]: "hex a = hex b \<longleftrightarrow> a = b"
  using hex_inj by blast

text \<open>Decimal text of an integer, as \<open>str(n)\<close> and f-strings print it.\<close>

fun dec_nat :: "nat \<Rightarrow> string" where
  "dec_nat n = (if n < 10 then [''0123456789'' ! n]
     else dec_nat (n div 10) @ [''0123456789'' ! (n mod 10)])"

declare dec_nat.simps [simp del]

definition dec :: "int \<Rightarrow> string" where
  "dec n = (if n < 0 then ''-'' @ dec_nat (nat (- n)) else dec_nat (nat n))"

text \<open>A number in front of a text that does not go on with a digit is determined by it.\<close>

definition is_dig :: "char \<Rightarrow> bool" where
  "is_dig c \<longleftrightarrow> c \<in> set ''0123456789''"

definition dig_val :: "string \<Rightarrow> nat" where
  "dig_val s = foldl (\<lambda>a c. 10 * a + (of_char c - 48)) 0 s"

lemma digit_char: "d < 10 \<Longrightarrow> is_dig (''0123456789'' ! d) \<and> (of_char (''0123456789'' ! d) :: nat) = 48 + d"
proof -
  have "list_all (\<lambda>d. is_dig (''0123456789'' ! d) \<and> (of_char (''0123456789'' ! d) :: nat) = 48 + d) [0..<10]"
    by (simp add: is_dig_def upt_rec)
  then show "d < 10 \<Longrightarrow> ?thesis" by (simp add: list_all_iff)
qed

lemma dec_nat_digits: "dec_nat n \<noteq> [] \<and> (\<forall>c \<in> set (dec_nat n). is_dig c) \<and> dig_val (dec_nat n) = n"
proof (induction n rule: dec_nat.induct)
  case (1 n)
  show ?case
  proof (cases "n < 10")
    case True
    then show ?thesis using digit_char [of n] by (subst (1 2 3) dec_nat.simps) (simp add: dig_val_def)
  next
    case False
    then show ?thesis using "1.IH" digit_char [of "n mod 10"] by (subst (1 2 3) dec_nat.simps) (simp add: dig_val_def)
  qed
qed

definition off_digits :: "string \<Rightarrow> bool" where
  "off_digits r \<longleftrightarrow> r = [] \<or> \<not> is_dig (hd r)"

lemma digits_split:
  assumes "\<forall>c \<in> set a. is_dig c" "\<forall>c \<in> set b. is_dig c" "a @ r = b @ r'" "off_digits r" "off_digits r'"
  shows "a = b \<and> r = r'"
proof -
  have "takeWhile is_dig (a @ r) = a" "takeWhile is_dig (b @ r') = b"
    using assms(1,2,4,5) by (auto simp: off_digits_def takeWhile_append takeWhile_eq_all_conv split: if_splits) (cases r; cases r'; simp)+
  with assms(3) show ?thesis by auto
qed

lemma dec_split:
  assumes "dec a @ r = dec b @ r'" "off_digits r" "off_digits r'"
  shows "a = b \<and> r = r'"
proof -
  have d: "\<forall>c \<in> set (dec_nat k). is_dig c" "dec_nat k \<noteq> []" for k using dec_nat_digits [of k] by blast+
  have m: "\<not> is_dig (CHR ''-'')" by (simp add: is_dig_def)
  have h: "hd (dec_nat k @ s) \<noteq> CHR ''-''" for k s using d [of k] m by (cases "dec_nat k") auto
  have n: "(a < 0) = (b < 0)" using arg_cong [OF assms(1), of hd] h by (auto simp: dec_def split: if_splits)
  then have "dec_nat (nat \<bar>a\<bar>) @ r = dec_nat (nat \<bar>b\<bar>) @ r'" using assms(1) by (auto simp: dec_def split: if_splits)
  then have "dec_nat (nat \<bar>a\<bar>) = dec_nat (nat \<bar>b\<bar>) \<and> r = r'" using digits_split d(1) assms(2,3) by blast
  moreover from this have "nat \<bar>a\<bar> = nat \<bar>b\<bar>" using dec_nat_digits by metis
  ultimately show ?thesis using n by linarith
qed

lemma dec_inj: "dec a = dec b \<Longrightarrow> a = b"
  using dec_split [of a "[]" b "[]"] by (simp add: off_digits_def)

section \<open>Dictionaries in insertion order\<close>

text \<open>
  \<open>d[k] = v\<close> is \<^const>\<open>AList.update\<close>: it overwrites in place or appends.
  \<open>group_add\<close> is \<open>d.setdefault(k, []).append(v)\<close>.
\<close>

fun group_add :: "'k \<Rightarrow> 'v \<Rightarrow> ('k \<times> 'v list) list \<Rightarrow> ('k \<times> 'v list) list" where
  "group_add k v [] = [(k, [v])]"
| "group_add k v ((k', vs) # d) =
     (if k = k' then (k', vs @ [v]) # d else (k', vs) # group_add k v d)"

definition group_get :: "('k \<times> 'v list) list \<Rightarrow> 'k \<Rightarrow> 'v list" where
  "group_get d k = (case map_of d k of None \<Rightarrow> [] | Some vs \<Rightarrow> vs)"

definition group_all :: "('a \<Rightarrow> 'k) \<Rightarrow> ('a \<Rightarrow> 'v) \<Rightarrow> 'a list \<Rightarrow> ('k \<times> 'v list) list" where
  "group_all key val xs = foldl (\<lambda>d x. group_add (key x) (val x) d) [] xs"

text \<open>
  The interface the clients of that idiom rely on: a collection that files values under keys.
\<close>

locale multimap =
  fixes empty :: "'m"
    and add :: "'k \<Rightarrow> 'v \<Rightarrow> 'm \<Rightarrow> 'm"
    and get :: "'m \<Rightarrow> 'k \<Rightarrow> 'v list"
    and keys :: "'m \<Rightarrow> 'k set"
  assumes get_empty: "get empty k = []"
    and get_add: "get (add k v m) k' = (if k' = k then get m k @ [v] else get m k')"
    and keys_empty: "keys empty = {}"
    and keys_add: "keys (add k v m) = insert k (keys m)"
begin

lemma get_foldl:
  "get (foldl (\<lambda>d x. add (f x) (g x) d) m xs) k = get m k @ map g (filter (\<lambda>x. f x = k) xs)"
  by (induction xs arbitrary: m) (auto simp: get_add)

lemma keys_foldl: "keys (foldl (\<lambda>d x. add (f x) (g x) d) m xs) = keys m \<union> f ` set xs"
  by (induction xs arbitrary: m) (auto simp: keys_add)

text \<open>Filing a list: under each key exactly its own values, in their order.\<close>

lemma get_filed:
  "get (foldl (\<lambda>d x. add (f x) (g x) d) empty xs) k = map g (filter (\<lambda>x. f x = k) xs)"
  by (simp add: get_foldl get_empty)

lemma keys_filed: "keys (foldl (\<lambda>d x. add (f x) (g x) d) empty xs) = f ` set xs"
  by (simp add: keys_foldl keys_empty)

end

lemma group_get_add: "group_get (group_add k v d) k' = (if k' = k then group_get d k @ [v] else group_get d k')"
  by (induction k v d rule: group_add.induct) (auto simp: group_get_def)

lemma keys_group_add: "fst ` set (group_add k v d) = insert k (fst ` set d)"
  by (induction k v d rule: group_add.induct) auto

lemma distinct_group_add: "distinct (map fst d) \<Longrightarrow> distinct (map fst (group_add k v d))"
proof (induction k v d rule: group_add.induct)
  case (2 k v k' vs d)
  then show ?case using keys_group_add [of k v d] by auto
qed simp

interpretation grouped: multimap "[]" group_add group_get "\<lambda>d. fst ` set d"
  by unfold_locales (simp_all add: group_get_add keys_group_add, simp add: group_get_def)

lemma group_all_get: "group_get (group_all f g xs) k = map g (filter (\<lambda>x. f x = k) xs)"
  unfolding group_all_def by (rule grouped.get_filed)

lemma group_all_keys: "fst ` set (group_all f g xs) = f ` set xs"
  unfolding group_all_def by (rule grouped.keys_filed)

lemma group_all_distinct: "distinct (map fst (group_all f g xs))"
proof -
  have "distinct (map fst d) \<Longrightarrow> distinct (map fst (foldl (\<lambda>d x. group_add (f x) (g x) d) d xs))" for d
    by (induction xs arbitrary: d) (simp_all add: distinct_group_add)
  then show ?thesis by (simp add: group_all_def)
qed

end
