(* ===== verification/Hashes.thy ===== *)
theory Hashes
  imports Prelude
begin

text \<open>
  The hash functions of the standard library the program calls: \<open>hashlib.sha1\<close> (inside
  \<open>uuid.uuid5\<close>), \<open>sha256\<close>, \<open>sha384\<close> and \<open>sha512\<close>, and \<open>hmac.new(k, m, h).digest()\<close>.
  They are defined, not assumed, after FIPS 180-4 and RFC 2104. The locale \<open>hash_fn\<close> is what
  the clients (HMAC, HKDF, the binders) rely on of a hash: its digest and block lengths; it is
  interpreted on each of the functions.
\<close>

section \<open>The SHA-2 family\<close>

definition sha_ch :: "'w::len word \<Rightarrow> 'w word \<Rightarrow> 'w word \<Rightarrow> 'w word" where
  "sha_ch x y z = (x AND y) XOR (NOT x AND z)"

definition sha_maj :: "'w::len word \<Rightarrow> 'w word \<Rightarrow> 'w word \<Rightarrow> 'w word" where
  "sha_maj x y z = (x AND y) XOR (x AND z) XOR (y AND z)"

text \<open>\<open>rot3\<close> is a big sigma (three rotations), \<open>rot2_shift\<close> a small one (two and a shift).\<close>

definition rot3 :: "nat \<Rightarrow> nat \<Rightarrow> nat \<Rightarrow> 'w::len word \<Rightarrow> 'w word" where
  "rot3 i j k x = word_rotr i x XOR word_rotr j x XOR word_rotr k x"

definition rot2_shift :: "nat \<Rightarrow> nat \<Rightarrow> nat \<Rightarrow> 'w::len word \<Rightarrow> 'w word" where
  "rot2_shift i j k x = word_rotr i x XOR word_rotr j x XOR drop_bit k x"

type_synonym 'w state8 = "'w word \<times> 'w word \<times> 'w word \<times> 'w word \<times> 'w word \<times> 'w word \<times> 'w word \<times> 'w word"

text \<open>The message schedule, extended word by word.\<close>

fun sha_schedule :: "('w::len word \<Rightarrow> 'w word) \<Rightarrow> ('w word \<Rightarrow> 'w word) \<Rightarrow> nat \<Rightarrow> 'w word list \<Rightarrow> 'w word list" where
  "sha_schedule s0 s1 0 ws = ws"
| "sha_schedule s0 s1 (Suc n) ws = (let t = length ws in
     sha_schedule s0 s1 n (ws @ [s1 (ws ! (t - 2)) + ws ! (t - 7) + s0 (ws ! (t - 15)) + ws ! (t - 16)]))"

fun sha_round :: "('w::len word \<Rightarrow> 'w word) \<Rightarrow> ('w word \<Rightarrow> 'w word) \<Rightarrow> 'w state8 \<Rightarrow> 'w word \<times> 'w word \<Rightarrow> 'w state8" where
  "sha_round S0 S1 (a, b, c, d, e, f, g, h) (k, w) =
     (let t1 = h + S1 e + sha_ch e f g + k + w; t2 = S0 a + sha_maj a b c
      in (t1 + t2, a, b, c, d + t1, e, f, g))"

fun add8 :: "'w::len state8 \<Rightarrow> 'w state8 \<Rightarrow> 'w state8" where
  "add8 (a, b, c, d, e, f, g, h) (a', b', c', d', e', f', g', h') =
     (a + a', b + b', c + c', d + d', e + e', f + f', g + g', h + h')"

fun list8 :: "'w state8 \<Rightarrow> 'w word list" where
  "list8 (a, b, c, d, e, f, g, h) = [a, b, c, d, e, f, g, h]"

text \<open>Words from and to big-endian bytes; the padding; the blocks.\<close>

definition be_word :: "bytes \<Rightarrow> 'w::len word" where
  "be_word b = word_of_int (from_big b)"

definition word_be :: "nat \<Rightarrow> 'w::len word \<Rightarrow> bytes" where
  "word_be k w = to_big k (uint w)"

fun chunks :: "nat \<Rightarrow> nat \<Rightarrow> 'a list \<Rightarrow> 'a list list" where
  "chunks k 0 xs = []"
| "chunks k (Suc n) xs = take k xs # chunks k n (drop k xs)"

text \<open>A one bit, zeros, and the length in bits as a big-endian field of \<open>l\<close> bytes: \<open>l\<close> is 8
  for 64-byte blocks and 16 for 128-byte blocks.\<close>

definition sha_pad :: "nat \<Rightarrow> nat \<Rightarrow> bytes \<Rightarrow> bytes" where
  "sha_pad blk l m =
     m @ [0x80] @ zeros (nat ((int blk - 1 - int l - int (length m)) mod int blk))
       @ to_big l (8 * int (length m) mod 256 ^ l)"

record 'x sha2_params =
  small0 :: "'x \<Rightarrow> 'x"
  small1 :: "'x \<Rightarrow> 'x"
  big0 :: "'x \<Rightarrow> 'x"
  big1 :: "'x \<Rightarrow> 'x"
  round_ks :: "'x list"
  wbytes :: nat

definition sha2_block :: "('w::len word) sha2_params \<Rightarrow> 'w state8 \<Rightarrow> bytes \<Rightarrow> 'w state8" where
  "sha2_block p st b =
     add8 st (foldl (sha_round (big0 p) (big1 p)) st
       (zip (round_ks p) (sha_schedule (small0 p) (small1 p) (length (round_ks p) - 16)
         (map be_word (chunks (wbytes p) 16 b)))))"

definition sha2 :: "('w::len word) sha2_params \<Rightarrow> 'w state8 \<Rightarrow> bytes \<Rightarrow> bytes" where
  "sha2 p iv m = (let blk = 16 * wbytes p; padded = sha_pad blk (2 * wbytes p) m in
     concat (map (word_be (wbytes p)) (list8 (foldl (sha2_block p) iv (chunks blk (length padded div blk) padded)))))"

text \<open>
  The round constants of SHA-512, five to a row, most significant first. Those of SHA-256 are
  the upper halves of the first 64 of them.
\<close>

definition row_words :: "int \<Rightarrow> 64 word list" where
  "row_words x = map (\<lambda>i. word_of_int (drop_bit (64 * i) x)) [4, 3, 2, 1, 0]"

definition round_constants :: "64 word list" where
  "round_constants = concat (map row_words [
   0x428a2f98d728ae227137449123ef65cdb5c0fbcfec4d3b2fe9b5dba58189dbbc3956c25bf348b538,
   0x59f111f1b605d019923f82a4af194f9bab1c5ed5da6d8118d807aa98a303024212835b0145706fbe,
   0x243185be4ee4b28c550c7dc3d5ffb4e272be5d74f27b896f80deb1fe3b1696b19bdc06a725c71235,
   0xc19bf174cf692694e49b69c19ef14ad2efbe4786384f25e30fc19dc68b8cd5b5240ca1cc77ac9c65,
   0x2de92c6f592b02754a7484aa6ea6e4835cb0a9dcbd41fbd476f988da831153b5983e5152ee66dfab,
   0xa831c66d2db43210b00327c898fb213fbf597fc7beef0ee4c6e00bf33da88fc2d5a79147930aa725,
   0x06ca6351e003826f142929670a0e6e7027b70a8546d22ffc2e1b21385c26c9264d2c6dfc5ac42aed,
   0x53380d139d95b3df650a73548baf63de766a0abb3c77b2a881c2c92e47edaee692722c851482353b,
   0xa2bfe8a14cf10364a81a664bbc423001c24b8b70d0f89791c76c51a30654be30d192e819d6ef5218,
   0xd69906245565a910f40e35855771202a106aa07032bbd1b819a4c116b8d2d0c81e376c085141ab53,
   0x2748774cdf8eeb9934b0bcb5e19b48a8391c0cb3c5c95a634ed8aa4ae3418acb5b9cca4f7763e373,
   0x682e6ff3d6b2b8a3748f82ee5defb2fc78a5636f43172f6084c87814a1f0ab728cc702081a6439ec,
   0x90befffa23631e28a4506cebde82bde9bef9a3f7b2c67915c67178f2e372532bca273eceea26619c,
   0xd186b8c721c0c207eada7dd6cde0eb1ef57d4f7fee6ed17806f067aa72176fba0a637dc5a2c898a6,
   0x113f9804bef90dae1b710b35131c471b28db77f523047d8432caab7b40c724933c9ebe0a15c9bebc,
   0x431d67c49c100d4c4cc5d4becb3e42b6597f299cfc657e2a5fcb6fab3ad6faec6c44198c4a475817])"

definition params256 :: "(32 word) sha2_params" where
  "params256 = \<lparr>small0 = rot2_shift 7 18 3, small1 = rot2_shift 17 19 10, big0 = rot3 2 13 22, big1 = rot3 6 11 25,
   round_ks = map (\<lambda>k. ucast (drop_bit 32 k)) (take 64 round_constants), wbytes = 4\<rparr>"

definition params512 :: "(64 word) sha2_params" where
  "params512 = \<lparr>small0 = rot2_shift 1 8 7, small1 = rot2_shift 19 61 6, big0 = rot3 28 34 39, big1 = rot3 14 18 41,
   round_ks = round_constants, wbytes = 8\<rparr>"

definition sha256 :: "bytes \<Rightarrow> bytes" where
  "sha256 = sha2 params256 (
   0x6a09e667, 0xbb67ae85, 0x3c6ef372, 0xa54ff53a, 0x510e527f, 0x9b05688c, 0x1f83d9ab, 0x5be0cd19)"

definition sha512 :: "bytes \<Rightarrow> bytes" where
  "sha512 = sha2 params512 (
   0x6a09e667f3bcc908, 0xbb67ae8584caa73b, 0x3c6ef372fe94f82b, 0xa54ff53a5f1d36f1,
   0x510e527fade682d1, 0x9b05688c2b3e6c1f, 0x1f83d9abfb41bd6b, 0x5be0cd19137e2179)"

definition sha384 :: "bytes \<Rightarrow> bytes" where
  "sha384 m = take 48 (sha2 params512 (
   0xcbbb9d5dc1059ed8, 0x629a292a367cd507, 0x9159015a3070dd17, 0x152fecd8f70e5939,
   0x67332667ffc00b31, 0x8eb44a8768581511, 0xdb0c2e0d64f98fa7, 0x47b5481dbefa4fa4) m)"

section \<open>SHA-1\<close>

type_synonym state5 = "32 word \<times> 32 word \<times> 32 word \<times> 32 word \<times> 32 word"

fun sha1_schedule :: "nat \<Rightarrow> 32 word list \<Rightarrow> 32 word list" where
  "sha1_schedule 0 ws = ws"
| "sha1_schedule (Suc n) ws = (let t = length ws in
     sha1_schedule n (ws @ [word_rotl 1 (ws ! (t - 3) XOR ws ! (t - 8) XOR ws ! (t - 14) XOR ws ! (t - 16))]))"

definition sha1_f :: "nat \<Rightarrow> 32 word \<Rightarrow> 32 word \<Rightarrow> 32 word \<Rightarrow> 32 word" where
  "sha1_f t x y z = (if t < 20 then sha_ch x y z else if t < 40 then x XOR y XOR z
     else if t < 60 then sha_maj x y z else x XOR y XOR z)"

definition sha1_k :: "nat \<Rightarrow> 32 word" where
  "sha1_k t = (if t < 20 then 0x5a827999 else if t < 40 then 0x6ed9eba1
     else if t < 60 then 0x8f1bbcdc else 0xca62c1d6)"

fun sha1_round :: "state5 \<Rightarrow> nat \<times> 32 word \<Rightarrow> state5" where
  "sha1_round (a, b, c, d, e) (t, w) =
     (word_rotl 5 a + sha1_f t b c d + e + sha1_k t + w, a, word_rotl 30 b, c, d)"

fun add5 :: "state5 \<Rightarrow> state5 \<Rightarrow> state5" where
  "add5 (a, b, c, d, e) (a', b', c', d', e') = (a + a', b + b', c + c', d + d', e + e')"

fun list5 :: "state5 \<Rightarrow> 32 word list" where
  "list5 (a, b, c, d, e) = [a, b, c, d, e]"

definition sha1_block :: "state5 \<Rightarrow> bytes \<Rightarrow> state5" where
  "sha1_block st b = add5 st (foldl sha1_round st
     (zip [0..<80] (sha1_schedule 64 (map be_word (chunks 4 16 b)))))"

definition sha1 :: "bytes \<Rightarrow> bytes" where
  "sha1 m = (let padded = sha_pad 64 8 m in
     concat (map (word_be 4) (list5 (foldl sha1_block
       (0x67452301, 0xefcdab89, 0x98badcfe, 0x10325476, 0xc3d2e1f0)
       (chunks 64 (length padded div 64) padded)))))"

section \<open>Hash objects and HMAC\<close>

text \<open>What \<open>hashlib\<close> and \<open>hmac\<close> use of a hash constructor: \<open>digest\<close>, \<open>digest_size\<close>, \<open>block_size\<close>.\<close>

record hash_alg =
  digest :: "bytes \<Rightarrow> bytes"
  digest_size :: nat
  block_size :: nat

definition sha1_alg :: hash_alg where
  "sha1_alg = \<lparr>digest = sha1, digest_size = 20, block_size = 64\<rparr>"

definition sha256_alg :: hash_alg where
  "sha256_alg = \<lparr>digest = sha256, digest_size = 32, block_size = 64\<rparr>"

definition sha384_alg :: hash_alg where
  "sha384_alg = \<lparr>digest = sha384, digest_size = 48, block_size = 128\<rparr>"

definition sha512_alg :: hash_alg where
  "sha512_alg = \<lparr>digest = sha512, digest_size = 64, block_size = 128\<rparr>"

definition hmac :: "hash_alg \<Rightarrow> bytes \<Rightarrow> bytes \<Rightarrow> bytes" where
  "hmac h k m =
     (let k0 = (if length k > block_size h then digest h k else k);
          kp = k0 @ zeros (block_size h - length k0)
      in digest h (map ((XOR) 0x5c) kp @ digest h (map ((XOR) 0x36) kp @ m)))"

text \<open>The contract of a hash constructor.\<close>

locale hash_fn =
  fixes h :: hash_alg
  assumes length_digest: "length (digest h m) = digest_size h"
    and digest_size_pos: "0 < digest_size h"
    and digest_size_block: "digest_size h \<le> block_size h"
    and digest_size_64: "digest_size h \<le> 64"
begin

lemma length_hmac: "length (hmac h k m) = digest_size h"
  by (simp add: hmac_def Let_def length_digest)

text \<open>A key that is longer than a block is replaced by its digest.\<close>

lemma hmac_long_key: "block_size h < length k \<Longrightarrow> hmac h k m = hmac h (digest h k) m"
  using digest_size_block by (simp add: hmac_def Let_def length_digest)

text \<open>A shorter key and the same key padded with zero bytes give the same code.\<close>

lemma hmac_zero_padded_key: "length k + n \<le> block_size h \<Longrightarrow> hmac h (k @ zeros n) m = hmac h k m"
proof -
  assume le: "length k + n \<le> block_size h"
  then have "zeros n @ zeros (block_size h - (length k + n)) = zeros (block_size h - length k)"
    by (simp add: zeros_def flip: replicate_add)
  then have "(k @ zeros n) @ zeros (block_size h - length (k @ zeros n)) = k @ zeros (block_size h - length k)"
    by simp
  with le show ?thesis by (simp add: hmac_def Let_def del: map_append)
qed

end

lemma length_concat_word_be [simp]: "length (concat (map (word_be k) ws)) = k * length ws"
  by (induction ws) (simp_all add: word_be_def)

lemma length_list8 [simp]: "length (list8 s) = 8"
  by (cases s rule: list8.cases) simp

lemma length_list5 [simp]: "length (list5 s) = 5"
  by (cases s) simp

lemma length_sha2: "length (sha2 p iv m) = 8 * wbytes p"
  by (simp add: sha2_def Let_def)

lemma length_sha1 [simp]: "length (sha1 m) = 20"
  by (simp add: sha1_def Let_def)

lemma length_sha256 [simp]: "length (sha256 m) = 32"
  by (simp add: sha256_def length_sha2 params256_def)

lemma length_sha512 [simp]: "length (sha512 m) = 64"
  by (simp add: sha512_def length_sha2 params512_def)

lemma length_sha384 [simp]: "length (sha384 m) = 48"
  by (simp add: sha384_def length_sha2 params512_def)

lemmas hash_alg_defs = sha1_alg_def sha256_alg_def sha384_alg_def sha512_alg_def

lemma hash_alg_sizes [simp]:
  "digest_size sha1_alg = 20" "digest_size sha256_alg = 32" "digest_size sha384_alg = 48" "digest_size sha512_alg = 64"
  "digest sha1_alg = sha1" "digest sha256_alg = sha256" "digest sha384_alg = sha384" "digest sha512_alg = sha512"
  by (simp_all add: hash_alg_defs)

interpretation sha1h: hash_fn sha1_alg
  by unfold_locales (simp_all add: hash_alg_defs)

interpretation sha256h: hash_fn sha256_alg
  by unfold_locales (simp_all add: hash_alg_defs)

interpretation sha384h: hash_fn sha384_alg
  by unfold_locales (simp_all add: hash_alg_defs)

interpretation sha512h: hash_fn sha512_alg
  by unfold_locales (simp_all add: hash_alg_defs)

text \<open>The padded message is a whole number of blocks: no byte of it is left out.\<close>

lemma sha_pad_blocks:
  assumes "1 + l < blk"
  shows "length (sha_pad blk l m) mod blk = 0"
proof -
  define a where "a = int (length m) + 1 + int l"
  let ?z = "(int blk - a) mod int blk"
  have z: "0 \<le> ?z" using assms by simp
  have eq: "int blk - 1 - int l - int (length m) = int blk - a"
    by (simp add: a_def)
  have "int (length (sha_pad blk l m)) =
      a + int (nat ((int blk - 1 - int l - int (length m)) mod int blk))"
    by (simp add: sha_pad_def a_def)
  then have "int (length (sha_pad blk l m)) = a + ?z"
    unfolding eq using z by (simp only: int_nat_eq if_True)
  moreover have "(a + ?z) mod int blk = 0"
    by (simp only: mod_add_right_eq) simp
  ultimately have "int (length (sha_pad blk l m) mod blk) = 0"
    by (simp only: of_nat_mod)
  then show ?thesis by simp
qed

end
