(* ===== verification/Binder.thy ===== *)
theory Binder
  imports Hashes
begin

text \<open>
  The attestation binder of \<open>early-attestation/binder.py\<close> (draft-fossati-seat-early-attestation,
  Section 5.1.1), and the second implementation of it that runs inside the guest,
  \<open>early-attestation/handshake_stdlib.py\<close>. The lemmas give HKDF-Expand its RFC 5869 meaning,
  show the encoding of the HkdfLabel unambiguous, and reduce a clash of two binders to a
  collision among the hash inputs the program itself computed.
\<close>

section \<open>HKDF\<close>

text \<open>The dictionary \<open>HASHES\<close>; a missing key is a \<open>KeyError\<close>.\<close>

definition HASHES :: "string \<Rightarrow> hash_alg res" where
  "HASHES hn = (if hn = ''sha256'' then Ok sha256_alg
     else if hn = ''sha384'' then Ok sha384_alg else Err (KeyError hn))"

text \<open>\<open>bytes([i])\<close>.\<close>

definition byte_of :: "nat \<Rightarrow> byte res" where
  "byte_of i = (if i < 256 then Ok (word_of_nat i) else Err ValueError)"

text \<open>The loop \<open>for i in range(1, n + 1)\<close>: \<open>t\<close> is the last block, \<open>okm\<close> the output so far.\<close>

fun hkdf_loop :: "hash_alg \<Rightarrow> bytes \<Rightarrow> bytes \<Rightarrow> nat list \<Rightarrow> bytes \<Rightarrow> bytes \<Rightarrow> bytes res" where
  "hkdf_loop h prk info [] t okm = Ok okm"
| "hkdf_loop h prk info (i # is) t okm = rbind (byte_of i) (\<lambda>b.
     let t' = hmac h prk (t @ info @ [b]) in hkdf_loop h prk info is t' (okm @ t'))"

definition hkdf_expand :: "bytes \<Rightarrow> bytes \<Rightarrow> nat \<Rightarrow> string \<Rightarrow> bytes res" where
  "hkdf_expand prk info len hn = rbind (HASHES hn) (\<lambda>h.
     let hlen = digest_size h; n = (len + hlen - 1) div hlen
     in rbind (hkdf_loop h prk info [1..<n + 1] [] []) (\<lambda>okm. Ok (take len okm)))"

text \<open>\<open>struct HkdfLabel\<close>: a 16-bit length and two byte strings with one-byte length prefixes.\<close>

definition hkdf_label :: "nat \<Rightarrow> string \<Rightarrow> bytes \<Rightarrow> bytes res" where
  "hkdf_label len label context =
     (let full = utf8 ''tls13 '' @ utf8 label in
      rbind (pack_u16_be len) (\<lambda>l. rbind (pack_u8 (length full)) (\<lambda>fl. rbind (pack_u8 (length context)) (\<lambda>cl.
        Ok (l @ fl @ full @ cl @ context)))))"

definition hkdf_expand_label :: "bytes \<Rightarrow> string \<Rightarrow> bytes \<Rightarrow> nat \<Rightarrow> string \<Rightarrow> bytes res" where
  "hkdf_expand_label secret label context len hn =
     rbind (hkdf_label len label context) (\<lambda>info. hkdf_expand secret info len hn)"

section \<open>The binder\<close>

definition transcript_hash :: "bytes \<Rightarrow> string \<Rightarrow> bytes res" where
  "transcript_hash handshake_bytes hn = rbind (HASHES hn) (\<lambda>h. Ok (digest h handshake_bytes))"

definition attest_base :: "bytes \<Rightarrow> string \<Rightarrow> bytes res" where
  "attest_base ch_sh_transcript hn = rbind (HASHES hn) (\<lambda>h. let hlen = digest_size h in
     rbind (transcript_hash ch_sh_transcript hn) (\<lambda>th.
       hkdf_expand_label (zeros hlen) ''attestation base'' th hlen hn))"

definition server_binder :: "bytes \<Rightarrow> bytes \<Rightarrow> string \<Rightarrow> bytes res" where
  "server_binder ch_sh_transcript server_spki_der hn = rbind (HASHES hn) (\<lambda>h. let hlen = digest_size h in
     rbind (attest_base ch_sh_transcript hn) (\<lambda>base.
       hkdf_expand_label base ''attestation'' (digest h server_spki_der) hlen hn))"

definition client_binder :: "bytes \<Rightarrow> bytes \<Rightarrow> string \<Rightarrow> bytes res" where
  "client_binder ch_sh_transcript client_spki_der hn = rbind (HASHES hn) (\<lambda>h. let hlen = digest_size h in
     rbind (attest_base ch_sh_transcript hn) (\<lambda>base.
       hkdf_expand_label base ''attestation'' (digest h client_spki_der) hlen hn))"

definition into_report_data :: "bytes \<Rightarrow> bytes res" where
  "into_report_data binder =
     rbind (rassert (length binder \<le> 64) AssertionError) (\<lambda>_. Ok (binder @ zeros (64 - length binder)))"

section \<open>The guest-side copy\<close>

text \<open>
  \<open>handshake_stdlib.py\<close> derives the binder without \<open>binder.py\<close>: the base and the binder in one
  function, and the padding written at the place of use.
\<close>

definition stdlib_step :: "hash_alg \<Rightarrow> bytes \<Rightarrow> bytes \<Rightarrow> (bytes \<times> bytes) res \<Rightarrow> nat \<Rightarrow> (bytes \<times> bytes) res" where
  "stdlib_step h prk info st i = rbind st (\<lambda>(t, okm). rbind (byte_of i) (\<lambda>b.
     let t' = hmac h prk (t @ info @ [b]) in Ok (t', okm @ t')))"

definition stdlib_hkdf_expand :: "bytes \<Rightarrow> bytes \<Rightarrow> nat \<Rightarrow> string \<Rightarrow> bytes res" where
  "stdlib_hkdf_expand prk info len hn = rbind (HASHES hn) (\<lambda>h.
     let hlen = digest_size h; n = (len + hlen - 1) div hlen in
     rbind (foldl (stdlib_step h prk info) (Ok ([], [])) [1..<n + 1]) (\<lambda>(t, okm). Ok (take len okm)))"

definition stdlib_hkdf_expand_label :: "bytes \<Rightarrow> string \<Rightarrow> bytes \<Rightarrow> nat \<Rightarrow> string \<Rightarrow> bytes res" where
  "stdlib_hkdf_expand_label secret label context len hn =
     (let full = utf8 ''tls13 '' @ utf8 label in
      rbind (pack_u16_be len) (\<lambda>l. rbind (pack_u8 (length full)) (\<lambda>fl. rbind (pack_u8 (length context)) (\<lambda>cl.
        stdlib_hkdf_expand secret (l @ fl @ full @ cl @ context) len hn))))"

definition stdlib_server_binder :: "bytes \<Rightarrow> bytes \<Rightarrow> string \<Rightarrow> bytes res" where
  "stdlib_server_binder transcript spki_der hn = rbind (HASHES hn) (\<lambda>h. let hlen = digest_size h in
     rbind (stdlib_hkdf_expand_label (zeros hlen) ''attestation base'' (digest h transcript) hlen hn) (\<lambda>base.
       stdlib_hkdf_expand_label base ''attestation'' (digest h spki_der) hlen hn))"

definition stdlib_report_data :: "bytes \<Rightarrow> bytes" where
  "stdlib_report_data binder = binder @ zeros (64 - length binder)"

section \<open>What HKDF-Expand computes\<close>

text \<open>RFC 5869: \<open>T(0)\<close> is empty, \<open>T(i+1) = HMAC(PRK, T(i) || info || i+1)\<close>.\<close>

fun hkdf_T :: "hash_alg \<Rightarrow> bytes \<Rightarrow> bytes \<Rightarrow> nat \<Rightarrow> bytes" where
  "hkdf_T h prk info 0 = []"
| "hkdf_T h prk info (Suc i) = hmac h prk (hkdf_T h prk info i @ info @ [word_of_nat (Suc i)])"

definition hkdf_okm :: "hash_alg \<Rightarrow> bytes \<Rightarrow> bytes \<Rightarrow> nat \<Rightarrow> bytes" where
  "hkdf_okm h prk info n = concat (map (hkdf_T h prk info) [1..<n + 1])"

lemma HASHES_cases: "HASHES hn = Inr h \<Longrightarrow> h = sha256_alg \<or> h = sha384_alg"
  by (simp add: HASHES_def split: if_splits)

lemma HASHES_hash_fn: "HASHES hn = Inr h \<Longrightarrow> hash_fn h"
  using HASHES_cases sha256h.hash_fn_axioms sha384h.hash_fn_axioms by blast

lemma HASHES_known [simp]:
  "HASHES ''sha256'' = Inr sha256_alg" "HASHES ''sha384'' = Inr sha384_alg"
  by (simp_all add: HASHES_def)

lemma hkdf_loop_spec:
  "i \<le> n \<Longrightarrow> n \<le> 255 \<Longrightarrow>
     hkdf_loop h prk info [Suc i..<Suc n] (hkdf_T h prk info i) okm
       = Inr (okm @ concat (map (hkdf_T h prk info) [Suc i..<Suc n]))"
proof (induction "n - i" arbitrary: i okm)
  case (Suc d)
  then have lt: "i < n" by simp
  then have upt: "[Suc i..<Suc n] = Suc i # [Suc (Suc i)..<Suc n]" by (simp add: upt_conv_Cons)
  have b: "byte_of (Suc i) = Inr (word_of_nat (Suc i))" using lt Suc.prems by (simp add: byte_of_def)
  have step: "hkdf_loop h prk info [Suc (Suc i)..<Suc n] (hkdf_T h prk info (Suc i)) (okm @ hkdf_T h prk info (Suc i))
      = Inr ((okm @ hkdf_T h prk info (Suc i)) @ concat (map (hkdf_T h prk info) [Suc (Suc i)..<Suc n]))"
    using Suc.hyps(2) Suc.prems lt by (intro Suc.hyps(1)) simp_all
  then show ?case by (simp add: upt b Let_def del: upt_Suc)
qed simp

lemma hkdf_loop_too_long:
  "i < n \<Longrightarrow> 255 < n \<Longrightarrow> i \<le> 255 \<Longrightarrow> hkdf_loop h prk info [Suc i..<Suc n] t okm = Inl ValueError"
proof (induction "255 - i" arbitrary: i t okm)
  case 0
  then have "[Suc i..<Suc n] = 256 # [257..<Suc n]" by (simp add: upt_conv_Cons)
  then show ?case by (simp add: byte_of_def del: upt_Suc)
next
  case (Suc d)
  then have upt: "[Suc i..<Suc n] = Suc i # [Suc (Suc i)..<Suc n]" by (simp add: upt_conv_Cons)
  have b: "byte_of (Suc i) = Inr (word_of_nat (Suc i))" using Suc.hyps(2) by (simp add: byte_of_def)
  have "hkdf_loop h prk info [Suc (Suc i)..<Suc n] t' okm' = Inl ValueError" for t' okm'
    using Suc.hyps(2) Suc.prems by (intro Suc.hyps(1)) simp_all
  then show ?case by (simp add: upt b Let_def del: upt_Suc)
qed

context hash_fn
begin

lemma length_hkdf_T: "length (hkdf_T h prk info (Suc i)) = digest_size h"
  by (simp add: length_hmac)

lemma length_hkdf_okm: "length (hkdf_okm h prk info n) = n * digest_size h"
  by (induction n) (simp_all add: hkdf_okm_def length_hkdf_T del: hkdf_T.simps)

lemma blocks_cover: "len \<le> (len + digest_size h - 1) div digest_size h * digest_size h"
proof -
  let ?d = "digest_size h"
  have "(len + ?d - 1) mod ?d \<le> ?d - 1" using digest_size_pos by (simp add: less_Suc_eq_le [symmetric])
  moreover have "(len + ?d - 1) div ?d * ?d + (len + ?d - 1) mod ?d = len + ?d - 1" by simp
  ultimately show ?thesis using digest_size_pos by linarith
qed

lemma blocks_le: "len \<le> 255 * digest_size h \<longleftrightarrow> (len + digest_size h - 1) div digest_size h \<le> 255"
proof
  assume "len \<le> 255 * digest_size h"
  then have "len + digest_size h - 1 < 256 * digest_size h" using digest_size_pos by linarith
  then show "(len + digest_size h - 1) div digest_size h \<le> 255"
    using digest_size_pos by (simp add: div_less_iff_less_mult less_Suc_eq_le [symmetric])
next
  assume "(len + digest_size h - 1) div digest_size h \<le> 255"
  then show "len \<le> 255 * digest_size h" using blocks_cover [of len] by (meson le_trans mult_le_mono1)
qed

lemma one_block: "(digest_size h + digest_size h - 1) div digest_size h = 1"
  using digest_size_pos by (simp add: div_nat_eqI)

end

lemmas hash_len_facts = hash_fn.length_digest hash_fn.length_hmac hash_fn.digest_size_pos
  hash_fn.digest_size_64 hash_fn.length_hkdf_okm

lemma hkdf_expand_ok:
  assumes H: "HASHES hn = Inr h" and le: "len \<le> 255 * digest_size h"
  shows "hkdf_expand prk info len hn
      = Inr (take len (hkdf_okm h prk info ((len + digest_size h - 1) div digest_size h)))"
proof -
  let ?n = "(len + digest_size h - 1) div digest_size h"
  have "?n \<le> 255" using le hash_fn.blocks_le [OF HASHES_hash_fn [OF H], of len] by simp
  then have "hkdf_loop h prk info [Suc 0..<Suc ?n] (hkdf_T h prk info 0) [] = Inr (hkdf_okm h prk info ?n)"
    using hkdf_loop_spec [of 0 ?n h prk info "[]"] by (simp add: hkdf_okm_def)
  then show ?thesis by (simp add: hkdf_expand_def H Let_def)
qed

lemma hkdf_expand_too_long:
  assumes H: "HASHES hn = Inr h" and gt: "255 * digest_size h < len"
  shows "hkdf_expand prk info len hn = Inl ValueError"
proof -
  let ?n = "(len + digest_size h - 1) div digest_size h"
  have "255 < ?n" using gt hash_fn.blocks_le [OF HASHES_hash_fn [OF H], of len] by linarith
  then have "hkdf_loop h prk info [Suc 0..<Suc ?n] [] [] = Inl ValueError"
    by (intro hkdf_loop_too_long) simp_all
  then show ?thesis by (simp add: hkdf_expand_def H Let_def)
qed

lemma hkdf_expand_length:
  assumes H: "HASHES hn = Inr h" and E: "hkdf_expand prk info len hn = Inr okm"
  shows "length okm = len"
proof -
  note fn = HASHES_hash_fn [OF H]
  from E have le: "len \<le> 255 * digest_size h"
    using hkdf_expand_too_long [OF H, of len prk info] by (cases "len \<le> 255 * digest_size h") auto
  from E hkdf_expand_ok [OF H le, of prk info]
  show ?thesis using hash_fn.blocks_cover [OF fn, of len] by (auto simp: hash_fn.length_hkdf_okm [OF fn])
qed

text \<open>One block of output, the case the binder uses.\<close>

lemma hkdf_expand_one_block:
  assumes H: "HASHES hn = Inr h"
  shows "hkdf_expand prk info (digest_size h) hn = Inr (hmac h prk (info @ [1]))"
proof -
  note fn = HASHES_hash_fn [OF H]
  have one: "hkdf_okm h prk info 1 = hmac h prk (info @ [1])"
    by (simp add: hkdf_okm_def upt_rec)
  have "hkdf_expand prk info (digest_size h) hn = Inr (take (digest_size h) (hmac h prk (info @ [1])))"
    using hkdf_expand_ok [OF H, of "digest_size h" prk info]
    unfolding hash_fn.one_block [OF fn] one by simp
  then show ?thesis by (simp add: hash_fn.length_hmac [OF fn])
qed

section \<open>The HkdfLabel encoding\<close>

lemma hkdf_label_Inr_iff:
  "hkdf_label len label context = Inr b \<longleftrightarrow>
     len < 65536 \<and> 6 + length (utf8 label) < 256 \<and> length context < 256 \<and>
     b = to_big 2 (int len) @ [word_of_nat (6 + length (utf8 label))] @ utf8 ''tls13 '' @ utf8 label
           @ [word_of_nat (length context)] @ context"
proof -
  have "length (utf8 ''tls13 '') = 6" by (simp add: length_utf8_ascii is_ascii_def)
  then show ?thesis by (auto simp: hkdf_label_def Let_def res_iff)
qed

lemma word_of_nat_byte_inj: "m < 256 \<Longrightarrow> n < 256 \<Longrightarrow> (word_of_nat m :: byte) = word_of_nat n \<Longrightarrow> m = n"
proof -
  assume b: "m < 256" "n < 256" and "(word_of_nat m :: byte) = word_of_nat n"
  then have "unat (word_of_nat m :: byte) = unat (word_of_nat n :: byte)" by simp
  with b show "m = n" by (simp add: unat_of_nat)
qed

lemma hkdf_label_inj:
  assumes "hkdf_label l1 t1 c1 = Inr b" "hkdf_label l2 t2 c2 = Inr b"
  shows "l1 = l2 \<and> utf8 t1 = utf8 t2 \<and> c1 = c2"
proof -
  from assms have bounds: "l1 < 65536" "l2 < 65536" "6 + length (utf8 t1) < 256" "6 + length (utf8 t2) < 256"
      "length c1 < 256" "length c2 < 256"
    and eq: "to_big 2 (int l1) @ [word_of_nat (6 + length (utf8 t1))] @ utf8 ''tls13 '' @ utf8 t1
           @ [word_of_nat (length c1)] @ c1 =
        to_big 2 (int l2) @ [word_of_nat (6 + length (utf8 t2))] @ utf8 ''tls13 '' @ utf8 t2
           @ [word_of_nat (length c2)] @ c2"
    by (auto simp: hkdf_label_Inr_iff)
  have split: "a = b \<and> x = y \<and> s = t" if "a @ [x] @ c @ s = b @ [y] @ c @ t" "length a = length b"
    for a b c s t :: bytes and x y
    using that by simp
  have big: "to_big 2 (int l1) = to_big 2 (int l2)"
    and w: "(word_of_nat (6 + length (utf8 t1)) :: byte) = word_of_nat (6 + length (utf8 t2))"
    and rest: "utf8 t1 @ [word_of_nat (length c1)] @ c1 = utf8 t2 @ [word_of_nat (length c2)] @ c2"
    using split [OF eq] by (simp_all only: length_to_big)
  have "length (utf8 t1) = length (utf8 t2)"
    using word_of_nat_byte_inj [OF bounds(3,4) w] by simp
  with rest have "utf8 t1 = utf8 t2" "c1 = c2" by simp_all
  moreover have "int l1 = int l2"
  proof -
    have inv: "from_big (to_big 2 (int l)) = int l" if "l < 65536" for l
      using that by (intro from_big_to_big) simp_all
    show ?thesis using inv [OF bounds(1)] inv [OF bounds(2)] big by metis
  qed
  ultimately show ?thesis by simp
qed

section \<open>The binder is total and has the length of the hash\<close>

definition binder_base :: "hash_alg \<Rightarrow> bytes \<Rightarrow> bytes" where
  "binder_base h tr = hmac h (zeros (digest_size h))
     (to_big 2 (int (digest_size h)) @ [22] @ utf8 ''tls13 attestation base''
        @ [word_of_nat (digest_size h)] @ digest h tr @ [1])"

definition binder_value :: "hash_alg \<Rightarrow> bytes \<Rightarrow> bytes \<Rightarrow> bytes" where
  "binder_value h tr spki = hmac h (binder_base h tr)
     (to_big 2 (int (digest_size h)) @ [17] @ utf8 ''tls13 attestation''
        @ [word_of_nat (digest_size h)] @ digest h spki @ [1])"

lemma utf8_append: "utf8 (a @ b) = utf8 a @ utf8 b"
  by (simp add: utf8_def)

lemma utf8_labels:
  "utf8 ''tls13 attestation base'' = utf8 ''tls13 '' @ utf8 ''attestation base''"
  "utf8 ''tls13 attestation'' = utf8 ''tls13 '' @ utf8 ''attestation''"
  by (simp_all flip: utf8_append)

lemma expand_label_one_block:
  assumes H: "HASHES hn = Inr h" and "6 + length (utf8 label) < 256"
  shows "hkdf_expand_label secret label (digest h x) (digest_size h) hn =
     Inr (hmac h secret (to_big 2 (int (digest_size h)) @ [word_of_nat (6 + length (utf8 label))]
        @ utf8 ''tls13 '' @ utf8 label @ [word_of_nat (digest_size h)] @ digest h x @ [1]))"
proof -
  note fn = HASHES_hash_fn [OF H]
  have "hkdf_label (digest_size h) label (digest h x) =
     Inr (to_big 2 (int (digest_size h)) @ [word_of_nat (6 + length (utf8 label))]
        @ utf8 ''tls13 '' @ utf8 label @ [word_of_nat (digest_size h)] @ digest h x)"
    using assms hash_fn.digest_size_64 [OF fn] by (simp add: hkdf_label_Inr_iff hash_fn.length_digest [OF fn])
  then show ?thesis by (simp add: hkdf_expand_label_def hkdf_expand_one_block [OF H])
qed

lemma attest_base_value:
  assumes H: "HASHES hn = Inr h"
  shows "attest_base tr hn = Inr (binder_base h tr)"
proof -
  have "length (utf8 ''attestation base'') = 16" by (simp add: length_utf8_ascii is_ascii_def)
  then show ?thesis
    by (simp add: attest_base_def transcript_hash_def H Let_def expand_label_one_block [OF H]
        binder_base_def utf8_labels)
qed

lemma server_binder_value:
  assumes H: "HASHES hn = Inr h"
  shows "server_binder tr spki hn = Inr (binder_value h tr spki)"
proof -
  have "length (utf8 ''attestation'') = 11" by (simp add: length_utf8_ascii is_ascii_def)
  then show ?thesis
    by (simp add: server_binder_def attest_base_value [OF H] H Let_def expand_label_one_block [OF H]
        binder_value_def utf8_labels)
qed

lemma length_binder_value: "hash_fn h \<Longrightarrow> length (binder_value h tr spki) = digest_size h"
  by (simp add: binder_value_def hash_fn.length_hmac)

lemma into_report_data_Inr_iff [res_iff]:
  "into_report_data b = Inr rd \<longleftrightarrow> length b \<le> 64 \<and> rd = b @ zeros (64 - length b)"
  by (auto simp: into_report_data_def res_iff)

lemma into_report_data_binder:
  "hash_fn h \<Longrightarrow> into_report_data (binder_value h tr spki)
     = Inr (binder_value h tr spki @ zeros (64 - digest_size h))"
  by (simp add: into_report_data_Inr_iff length_binder_value hash_fn.digest_size_64)

section \<open>The guest-side copy computes the same\<close>

lemma stdlib_loop:
  "map_sum id snd (foldl (stdlib_step h prk info) st is) = rbind st (\<lambda>(t, okm). hkdf_loop h prk info is t okm)"
proof (induction "is" arbitrary: st)
  case Nil
  then show ?case by (cases st) auto
next
  case (Cons i "is")
  have "map_sum id snd (foldl (stdlib_step h prk info) st (i # is))
      = rbind (stdlib_step h prk info st i) (\<lambda>(t, okm). hkdf_loop h prk info is t okm)"
    by (simp only: foldl_Cons Cons.IH)
  also have "\<dots> = rbind st (\<lambda>(t, okm). hkdf_loop h prk info (i # is) t okm)"
  proof (cases st)
    case (Inr p)
    then show ?thesis by (cases p; cases "byte_of i") (simp_all add: stdlib_step_def Let_def)
  qed (simp add: stdlib_step_def)
  finally show ?case .
qed

lemma rbind_snd: "rbind m (\<lambda>(t, x). f x) = rbind (map_sum id snd m) f"
  by (cases m) (auto split: prod.split)

lemma stdlib_hkdf_expand_eq: "stdlib_hkdf_expand prk info len hn = hkdf_expand prk info len hn"
  unfolding stdlib_hkdf_expand_def hkdf_expand_def Let_def rbind_snd stdlib_loop by simp

lemma rbind_assoc: "rbind (rbind m f) g = rbind m (\<lambda>x. rbind (f x) g)"
  by (cases m) simp_all

lemma stdlib_hkdf_expand_label_eq:
  "stdlib_hkdf_expand_label secret label context len hn = hkdf_expand_label secret label context len hn"
  by (simp add: stdlib_hkdf_expand_label_def hkdf_expand_label_def hkdf_label_def Let_def rbind_assoc
      stdlib_hkdf_expand_eq)

section \<open>Binders clash only when the hash does\<close>

text \<open>
  The byte strings the program hands to the hash while it derives a binder: the transcript, the
  inner and outer HMAC inputs of the base, the key, and the inner and outer HMAC inputs of the
  binder.
\<close>

definition hmac_inner :: "hash_alg \<Rightarrow> bytes \<Rightarrow> bytes \<Rightarrow> bytes" where
  "hmac_inner h k m = map ((XOR) 0x36) (k @ zeros (block_size h - length k)) @ m"

definition hmac_outer :: "hash_alg \<Rightarrow> bytes \<Rightarrow> bytes \<Rightarrow> bytes" where
  "hmac_outer h k m = map ((XOR) 0x5c) (k @ zeros (block_size h - length k)) @ digest h (hmac_inner h k m)"

definition binder_hash_inputs :: "hash_alg \<Rightarrow> bytes \<Rightarrow> bytes \<Rightarrow> bytes list" where
  "binder_hash_inputs h tr spki =
     (let z = zeros (digest_size h); b = binder_base h tr;
          lb = to_big 2 (int (digest_size h)) @ [22] @ utf8 ''tls13 attestation base'' @ [word_of_nat (digest_size h)] @ digest h tr @ [1];
          la = to_big 2 (int (digest_size h)) @ [17] @ utf8 ''tls13 attestation'' @ [word_of_nat (digest_size h)] @ digest h spki @ [1]
      in [tr, hmac_inner h z lb, hmac_outer h z lb, spki, hmac_inner h b la, hmac_outer h b la])"

definition hash_collision :: "hash_alg \<Rightarrow> bytes list \<Rightarrow> bytes list \<Rightarrow> bool" where
  "hash_collision h xs ys = list_ex (\<lambda>(x, y). x \<noteq> y \<and> digest h x = digest h y) (zip xs ys)"

lemma hmac_eq_outer: "length k \<le> block_size h \<Longrightarrow> hmac h k m = digest h (hmac_outer h k m)"
  by (simp add: hmac_def hmac_outer_def hmac_inner_def Let_def)

lemma map_xor_inj: "map ((XOR) c) xs = map ((XOR) c) ys \<longleftrightarrow> xs = (ys :: bytes)"
proof
  assume "map ((XOR) c) xs = map ((XOR) c) ys"
  then have "map ((XOR) c) (map ((XOR) c) xs) = map ((XOR) c) (map ((XOR) c) ys)" by simp
  then show "xs = ys" by (simp add: xor.assoc [symmetric] map_idI)
qed simp

lemma hmac_clash:
  assumes "hmac h k m = hmac h k' m'" "length k = length k'" "length k \<le> block_size h"
    and no1: "hmac_outer h k m = hmac_outer h k' m' \<or> digest h (hmac_outer h k m) \<noteq> digest h (hmac_outer h k' m')"
    and no2: "hmac_inner h k m = hmac_inner h k' m' \<or> digest h (hmac_inner h k m) \<noteq> digest h (hmac_inner h k' m')"
  shows "k = k' \<and> m = m'"
proof -
  from assms have o: "hmac_outer h k m = hmac_outer h k' m'" by (simp add: hmac_eq_outer)
  then have "digest h (hmac_inner h k m) = digest h (hmac_inner h k' m')"
    using assms(2) by (simp add: hmac_outer_def)
  with no2 have "hmac_inner h k m = hmac_inner h k' m'" by blast
  then show ?thesis using assms(2) by (simp add: hmac_inner_def map_xor_inj)
qed

lemma binder_clash:
  assumes fn: "hash_fn h" and eq: "binder_value h tr spki = binder_value h tr' spki'"
    and no: "\<not> hash_collision h (binder_hash_inputs h tr spki) (binder_hash_inputs h tr' spki')"
  shows "tr = tr' \<and> spki = spki'"
proof -
  note len = hash_fn.length_digest [OF fn] hash_fn.length_hmac [OF fn]
  have blk: "digest_size h \<le> block_size h" using fn by (rule hash_fn.digest_size_block)
  note no = no [unfolded hash_collision_def binder_hash_inputs_def Let_def, simplified]
  have lb: "length (binder_base h t) = digest_size h" for t by (simp add: binder_base_def len)
  have "binder_base h tr = binder_base h tr' \<and>
      to_big 2 (int (digest_size h)) @ [17] @ utf8 ''tls13 attestation'' @ [word_of_nat (digest_size h)] @ digest h spki @ [1]
      = to_big 2 (int (digest_size h)) @ [17] @ utf8 ''tls13 attestation'' @ [word_of_nat (digest_size h)] @ digest h spki' @ [1]"
    by (rule hmac_clash [where h = h]) (use eq no blk in \<open>auto simp: binder_value_def lb\<close>)
  then have base: "hmac h (zeros (digest_size h)) (to_big 2 (int (digest_size h)) @ [22] @ utf8 ''tls13 attestation base''
        @ [word_of_nat (digest_size h)] @ digest h tr @ [1]) =
      hmac h (zeros (digest_size h)) (to_big 2 (int (digest_size h)) @ [22] @ utf8 ''tls13 attestation base''
        @ [word_of_nat (digest_size h)] @ digest h tr' @ [1])"
    and "digest h spki = digest h spki'"
    by (simp_all add: binder_base_def)
  with no have "spki = spki'" by blast
  have "zeros (digest_size h) = zeros (digest_size h) \<and>
      to_big 2 (int (digest_size h)) @ [22] @ utf8 ''tls13 attestation base'' @ [word_of_nat (digest_size h)] @ digest h tr @ [1]
      = to_big 2 (int (digest_size h)) @ [22] @ utf8 ''tls13 attestation base'' @ [word_of_nat (digest_size h)] @ digest h tr' @ [1]"
    by (rule hmac_clash [where h = h, OF base]) (use no blk in auto)
  then have "digest h tr = digest h tr'" by simp
  with no have "tr = tr'" by blast
  with \<open>spki = spki'\<close> show ?thesis by simp
qed

section \<open>Properties\<close>

text \<open>C22: \<open>hkdf_expand\<close> is RFC 5869's HKDF-Expand: for a known hash it returns the first \<open>len\<close> bytes
  of \<open>T(1) || T(2) || ...\<close>, exactly \<open>len\<close> of them, whenever \<open>len\<close> is at most 255 blocks, and raises
  \<open>ValueError\<close> (from \<open>bytes([256])\<close>) on any longer request.\<close>

theorem hkdf_expand_rfc5869:
  assumes "HASHES hn = Inr h"
  shows "hkdf_expand prk info len hn =
      (if len \<le> 255 * digest_size h
       then Inr (take len (hkdf_okm h prk info ((len + digest_size h - 1) div digest_size h)))
       else Inl ValueError)
    \<and> length (take len (hkdf_okm h prk info ((len + digest_size h - 1) div digest_size h))) = len"
  using hkdf_expand_ok [OF assms] hkdf_expand_too_long [OF assms]
    hash_fn.blocks_cover [OF HASHES_hash_fn [OF assms], of len]
  by (simp add: hash_fn.length_hkdf_okm [OF HASHES_hash_fn [OF assms]])

theorem hkdf_expand_rfc5869_witness:
  "hkdf_expand [1] [2] 100 ''sha384'' = Inr (take 100 (hkdf_okm sha384_alg [1] [2] 3))
    \<and> hkdf_expand [1] [2] 12241 ''sha384'' = Inl ValueError"
  using hkdf_expand_rfc5869 [OF HASHES_known(2), of "[1]" "[2]" 100]
    hkdf_expand_rfc5869 [OF HASHES_known(2), of "[1]" "[2]" 12241] by simp

text \<open>C33: The server binder is total on known hashes: every transcript and key give a value of exactly
  \<open>Hash.length\<close> bytes, the client binder of the same inputs is the same value (the draft's label does not
  separate the roles), and it embeds into REPORT_DATA left-justified and zero-padded to 64 bytes. An
  unknown hash name is a \<open>KeyError\<close>.\<close>

theorem binder_total:
  "(case HASHES hn of
      Inl e \<Rightarrow> server_binder tr spki hn = Inl (KeyError hn)
    | Inr h \<Rightarrow> (\<exists>b rd. server_binder tr spki hn = Inr b \<and> client_binder tr spki hn = Inr b
        \<and> length b = digest_size h \<and> into_report_data b = Inr rd \<and> length rd = 64
        \<and> take (digest_size h) rd = b \<and> drop (digest_size h) rd = zeros (64 - digest_size h)))"
proof (cases "HASHES hn")
  case (Inl e)
  then have "e = KeyError hn" by (simp add: HASHES_def split: if_splits)
  then show ?thesis by (simp add: server_binder_def Inl)
next
  case (Inr h)
  have fn: "hash_fn h" using Inr by (rule HASHES_hash_fn)
  have "client_binder tr spki hn = server_binder tr spki hn"
    by (simp add: client_binder_def server_binder_def)
  then show ?thesis
    using hash_fn.digest_size_64 [OF fn] length_binder_value [OF fn, of tr spki]
    by (simp add: Inr server_binder_value [OF Inr] into_report_data_binder [OF fn])
qed

text \<open>The guest-side copy in \<open>handshake_stdlib.py\<close> derives the same binder as \<open>binder.py\<close> for every
  transcript, key and hash name, errors included, and its inline padding is \<open>into_report_data\<close>.\<close>

theorem stdlib_binder_agrees:
  "stdlib_server_binder tr spki hn = server_binder tr spki hn
   \<and> rbind (stdlib_server_binder tr spki hn) (\<lambda>b. Ok (stdlib_report_data b))
     = rbind (server_binder tr spki hn) into_report_data"
proof -
  have eq: "stdlib_server_binder tr spki hn = server_binder tr spki hn"
    by (cases "HASHES hn") (simp_all add: stdlib_server_binder_def server_binder_def attest_base_def
        transcript_hash_def Let_def stdlib_hkdf_expand_label_eq)
  moreover have "rbind (server_binder tr spki hn) (\<lambda>b. Ok (stdlib_report_data b))
     = rbind (server_binder tr spki hn) into_report_data"
  proof (cases "HASHES hn")
    case (Inl e)
    then show ?thesis by (simp add: server_binder_def)
  next
    case (Inr h)
    have fn: "hash_fn h" using Inr by (rule HASHES_hash_fn)
    show ?thesis
      by (simp add: server_binder_value [OF Inr] into_report_data_binder [OF fn] stdlib_report_data_def
          length_binder_value [OF fn])
  qed
  ultimately show ?thesis by simp
qed

text \<open>The encoding of the HkdfLabel is unambiguous: two calls that succeed with the same bytes had
  the same length, the same label and the same context. So the base and the binder, whose labels
  differ, never share an HKDF input.\<close>

theorem hkdf_label_unambiguous:
  assumes "hkdf_label l1 t1 c1 = Inr b" and "hkdf_label l2 t2 c2 = Inr b"
  shows "l1 = l2 \<and> utf8 t1 = utf8 t2 \<and> c1 = c2"
  using assms by (rule hkdf_label_inj)

theorem hkdf_label_unambiguous_witness:
  "\<exists>b. hkdf_label 48 ''attestation'' [1, 2] = Inr b
     \<and> (48 :: nat) = 48 \<and> utf8 ''attestation'' = utf8 ''attestation'' \<and> [1, 2 :: byte] = [1, 2]"
proof -
  have "length (utf8 ''attestation'') = 11" by (simp add: length_utf8_ascii is_ascii_def)
  then obtain b where b: "hkdf_label 48 ''attestation'' [1, 2] = Inr b"
    by (simp add: hkdf_label_Inr_iff)
  then show ?thesis using hkdf_label_unambiguous [OF b b] by blast
qed

text \<open>A binder identifies its transcript and key up to collisions of the hash: if two derivations
  with the same hash return the same binder, then the transcripts and the keys are equal, or some pair of
  corresponding hash inputs of the two derivations (the transcript, the key, the inner and outer HMAC
  inputs) is a collision.\<close>

theorem binder_collision_reduction:
  assumes "HASHES hn = Inr h"
    and "server_binder tr spki hn = Inr b" and "server_binder tr' spki' hn = Inr b"
  shows "(tr = tr' \<and> spki = spki')
    \<or> hash_collision h (binder_hash_inputs h tr spki) (binder_hash_inputs h tr' spki')"
  using assms binder_clash [OF HASHES_hash_fn [OF assms(1)], of tr spki tr' spki']
  by (auto simp: server_binder_value [OF assms(1)])

theorem binder_collision_reduction_witness:
  "server_binder [1, 2] [3] ''sha256'' = Inr (binder_value sha256_alg [1, 2] [3])
    \<and> (([1, 2 :: byte] = [1, 2] \<and> [3 :: byte] = [3])
      \<or> hash_collision sha256_alg (binder_hash_inputs sha256_alg [1, 2] [3]) (binder_hash_inputs sha256_alg [1, 2] [3]))"
  using binder_collision_reduction [OF HASHES_known(1), of "[1, 2]" "[3]" "binder_value sha256_alg [1, 2] [3]" "[1, 2]" "[3]"]
  by (simp add: server_binder_value [OF HASHES_known(1)])

end
