(* ===== verification/Handshake.thy ===== *)
theory Handshake
  imports Binder
begin

text \<open>
  The capture of the ClientHello...ServerHello transcript: \<open>early-attestation/handshake.py\<close> and
  its guest-side copy \<open>handshake_stdlib.py\<close>. The record layer is parsed the way the code parses
  it; the specification side has TLS records as a datatype with their wire encoding, and the
  lemmas show that the parser recovers the handshake stream whatever its fragmentation. The two
  TLS endpoints (OpenSSL behind \<open>ssl.MemoryBIO\<close>) are a parameter of the capture loop.
\<close>

section \<open>The record layer\<close>

text \<open>
  The loop over the records of a flight: \<open>i\<close> is the position of the next record header, \<open>buf\<close>
  the handshake bytes so far. A fragment that the flight cuts short is taken as far as it goes.
\<close>

function hs_loop :: "bytes \<Rightarrow> nat \<Rightarrow> bytes \<Rightarrow> bytes" where
  "hs_loop flight i buf =
     (if i + 5 \<le> length flight then
        let ctype = flight ! i;
            rlen = nat (from_big (slice flight (i + 3) (i + 5)));
            frag = slice flight (i + 5) (i + 5 + rlen)
        in hs_loop flight (i + 5 + rlen) (if ctype = 22 then buf @ frag else buf)
      else buf)"
  by pat_completeness auto
termination
  by (relation "measure (\<lambda>(flight, i, buf). length flight - i)") auto

declare hs_loop.simps [simp del]

definition extract_first_handshake_msg :: "bytes \<Rightarrow> int \<Rightarrow> bytes option" where
  "extract_first_handshake_msg flight want_hs_type =
     (let buf = hs_loop flight 0 [] in
      if length buf < 4 then None
      else let hs_type = uint (buf ! 0); hlen = nat (from_big (slice buf 1 4)) in
        if hs_type \<noteq> want_hs_type then None else Some (take (4 + hlen) buf))"

text \<open>The guest-side copy: one conditional expression per record, one test at the end.\<close>

function stdlib_hs_loop :: "bytes \<Rightarrow> nat \<Rightarrow> bytes \<Rightarrow> bytes" where
  "stdlib_hs_loop flight i buf =
     (if i + 5 \<le> length flight then
        let ctype = flight ! i; rlen = nat (from_big (slice flight (i + 3) (i + 5)))
        in stdlib_hs_loop flight (i + 5 + rlen)
             (buf @ (if ctype = 22 then slice flight (i + 5) (i + 5 + rlen) else []))
      else buf)"
  by pat_completeness auto
termination
  by (relation "measure (\<lambda>(flight, i, buf). length flight - i)") auto

declare stdlib_hs_loop.simps [simp del]

definition first_hs_msg :: "bytes \<Rightarrow> int \<Rightarrow> bytes option" where
  "first_hs_msg flight want =
     (let buf = stdlib_hs_loop flight 0 [] in
      if length buf < 4 \<or> uint (buf ! 0) \<noteq> want then None
      else Some (take (4 + nat (from_big (slice buf 1 4))) buf))"

section \<open>The capture loop\<close>

text \<open>
  An endpoint of the in-memory handshake: \<open>ep_step s d\<close> hands it the bytes \<open>d\<close> of its peer,
  lets \<open>do_handshake\<close> run until it wants to read (or raises another error) and takes what it
  wrote; \<open>ep_cipher\<close> is the negotiated suite, if there is one yet.
\<close>

record 's endpoint =
  ep_step :: "'s \<Rightarrow> bytes \<Rightarrow> ('s \<times> bytes) res"
  ep_cipher :: "'s \<Rightarrow> string option"

text \<open>\<open>SUITE_HASH.get(suite, "sha384")\<close>.\<close>

definition suite_hash :: "string \<Rightarrow> string" where
  "suite_hash suite = (case map_of
     [(''TLS_AES_256_GCM_SHA384'', ''sha384''), (''TLS_CHACHA20_POLY1305_SHA256'', ''sha256''),
      (''TLS_AES_128_GCM_SHA256'', ''sha256'')] suite of None \<Rightarrow> ''sha384'' | Some hn \<Rightarrow> hn)"

text \<open>At most \<open>k\<close> rounds: client, server, stop when both have a cipher. \<open>d\<close> is what the server
  wrote last, \<open>cf\<close> and \<open>sf\<close> the two flights so far.\<close>

fun drive :: "'c endpoint \<Rightarrow> 's endpoint \<Rightarrow> nat \<Rightarrow> 'c \<Rightarrow> 's \<Rightarrow> bytes \<Rightarrow> bytes \<Rightarrow> bytes
    \<Rightarrow> ('c \<times> 's \<times> bytes \<times> bytes) res" where
  "drive C S 0 c s d cf sf = Ok (c, s, cf, sf)"
| "drive C S (Suc k) c s d cf sf =
     rbind (ep_step C c d) (\<lambda>(c', dc). rbind (ep_step S s dc) (\<lambda>(s', ds).
       if ep_cipher C c' \<noteq> None \<and> ep_cipher S s' \<noteq> None then Ok (c', s', cf @ dc, sf @ ds)
       else drive C S k c' s' ds (cf @ dc) (sf @ ds)))"

text \<open>Truth value of a result that is \<open>None\<close> or bytes.\<close>

definition truthy :: "bytes option \<Rightarrow> bool" where
  "truthy x = (case x of None \<Rightarrow> False | Some b \<Rightarrow> b \<noteq> [])"

definition do_handshake_capture :: "'c endpoint \<Rightarrow> 's endpoint \<Rightarrow> 'c \<Rightarrow> 's \<Rightarrow> bytes \<Rightarrow> (bytes \<times> bytes \<times> string \<times> string) res" where
  "do_handshake_capture C S c s spki_der =
     rbind (drive C S 20 c s [] [] []) (\<lambda>(c', s', client_flight, server_flight).
     rbind (of_option TypeError (ep_cipher S s')) (\<lambda>suite.
     let hn = suite_hash suite;
         ch = extract_first_handshake_msg client_flight 1;
         sh = extract_first_handshake_msg server_flight 2
     in rbind (rassert (truthy ch \<and> truthy sh) AssertionError) (\<lambda>_.
          Ok (the ch @ the sh, spki_der, hn, suite))))"

definition stdlib_capture :: "'c endpoint \<Rightarrow> 's endpoint \<Rightarrow> 'c \<Rightarrow> 's \<Rightarrow> (bytes \<times> string \<times> string) res" where
  "stdlib_capture C S c s =
     rbind (drive C S 20 c s [] [] []) (\<lambda>(c', s', cflight, sflight).
     rbind (of_option TypeError (ep_cipher S s')) (\<lambda>suite.
     let hn = suite_hash suite; ch = first_hs_msg cflight 1; sh = first_hs_msg sflight 2
     in rbind (rassert (truthy ch \<and> truthy sh) AssertionError) (\<lambda>_. Ok (the ch @ the sh, hn, suite))))"

section \<open>TLS records and their wire format\<close>

record tls_record =
  ctype :: byte
  version :: "byte \<times> byte"
  fragment :: bytes

definition wf_record :: "tls_record \<Rightarrow> bool" where
  "wf_record r \<longleftrightarrow> length (fragment r) < 65536"

definition record_wire :: "tls_record \<Rightarrow> bytes" where
  "record_wire r = [ctype r, fst (version r), snd (version r)]
     @ to_big 2 (int (length (fragment r))) @ fragment r"

definition handshake_stream :: "tls_record list \<Rightarrow> bytes" where
  "handshake_stream rs = concat (map fragment (filter (\<lambda>r. ctype r = 22) rs))"

text \<open>A handshake message: type, 24-bit length, body.\<close>

definition hs_message :: "byte \<Rightarrow> bytes \<Rightarrow> bytes" where
  "hs_message t body = t # to_big 3 (int (length body)) @ body"

lemma length_record_wire: "length (record_wire r) = 5 + length (fragment r)"
  by (simp add: record_wire_def)

lemma record_wire_parts:
  assumes "wf_record r"
  shows "record_wire r ! 0 = ctype r"
    and "nat (from_big (slice (record_wire r @ rest) 3 5)) = length (fragment r)"
    and "slice (record_wire r @ rest) 5 (5 + length (fragment r)) = fragment r"
proof -
  let ?h = "[ctype r, fst (version r), snd (version r)]"
  have l2: "length (to_big 2 (int (length (fragment r)))) = 2" by simp
  show "record_wire r ! 0 = ctype r" by (simp add: record_wire_def)
  have "slice (record_wire r @ rest) 3 5 = to_big 2 (int (length (fragment r)))"
    by (simp add: slice_def record_wire_def)
  then show "nat (from_big (slice (record_wire r @ rest) 3 5)) = length (fragment r)"
    using assms by (simp add: wf_record_def from_big_to_big)
  have "drop 5 (record_wire r @ rest) = fragment r @ rest"
    by (simp add: record_wire_def)
  then show "slice (record_wire r @ rest) 5 (5 + length (fragment r)) = fragment r"
    by (simp add: slice_def)
qed

lemma slice_drop: "slice xs (i + a) (i + b) = slice (drop i xs) a b"
  by (simp add: slice_def add.commute)

lemma hs_loop_record:
  assumes "wf_record r" "drop i flight = record_wire r @ rest"
  shows "hs_loop flight i buf =
     hs_loop flight (i + length (record_wire r)) (if ctype r = 22 then buf @ fragment r else buf)"
proof -
  have len: "i + 5 \<le> length flight"
    using assms(2) length_drop [of i flight] by (simp add: length_record_wire)
  have nth: "flight ! i = ctype r"
  proof -
    have "flight ! i = drop i flight ! 0" using len by simp
    also have "\<dots> = ctype r"
      using assms(2) record_wire_parts(1) [OF assms(1)] by (simp add: nth_append length_record_wire)
    finally show ?thesis .
  qed
  note parts = record_wire_parts(2,3) [OF assms(1), of rest]
  have "nat (from_big (slice flight (i + 3) (i + 5))) = length (fragment r)"
    unfolding slice_drop assms(2) by (rule parts(1))
  moreover have "slice flight (i + 5) (i + (5 + length (fragment r))) = fragment r"
    unfolding slice_drop assms(2) by (rule parts(2))
  ultimately show ?thesis
    by (subst hs_loop.simps) (simp add: len nth Let_def length_record_wire add.assoc)
qed

text \<open>The parser recovers the handshake stream of any sequence of records.\<close>

lemma hs_loop_records:
  assumes "\<forall>r \<in> set rs. wf_record r" "drop i flight = concat (map record_wire rs)"
  shows "hs_loop flight i buf = buf @ handshake_stream rs"
  using assms
proof (induction rs arbitrary: i buf)
  case Nil
  then have "length flight \<le> i" by simp
  then show ?case by (subst hs_loop.simps) (simp add: handshake_stream_def)
next
  case (Cons r rs)
  have d: "drop i flight = record_wire r @ concat (map record_wire rs)" using Cons.prems(2) by simp
  have "drop (i + length (record_wire r)) flight = concat (map record_wire rs)"
    using d by (metis add.commute append_eq_conv_conj drop_drop)
  with Cons.prems(1) have "hs_loop flight (i + length (record_wire r)) b = b @ handshake_stream rs" for b
    by (intro Cons.IH) simp_all
  with Cons.prems(1) show ?case
    by (simp add: hs_loop_record [OF _ d] handshake_stream_def)
qed

lemma hs_message_parts:
  assumes "length body < 2 ^ 24"
  shows "\<not> length (hs_message t body @ rest) < 4"
    and "(hs_message t body @ rest) ! 0 = t"
    and "nat (from_big (slice (hs_message t body @ rest) 1 4)) = length body"
    and "take (4 + length body) (hs_message t body @ rest) = hs_message t body"
proof -
  have "slice (hs_message t body @ rest) 1 4 = to_big 3 (int (length body))"
    by (simp add: slice_def hs_message_def)
  then show "nat (from_big (slice (hs_message t body @ rest) 1 4)) = length body"
    using assms by (simp add: from_big_to_big)
  have "4 + length body = length (hs_message t body)" by (simp add: hs_message_def)
  then show "take (4 + length body) (hs_message t body @ rest) = hs_message t body"
    by (simp only: append_eq_conv_conj) simp
qed (simp_all add: hs_message_def)

lemma stdlib_hs_loop_eq: "stdlib_hs_loop flight i buf = hs_loop flight i buf"
proof (induction flight i buf rule: hs_loop.induct)
  case (1 flight i buf)
  show ?case
  proof (cases "i + 5 \<le> length flight")
    case True
    show ?thesis
      using "1.IH" [OF True refl refl refl] True
      by (cases "flight ! i = 22")
        (simp_all add: stdlib_hs_loop.simps [of flight i buf] hs_loop.simps [of flight i buf] Let_def)
  qed (simp add: stdlib_hs_loop.simps [of flight i buf] hs_loop.simps [of flight i buf])
qed

lemma first_hs_msg_eq: "first_hs_msg flight want = extract_first_handshake_msg flight want"
  by (simp add: first_hs_msg_def extract_first_handshake_msg_def stdlib_hs_loop_eq Let_def)

lemma extract_Some:
  assumes "extract_first_handshake_msg flight t = Some m"
  shows "4 \<le> length m" "uint (m ! 0) = t"
  using assms by (auto simp: extract_first_handshake_msg_def Let_def split: if_splits)

section \<open>Properties of the capture\<close>

text \<open>C16: Whatever record boundaries a peer chooses, and whatever other records (ChangeCipherSpec,
  application data) it interleaves, \<open>extract_first_handshake_msg\<close> returns exactly the first
  handshake message of the flight when that message has the wanted type.\<close>

theorem extract_reassembles_first_message:
  assumes "\<forall>r \<in> set rs. wf_record r"
    and "handshake_stream rs = hs_message t body @ rest"
    and "length body < 2 ^ 24"
  shows "extract_first_handshake_msg (concat (map record_wire rs)) (uint t) = Some (hs_message t body)"
proof -
  have "hs_loop (concat (map record_wire rs)) 0 [] = hs_message t body @ rest"
    using assms(1,2) by (simp add: hs_loop_records)
  then show ?thesis
    using hs_message_parts [OF assms(3), of t rest]
    by (simp add: extract_first_handshake_msg_def Let_def)
qed

theorem extract_reassembles_first_message_witness:
  "extract_first_handshake_msg
     (concat (map record_wire
       [\<lparr>ctype = 20, version = (3, 3), fragment = [1]\<rparr>, \<lparr>ctype = 22, version = (3, 3), fragment = [2, 0]\<rparr>,
        \<lparr>ctype = 22, version = (3, 3), fragment = [0, 3, 7, 8, 9, 11]\<rparr>])) 2
   = Some [2, 0, 0, 3, 7, 8, 9]"
proof -
  let ?rs = "[\<lparr>ctype = 20, version = (3, 3), fragment = [1]\<rparr>, \<lparr>ctype = 22, version = (3, 3), fragment = [2, 0]\<rparr>,
        \<lparr>ctype = 22, version = (3, 3), fragment = [0, 3, 7, 8, 9, 11]\<rparr>]"
  have m: "hs_message 2 [7, 8, 9] = [2, 0, 0, 3, 7, 8, 9]"
    by (simp add: hs_message_def to_big_def numeral_3_eq_3)
  have "extract_first_handshake_msg (concat (map record_wire ?rs)) (uint (2 :: byte)) = Some (hs_message 2 [7, 8, 9])"
    by (rule extract_reassembles_first_message [where rest = "[11]"])
      (simp_all add: wf_record_def handshake_stream_def m)
  then show ?thesis by (simp add: m)
qed

text \<open>The guest-side copy of the capture (\<open>handshake_stdlib.py\<close>) and the host-side one
  (\<open>handshake.py\<close>) return the same transcript, hash and suite, and fail in the same cases,
  for every pair of endpoints.\<close>

theorem captures_agree:
  "stdlib_capture C S c s =
     rbind (do_handshake_capture C S c s spki) (\<lambda>(tr, sp, hn, suite). Ok (tr, hn, suite))"
proof (cases "drive C S 20 c s [] [] []")
  case (Inr p)
  then show ?thesis
    by (cases p; cases "ep_cipher S (fst (snd p))")
      (simp_all add: stdlib_capture_def do_handshake_capture_def first_hs_msg_eq Let_def rassert_def)
qed (simp add: stdlib_capture_def do_handshake_capture_def)

text \<open>A capture that returns, returns a ClientHello message (type 1) followed by a ServerHello
  message (type 2), each at least a full message header, and a hash name that \<open>binder.py\<close> knows:
  the binder of a captured handshake never fails on its hash.\<close>

theorem capture_shape:
  assumes "do_handshake_capture C S c s spki = Inr (tr, sp, hn, suite)"
  shows "\<exists>ch sh h. tr = ch @ sh \<and> 4 \<le> length ch \<and> 4 \<le> length sh \<and> uint (ch ! 0) = 1 \<and> uint (sh ! 0) = 2
    \<and> sp = spki \<and> HASHES hn = Inr h \<and> is_ok (server_binder tr sp hn)"
proof -
  from assms obtain cf sf ch sh where
      ch: "extract_first_handshake_msg cf 1 = Some ch" and sh: "extract_first_handshake_msg sf 2 = Some sh"
      and tr: "tr = ch @ sh" and sp: "sp = spki" and hn: "hn = suite_hash suite"
    by (auto simp: do_handshake_capture_def Let_def truthy_def res_iff split: option.splits)
  have "\<exists>h. HASHES hn = Inr h"
    by (simp add: hn suite_hash_def HASHES_def split: option.splits if_splits)
  then obtain h where h: "HASHES hn = Inr h" by blast
  then have "is_ok (server_binder tr sp hn)" by (simp add: server_binder_value)
  with extract_Some [OF ch] extract_Some [OF sh] tr sp h show ?thesis by blast
qed

text \<open>Two endpoints of one round: each writes one handshake record with an empty message.\<close>

definition demo_client :: "unit endpoint" where
  "demo_client = \<lparr>ep_step = (\<lambda>s d. Ok (s, [22, 3, 3, 0, 4, 1, 0, 0, 0])), ep_cipher = (\<lambda>s. Some ''TLS_AES_128_GCM_SHA256'')\<rparr>"

definition demo_server :: "unit endpoint" where
  "demo_server = \<lparr>ep_step = (\<lambda>s d. Ok (s, [22, 3, 3, 0, 4, 2, 0, 0, 0])), ep_cipher = (\<lambda>s. Some ''TLS_AES_128_GCM_SHA256'')\<rparr>"

lemma demo_capture:
  "do_handshake_capture demo_client demo_server () () [42]
     = Ok ([1, 0, 0, 0, 2, 0, 0, 0], [42], ''sha256'', ''TLS_AES_128_GCM_SHA256'')"
proof -
  have d: "drive demo_client demo_server 20 () () [] [] []
      = Ok ((), (), [22, 3, 3, 0, 4, 1, 0, 0, 0], [22, 3, 3, 0, 4, 2, 0, 0, 0])"
    using drive.simps(2) [of demo_client demo_server 19] by (simp add: demo_client_def demo_server_def)
  have m: "extract_first_handshake_msg [22, 3, 3, 0, 4, t, 0, 0, 0] (uint t) = Some [t, 0, 0, 0]" for t
  proof -
    have "hs_message t [] = [t, 0, 0, 0]" by (simp add: hs_message_def to_big_def numeral_3_eq_3)
    moreover have "concat (map record_wire [\<lparr>ctype = 22, version = (3, 3), fragment = [t, 0, 0, 0]\<rparr>]) = [22, 3, 3, 0, 4, t, 0, 0, 0]"
      by (simp add: record_wire_def to_big_def numeral_2_eq_2)
    ultimately show ?thesis
      using hs_loop_records [of "[\<lparr>ctype = 22, version = (3, 3), fragment = [t, 0, 0, 0]\<rparr>]" 0 _ "[]"]
        hs_message_parts [of "[]" t "[]"]
      by (simp add: extract_first_handshake_msg_def Let_def wf_record_def handshake_stream_def)
  qed
  have "ep_cipher demo_server () = Some ''TLS_AES_128_GCM_SHA256''" by (simp add: demo_server_def)
  then show ?thesis
    using m [of 1] m [of 2]
    by (simp add: do_handshake_capture_def d suite_hash_def truthy_def rassert_def)
qed

theorem capture_shape_witness:
  "is_ok (server_binder [1, 0, 0, 0, 2, 0, 0, 0] [42] ''sha256'')"
  using capture_shape [OF demo_capture] by blast

end
