(* ===== verification/SnpReport.thy ===== *)
theory SnpReport
  imports Prelude
begin

text \<open>
  The SEV-SNP ATTESTATION_REPORT: the four parsers of the repository (\<open>aws-vlek/dual_verify.py\<close>,
  \<open>aws-vlek/vlek_verify.py\<close>, \<open>gcp-cvm/gcp_verify.py\<close>, \<open>azure-cvm/azure_verify.py\<close>), the short one of
  \<open>early-attestation/verify.py\<close>, the KDS product name, and the mock firmware of
  \<open>early-attestation/poc_mock.py\<close> that writes reports. The lemmas say when a parser returns, what
  each field is in terms of the bytes, and that the parsers agree.
\<close>

section \<open>Fields\<close>

text \<open>\<open>{0: "VCEK", 1: "VLEK", 7: "none"}.get(k, k)\<close>.\<close>

datatype signing_key = VCEK | VLEK | NoneKey | KeyNumber int

definition signing_key_of :: "int \<Rightarrow> signing_key" where
  "signing_key_of flags = (let k = drop_bit 2 flags AND 7 in
     if k = 0 then VCEK else if k = 1 then VLEK else if k = 7 then NoneKey else KeyNumber k)"

text \<open>\<open>{0: "VCEK", 1: "VLEK"}.get(k)\<close>, the variant of \<open>verify_run.py\<close> and \<open>tacra_verify.py\<close>.\<close>

definition signing_key_opt :: "int \<Rightarrow> signing_key option" where
  "signing_key_opt flags = (let k = drop_bit 2 flags AND 7 in
     if k = 0 then Some VCEK else if k = 1 then Some VLEK else None)"

definition report_data_of :: "bytes \<Rightarrow> bytes" where "report_data_of b = slice b 0x50 0x90"
definition measurement_of :: "bytes \<Rightarrow> bytes" where "measurement_of b = slice b 0x90 0xC0"
definition host_data_of :: "bytes \<Rightarrow> bytes" where "host_data_of b = slice b 0xC0 0xE0"
definition report_id_of :: "bytes \<Rightarrow> bytes" where "report_id_of b = slice b 0x140 0x160"
definition chip_id_of :: "bytes \<Rightarrow> bytes" where "chip_id_of b = slice b 0x1A0 0x1E0"

text \<open>\<open>(tcb & 0xff, (tcb >> 8) & 0xff, (tcb >> 48) & 0xff, (tcb >> 56) & 0xff)\<close>: the boot
  loader, TEE, SNP and microcode levels.\<close>

type_synonym tcb = "int \<times> int \<times> int \<times> int"

definition tcb_parts :: "int \<Rightarrow> tcb" where
  "tcb_parts t = (t AND 0xff, drop_bit 8 t AND 0xff, drop_bit 48 t AND 0xff, drop_bit 56 t AND 0xff)"

section \<open>dual_verify.py\<close>

definition product :: "bytes \<Rightarrow> string res" where
  "product rep = rbind (unpack_le 4 rep 0) (\<lambda>ver.
     if ver < 3 then Ok ''Milan'' else
     rbind (byte_at rep 0x188) (\<lambda>fam. rbind (byte_at rep 0x189) (\<lambda>md.
       if fam = 0x19 \<and> md \<le> 0x0f then Ok ''Milan''
       else if fam = 0x19 \<and> 0x10 \<le> md \<and> md \<le> 0x1f then Ok ''Genoa''
       else if fam = 0x1a then Ok ''Turin''
       else Ok ''Milan'')))"

record dual_report =
  signing_key :: signing_key
  mask_chip_key :: int
  chip_id :: string
  chip_id_zero :: bool
  report_id :: string
  measurement :: string
  report_data :: string
  tcb :: tcb
  product_name :: string
  version :: int

definition parse :: "bytes \<Rightarrow> dual_report res" where
  "parse rep = rbind (unpack_le 4 rep 0x48) (\<lambda>flags. rbind (unpack_le 8 rep 0x180) (\<lambda>t.
     rbind (product rep) (\<lambda>prod. rbind (unpack_le 4 rep 0) (\<lambda>ver.
     Ok \<lparr>signing_key = signing_key_of flags,
         mask_chip_key = drop_bit 1 flags AND 1,
         chip_id = hex (chip_id_of rep),
         chip_id_zero = (chip_id_of rep = zeros 64),
         report_id = hex (report_id_of rep),
         measurement = hex (measurement_of rep),
         report_data = hex (report_data_of rep),
         tcb = tcb_parts t,
         product_name = prod,
         version = ver\<rparr>))))"

section \<open>vlek_verify.py\<close>

record flags_word =
  fl_raw :: int
  fl_author_key_en :: int
  fl_mask_chip_key :: int
  fl_signing_key :: signing_key

definition flags_of :: "int \<Rightarrow> flags_word" where
  "flags_of flags = \<lparr>fl_raw = flags, fl_author_key_en = flags AND 1,
     fl_mask_chip_key = drop_bit 1 flags AND 1, fl_signing_key = signing_key_of flags\<rparr>"

record vlek_report =
  v_version :: int
  v_guest_svn :: int
  v_policy :: int
  v_vmpl :: int
  v_sig_algo :: int
  v_current_tcb :: int
  v_platform_info :: int
  v_flags :: flags_word
  v_report_data :: string
  v_measurement :: string
  v_host_data :: string
  v_report_id :: string
  v_reported_tcb :: int
  v_chip_id :: string
  v_chip_id_zero :: bool
  v_signature_r :: string
  v_signature_s :: string

text \<open>Two adjacent fields read by one \<open>struct.unpack_from\<close> call: the call fails as a whole.\<close>

definition unpack2_le :: "nat \<Rightarrow> bytes \<Rightarrow> nat \<Rightarrow> (int \<times> int) res" where
  "unpack2_le k b off = (if off + 2 * k \<le> length b
     then Ok (from_little (slice b off (off + k)), from_little (slice b (off + k) (off + 2 * k)))
     else Err StructError)"

definition vlek_parse :: "bytes \<Rightarrow> vlek_report res" where
  "vlek_parse b = rbind (unpack2_le 4 b 0) (\<lambda>(ver, svn). rbind (unpack_le 8 b 8) (\<lambda>pol.
     rbind (unpack2_le 4 b 0x30) (\<lambda>(vm, algo). rbind (unpack2_le 8 b 0x38) (\<lambda>(ct, pinfo).
     rbind (unpack_le 4 b 0x48) (\<lambda>flags. rbind (unpack_le 8 b 0x180) (\<lambda>rt.
     Ok \<lparr>v_version = ver, v_guest_svn = svn, v_policy = pol, v_vmpl = vm, v_sig_algo = algo,
         v_current_tcb = ct, v_platform_info = pinfo, v_flags = flags_of flags,
         v_report_data = hex (report_data_of b), v_measurement = hex (measurement_of b),
         v_host_data = hex (host_data_of b), v_report_id = hex (report_id_of b),
         v_reported_tcb = rt, v_chip_id = hex (chip_id_of b), v_chip_id_zero = (chip_id_of b = zeros 64),
         v_signature_r = hex (rev (take 48 (slice b 0x2A0 (0x2A0 + 72)))),
         v_signature_s = hex (rev (take 48 (slice b (0x2A0 + 72) (0x2A0 + 144))))\<rparr>))))))"

section \<open>gcp_verify.py, azure_verify.py, early-attestation/verify.py\<close>

record gcp_report =
  g_version :: int
  g_policy :: int
  g_flags :: flags_word
  g_report_data :: string
  g_measurement :: string
  g_host_data :: string
  g_report_id :: string
  g_reported_tcb :: int
  g_chip_id :: string
  g_chip_id_zero :: bool

definition gcp_snp_parse :: "bytes \<Rightarrow> gcp_report res" where
  "gcp_snp_parse b = rbind (unpack_le 4 b 0) (\<lambda>ver. rbind (unpack_le 8 b 8) (\<lambda>pol.
     rbind (unpack_le 4 b 0x48) (\<lambda>flags. rbind (unpack_le 8 b 0x180) (\<lambda>rt.
     Ok \<lparr>g_version = ver, g_policy = pol, g_flags = flags_of flags,
         g_report_data = hex (report_data_of b), g_measurement = hex (measurement_of b),
         g_host_data = hex (host_data_of b), g_report_id = hex (report_id_of b),
         g_reported_tcb = rt, g_chip_id = hex (chip_id_of b), g_chip_id_zero = (chip_id_of b = zeros 64)\<rparr>))))"

text \<open>\<open>hex(n)\<close> for \<open>n >= 0\<close>.\<close>

fun hex_nat :: "nat \<Rightarrow> string" where
  "hex_nat n = (if n < 16 then [hex_digit n] else hex_nat (n div 16) @ [hex_digit (n mod 16)])"

declare hex_nat.simps [simp del]

definition py_hex :: "int \<Rightarrow> string" where
  "py_hex n = ''0x'' @ hex_nat (nat n)"

record azure_report =
  a_version :: int
  a_policy :: string
  a_flags :: flags_word
  a_report_data :: string
  a_measurement :: string
  a_host_data :: string
  a_report_id :: string
  a_reported_tcb :: int
  a_chip_id :: string
  a_chip_id_zero :: bool

definition azure_snp_parse :: "bytes \<Rightarrow> azure_report res" where
  "azure_snp_parse b = rbind (unpack_le 4 b 0x48) (\<lambda>flags. rbind (unpack_le 4 b 0) (\<lambda>ver.
     rbind (unpack_le 8 b 8) (\<lambda>pol. rbind (unpack_le 8 b 0x180) (\<lambda>rt.
     Ok \<lparr>a_version = ver, a_policy = py_hex pol, a_flags = flags_of flags,
         a_report_data = hex (report_data_of b), a_measurement = hex (measurement_of b),
         a_host_data = hex (host_data_of b), a_report_id = hex (report_id_of b),
         a_reported_tcb = rt, a_chip_id = hex (chip_id_of b), a_chip_id_zero = (chip_id_of b = zeros 64)\<rparr>))))"

record early_report =
  e_report_data :: bytes
  e_measurement :: string
  e_chip_id :: string
  e_report_id :: string

definition parse_report :: "bytes \<Rightarrow> early_report" where
  "parse_report rep = \<lparr>e_report_data = report_data_of rep, e_measurement = hex (measurement_of rep),
     e_chip_id = hex (chip_id_of rep), e_report_id = hex (report_id_of rep)\<rparr>"

section \<open>The signature fields\<close>

text \<open>\<open>R\<close> and \<open>S\<close> are little-endian integers; every verifier reads 48 bytes of each 72-byte
  field and checks them over the first \<open>0x2A0\<close> bytes.\<close>

definition sig_r :: "bytes \<Rightarrow> int" where
  "sig_r rep = from_little (slice rep 0x2A0 (0x2A0 + 48))"

definition sig_s :: "bytes \<Rightarrow> int" where
  "sig_s rep = from_little (slice rep (0x2A0 + 72) (0x2A0 + 120))"

definition signed_part :: "bytes \<Rightarrow> bytes" where
  "signed_part rep = take 0x2A0 rep"

section \<open>The mock firmware of poc_mock.py\<close>

text \<open>
  A chip: its identifier, its signature over bytes as the pair \<open>(r, s)\<close>, and the REPORT_ID it
  draws. \<open>n.to_bytes(48, "little")\<close> raises when \<open>n\<close> does not fit.
\<close>

record mock_chip =
  mc_chip_id :: bytes
  mc_sign :: "bytes \<Rightarrow> int \<times> int"

definition to_bytes_little :: "nat \<Rightarrow> int \<Rightarrow> bytes res" where
  "to_bytes_little k n = (if 0 \<le> n \<and> n < 256 ^ k then Ok (to_little k n)
     else Err (Raised ''OverflowError'' ''int too big to convert''))"

definition mock_body :: "bytes \<Rightarrow> bytes \<Rightarrow> bytes \<Rightarrow> bytes" where
  "mock_body chip rnd rd =
     put_slice (put_slice (put_slice (zeros 1184) 0x50 0x90 rd) 0x1A0 0x1E0 chip) 0x140 0x160 rnd"

definition sign_report :: "mock_chip \<Rightarrow> bytes \<Rightarrow> bytes \<Rightarrow> bytes res" where
  "sign_report c rnd rd =
     rbind (rassert (length rd = 64) AssertionError) (\<lambda>_.
     let rep = mock_body (mc_chip_id c) rnd rd; (r, s) = mc_sign c (take 0x2A0 rep) in
     rbind (to_bytes_little 48 r) (\<lambda>rb. let rep' = put_slice rep 0x2A0 (0x2A0 + 48) rb in
     rbind (to_bytes_little 48 s) (\<lambda>sb. Ok (put_slice rep' (0x2A0 + 72) (0x2A0 + 120) sb))))"

section \<open>Lemmas on the parsers\<close>

lemma unpack2_le_Inr_iff [res_iff]:
  "unpack2_le k b off = Inr p \<longleftrightarrow> off + 2 * k \<le> length b \<and>
     p = (from_little (slice b off (off + k)), from_little (slice b (off + k) (off + 2 * k)))"
  by (auto simp: unpack2_le_def)

lemma product_cases:
  "product rep = Inr p \<Longrightarrow> p = ''Milan'' \<or> p = ''Genoa'' \<or> p = ''Turin''"
  by (auto simp: product_def res_iff split: if_splits)

lemma parse_Inr_iff:
  "parse rep = Inr f \<longleftrightarrow> 0x188 \<le> length rep \<and> (\<exists>prod. product rep = Inr prod \<and>
     f = \<lparr>signing_key = signing_key_of (from_little (slice rep 0x48 0x4C)),
         mask_chip_key = drop_bit 1 (from_little (slice rep 0x48 0x4C)) AND 1,
         chip_id = hex (chip_id_of rep), chip_id_zero = (chip_id_of rep = zeros 64),
         report_id = hex (report_id_of rep), measurement = hex (measurement_of rep),
         report_data = hex (report_data_of rep), tcb = tcb_parts (from_little (slice rep 0x180 0x188)),
         product_name = prod, version = from_little (slice rep 0 4)\<rparr>)"
  by (auto simp: parse_def res_iff)

lemma product_ok_iff:
  "is_ok (product rep) \<longleftrightarrow> 4 \<le> length rep \<and> (from_little (slice rep 0 4) < 3 \<or> 0x18A \<le> length rep)"
  by (auto simp: product_def unpack_le_def byte_at_def)

lemma parse_ok_iff:
  "is_ok (parse rep) \<longleftrightarrow>
     0x188 \<le> length rep \<and> (from_little (slice rep 0 4) < 3 \<or> 0x18A \<le> length rep)"
proof -
  have "is_ok (parse rep) \<longleftrightarrow> (\<exists>f. parse rep = Inr f)"
    by (cases "parse rep") simp_all
  also have "\<dots> \<longleftrightarrow> 0x188 \<le> length rep \<and> (\<exists>p. product rep = Inr p)"
    unfolding parse_Inr_iff by blast
  also have "(\<exists>p. product rep = Inr p) \<longleftrightarrow> is_ok (product rep)"
    by (cases "product rep") simp_all
  finally show ?thesis by (auto simp: product_ok_iff)
qed

lemma parse_long: "1184 \<le> length rep \<Longrightarrow> \<exists>f. parse rep = Inr f"
proof -
  assume "1184 \<le> length rep"
  then have "is_ok (parse rep)" by (simp add: parse_ok_iff)
  then show ?thesis by (cases "parse rep") simp_all
qed

lemma from_little_shift: "i \<le> length b \<Longrightarrow> drop_bit (8 * i) (from_little b) = from_little (drop i b)"
proof (induction b arbitrary: i)
  case (Cons x xs)
  show ?case
  proof (cases i)
    case (Suc j)
    have "drop_bit (8 * i) (from_little (x # xs)) = drop_bit (8 * j) (drop_bit 8 (from_little (x # xs)))"
      by (simp add: Suc drop_bit_drop_bit algebra_simps)
    also have "drop_bit 8 (from_little (x # xs)) = from_little xs"
      using uint_byte_bounds [of x] by (simp add: drop_bit_eq_div)
    finally show ?thesis using Cons Suc by simp
  qed simp
qed simp

lemma from_little_low_byte: "b \<noteq> [] \<Longrightarrow> from_little b AND 0xff = uint (b ! 0)"
proof (cases b)
  case (Cons x xs)
  have "from_little b AND 0xff = take_bit 8 (from_little b)"
    using take_bit_eq_mask [of 8 "from_little b"] by (simp add: mask_eq_exp_minus_1)
  also have "\<dots> = uint x"
    using uint_byte_bounds [of x] by (simp add: Cons take_bit_eq_mod)
  finally show ?thesis by (simp add: Cons)
qed simp

lemma from_little_byte:
  "i < length b \<Longrightarrow> drop_bit (8 * i) (from_little b) AND 0xff = uint (b ! i)"
  by (simp add: from_little_shift from_little_low_byte)

lemma tcb_parts_bytes:
  assumes "length b = 8"
  shows "tcb_parts (from_little b) = (uint (b ! 0), uint (b ! 1), uint (b ! 6), uint (b ! 7))"
  using from_little_byte [of 0 b] from_little_byte [of 1 b] from_little_byte [of 6 b] from_little_byte [of 7 b] assms
  by (simp add: tcb_parts_def)

lemma nth_slice: "i + k < j \<Longrightarrow> j \<le> length b \<Longrightarrow> slice b i j ! k = b ! (i + k)"
  by (simp add: slice_def)

lemma signing_key_of_VLEK_iff: "signing_key_of f = VLEK \<longleftrightarrow> signing_key_opt f = Some VLEK"
  by (simp add: signing_key_of_def signing_key_opt_def Let_def)

lemma signing_key_of_VCEK_iff: "signing_key_of f = VCEK \<longleftrightarrow> signing_key_opt f = Some VCEK"
  by (simp add: signing_key_of_def signing_key_opt_def Let_def)

text \<open>A masked CHIP_ID is the one whose text is all \<open>0\<close> digits (the ledger's test) or whose
  bytes are 64 zeros (the parsers' test).\<close>

lemma hex_byte_zero_iff: "set (hex_byte x) = {CHR ''0''} \<longleftrightarrow> x = 0"
proof
  assume "set (hex_byte x) = {CHR ''0''}"
  then have "hex_byte x = hex_byte 0"
    by (auto simp: hex_byte_def hex_digit_def)
  then show "x = 0" by (rule hex_byte_inj)
qed (simp add: hex_byte_def hex_digit_def)

lemma hex_all_zero_iff: "b \<noteq> [] \<Longrightarrow> set (hex b) = {CHR ''0''} \<longleftrightarrow> b = zeros (length b)"
proof (induction b)
  case (Cons x xs)
  have h: "set (hex (x # xs)) = set (hex_byte x) \<union> set (hex xs)" by (simp add: hex_def)
  have ne: "set (hex_byte x) \<noteq> {}" by (simp add: hex_byte_def)
  have z: "x # xs = zeros (length (x # xs)) \<longleftrightarrow> x = 0 \<and> xs = zeros (length xs)"
    by (simp add: zeros_def)
  show ?case
  proof (cases xs)
    case Nil
    then show ?thesis by (simp add: hex_def hex_byte_zero_iff zeros_def)
  next
    case (Cons y ys)
    then have f: "xs \<noteq> []" by simp
    then have "set (hex xs) \<noteq> {}" by (simp add: Cons hex_def hex_byte_def)
    with ne have "set (hex (x # xs)) = {CHR ''0''} \<longleftrightarrow> set (hex_byte x) = {CHR ''0''} \<and> set (hex xs) = {CHR ''0''}"
      unfolding h Un_singleton_iff by (simp only: simp_thms)
    then show ?thesis unfolding z hex_byte_zero_iff Cons.IH [OF f] .
  qed
qed simp

section \<open>Lemmas on the mock firmware\<close>

lemma length_mock_body:
  "length rd = 64 \<Longrightarrow> length chip = 64 \<Longrightarrow> length rnd = 32 \<Longrightarrow> length (mock_body chip rnd rd) = 1184"
  by (simp add: mock_body_def length_put_slice)

lemma mock_body_fields:
  assumes "length rd = 64" "length chip = 64" "length rnd = 32"
  shows "report_data_of (mock_body chip rnd rd) = rd"
    and "chip_id_of (mock_body chip rnd rd) = chip"
    and "report_id_of (mock_body chip rnd rd) = rnd"
  using assms
  by (simp_all add: mock_body_def report_data_of_def chip_id_of_def report_id_of_def
      bytearray.get_put_same bytearray.get_put_disjoint bytearray.size_put)

lemma take_put_slice: "n \<le> i \<Longrightarrow> i \<le> length b \<Longrightarrow> take n (put_slice b i j x) = take n b"
  by (simp add: put_slice_def)

lemma sign_report_fields:
  assumes "sign_report c rnd rd = Inr rep" "length (mc_chip_id c) = 64" "length rnd = 32"
  shows "length rd = 64" "length rep = 1184" "report_data_of rep = rd" "chip_id_of rep = mc_chip_id c"
    "report_id_of rep = rnd" "(sig_r rep, sig_s rep) = mc_sign c (signed_part rep)"
proof -
  let ?body = "mock_body (mc_chip_id c) rnd rd"
  obtain r s where sg: "mc_sign c (take 0x2A0 ?body) = (r, s)" by fastforce
  from assms(1) sg show rd: "length rd = 64"
    by (auto simp: sign_report_def res_iff)
  from assms(1) sg have r: "0 \<le> r" "r < 256 ^ 48" and s: "0 \<le> s" "s < 256 ^ 48"
    and rep: "rep = put_slice (put_slice ?body 0x2A0 (0x2A0 + 48) (to_little 48 r)) (0x2A0 + 72) (0x2A0 + 120) (to_little 48 s)"
    by (auto simp: sign_report_def res_iff Let_def to_bytes_little_def split: if_splits)
  note len = length_mock_body [OF rd assms(2,3)]
  note fields = mock_body_fields [OF rd assms(2,3)]
  show "length rep = 1184" by (simp add: rep len bytearray.size_put)
  show "report_data_of rep = rd"
    using fields(1) by (simp add: rep report_data_of_def len bytearray.get_put_disjoint bytearray.size_put)
  show "chip_id_of rep = mc_chip_id c"
    using fields(2) by (simp add: rep chip_id_of_def len bytearray.get_put_disjoint bytearray.size_put)
  show "report_id_of rep = rnd"
    using fields(3) by (simp add: rep report_id_of_def len bytearray.get_put_disjoint bytearray.size_put)
  have "signed_part rep = take 0x2A0 ?body"
    by (simp add: rep signed_part_def take_put_slice len bytearray.size_put)
  moreover have "sig_r rep = r" "sig_s rep = s"
    using r s by (simp_all add: rep sig_r_def sig_s_def len bytearray.get_put_same
        bytearray.get_put_disjoint bytearray.size_put from_little_to_little)
  ultimately show "(sig_r rep, sig_s rep) = mc_sign c (signed_part rep)" by (simp add: sg)
qed

lemma sign_report_measurement:
  assumes "sign_report c rnd rd = Inr rep" "length (mc_chip_id c) = 64" "length rnd = 32"
  shows "measurement_of rep = zeros 48"
proof -
  obtain r s where sg: "mc_sign c (take 0x2A0 (mock_body (mc_chip_id c) rnd rd)) = (r, s)" by fastforce
  from assms(1) sg have rd: "length rd = 64" by (auto simp: sign_report_def res_iff)
  from assms(1) sg have rep: "rep = put_slice (put_slice (mock_body (mc_chip_id c) rnd rd) 0x2A0 (0x2A0 + 48)
      (to_little 48 r)) (0x2A0 + 72) (0x2A0 + 120) (to_little 48 s)"
    by (auto simp: sign_report_def res_iff Let_def to_bytes_little_def split: if_splits)
  have "measurement_of rep = slice (zeros 1184) 0x90 0xC0"
    using rd assms(2,3) by (simp add: rep measurement_of_def mock_body_def bytearray.get_put_disjoint bytearray.size_put)
  then show ?thesis by (simp add: slice_def zeros_def)
qed

section \<open>The parsers on a full-length report\<close>

lemma signature_text:
  assumes "1184 \<le> length rep"
  shows "rev (take 48 (slice rep 0x2A0 (0x2A0 + 72))) = to_big 48 (sig_r rep)"
    and "rev (take 48 (slice rep (0x2A0 + 72) (0x2A0 + 144))) = to_big 48 (sig_s rep)"
  using assms to_little_from_little [of "slice rep 672 720"] to_little_from_little [of "slice rep 744 792"]
  by (simp_all add: to_big_def slice_def sig_r_def sig_s_def)

lemma vlek_parse_value:
  assumes "1184 \<le> length rep"
  shows "vlek_parse rep = Inr \<lparr>v_version = from_little (slice rep 0 4), v_guest_svn = from_little (slice rep 4 8),
      v_policy = from_little (slice rep 8 16), v_vmpl = from_little (slice rep 48 52),
      v_sig_algo = from_little (slice rep 52 56), v_current_tcb = from_little (slice rep 56 64),
      v_platform_info = from_little (slice rep 64 72), v_flags = flags_of (from_little (slice rep 72 76)),
      v_report_data = hex (report_data_of rep), v_measurement = hex (measurement_of rep), v_host_data = hex (host_data_of rep),
      v_report_id = hex (report_id_of rep), v_reported_tcb = from_little (slice rep 384 392), v_chip_id = hex (chip_id_of rep),
      v_chip_id_zero = (chip_id_of rep = zeros 64), v_signature_r = hex (to_big 48 (sig_r rep)),
      v_signature_s = hex (to_big 48 (sig_s rep))\<rparr>"
  unfolding vlek_parse_def signature_text [OF assms]
  using assms by (simp add: unpack_le_def unpack2_le_def del: hex_eq_iff)

lemma gcp_snp_parse_value:
  assumes "1184 \<le> length rep"
  shows "gcp_snp_parse rep = Inr \<lparr>g_version = from_little (slice rep 0 4), g_policy = from_little (slice rep 8 16),
      g_flags = flags_of (from_little (slice rep 72 76)), g_report_data = hex (report_data_of rep),
      g_measurement = hex (measurement_of rep), g_host_data = hex (host_data_of rep), g_report_id = hex (report_id_of rep),
      g_reported_tcb = from_little (slice rep 384 392), g_chip_id = hex (chip_id_of rep), g_chip_id_zero = (chip_id_of rep = zeros 64)\<rparr>"
  using assms by (simp add: gcp_snp_parse_def unpack_le_def del: hex_eq_iff)

lemma azure_snp_parse_value:
  assumes "1184 \<le> length rep"
  shows "azure_snp_parse rep = Inr \<lparr>a_version = from_little (slice rep 0 4), a_policy = py_hex (from_little (slice rep 8 16)),
      a_flags = flags_of (from_little (slice rep 72 76)), a_report_data = hex (report_data_of rep),
      a_measurement = hex (measurement_of rep), a_host_data = hex (host_data_of rep), a_report_id = hex (report_id_of rep),
      a_reported_tcb = from_little (slice rep 384 392), a_chip_id = hex (chip_id_of rep), a_chip_id_zero = (chip_id_of rep = zeros 64)\<rparr>"
  using assms by (simp add: azure_snp_parse_def unpack_le_def del: hex_eq_iff)

section \<open>Properties\<close>

text \<open>\<open>parse\<close> returns exactly on the reports that are long enough: up to the reported TCB, and up to
  the CPUID family and model bytes when the version field says 3 or later. On every other input it
  raises, so a truncated report is never read as a shorter one.\<close>

theorem parse_returns_iff:
  "is_ok (parse rep) \<longleftrightarrow>
     0x188 \<le> length rep \<and> (from_little (slice rep 0 4) < 3 \<or> 0x18A \<le> length rep)"
  by (rule parse_ok_iff)

text \<open>What a parsed report says, in terms of its bytes: the TCB tuple is the bytes at 0x180, 0x181,
  0x186 and 0x187 (boot loader, TEE, SNP, microcode), the text fields are the hex of their ranges, and the
  product is Genoa or Turin only for a version 3 report with the family and model bytes of that product.\<close>

theorem parse_fields:
  assumes "parse rep = Inr f"
  shows "tcb f = (uint (rep ! 0x180), uint (rep ! 0x181), uint (rep ! 0x186), uint (rep ! 0x187))
    \<and> chip_id f = hex (slice rep 0x1A0 0x1E0) \<and> report_data f = hex (slice rep 0x50 0x90)
    \<and> measurement f = hex (slice rep 0x90 0xC0) \<and> report_id f = hex (slice rep 0x140 0x160)
    \<and> (product_name f = ''Genoa'' \<longleftrightarrow> 3 \<le> version f \<and> uint (rep ! 0x188) = 0x19
        \<and> 0x10 \<le> uint (rep ! 0x189) \<and> uint (rep ! 0x189) \<le> 0x1f)
    \<and> (product_name f = ''Turin'' \<longleftrightarrow> 3 \<le> version f \<and> uint (rep ! 0x188) = 0x1a)
    \<and> product_name f \<in> {''Milan'', ''Genoa'', ''Turin''}"
proof -
  from assms have len: "0x188 \<le> length rep" and p: "product rep = Inr (product_name f)"
    and v: "version f = from_little (slice rep 0 4)"
    and t: "tcb f = tcb_parts (from_little (slice rep 0x180 0x188))"
    and r: "chip_id f = hex (chip_id_of rep)" "report_data f = hex (report_data_of rep)"
      "measurement f = hex (measurement_of rep)" "report_id f = hex (report_id_of rep)"
    by (auto simp: parse_Inr_iff)
  have "tcb f = (uint (rep ! 0x180), uint (rep ! 0x181), uint (rep ! 0x186), uint (rep ! 0x187))"
    using len by (simp add: t tcb_parts_bytes nth_slice)
  moreover have "(product_name f = ''Genoa'' \<longleftrightarrow> 3 \<le> version f \<and> uint (rep ! 0x188) = 0x19
        \<and> 0x10 \<le> uint (rep ! 0x189) \<and> uint (rep ! 0x189) \<le> 0x1f)
    \<and> (product_name f = ''Turin'' \<longleftrightarrow> 3 \<le> version f \<and> uint (rep ! 0x188) = 0x1a)"
    using p by (auto simp: product_def res_iff v split: if_splits)
  ultimately show ?thesis
    using product_cases [OF p] r
    by (simp add: chip_id_of_def report_data_of_def measurement_of_def report_id_of_def)
qed

theorem parse_fields_witness:
  "\<exists>f. parse (map word_of_nat [0..<1184]) = Inr f \<and> tcb f = (0x80, 0x81, 0x86, 0x87)
    \<and> chip_id f = hex (slice (map word_of_nat [0..<1184]) 0x1A0 0x1E0)"
proof -
  let ?rep = "map word_of_nat [0..<1184] :: bytes"
  obtain f where f: "parse ?rep = Inr f" using parse_long [of ?rep] by auto
  have "?rep ! i = word_of_nat i" if "i < 1184" for i using that by simp
  then have "tcb f = (0x80, 0x81, 0x86, 0x87)"
    using parse_fields [OF f] by simp
  then show ?thesis using parse_fields [OF f] f by blast
qed

text \<open>C31: The five report parsers agree. On a full-length report all of them return, and they read the
  same signing key, report data, measurement, host data, report id, reported TCB, chip id and masking
  bit; the text of the signature fields that \<open>vlek_verify.py\<close> prints is the big-endian form of the
  integers every verifier checks.\<close>

theorem parsers_agree:
  assumes "1184 \<le> length rep"
  shows "\<exists>f v g a. parse rep = Inr f \<and> vlek_parse rep = Inr v \<and> gcp_snp_parse rep = Inr g \<and> azure_snp_parse rep = Inr a
    \<and> signing_key f = fl_signing_key (v_flags v) \<and> mask_chip_key f = fl_mask_chip_key (v_flags v)
    \<and> v_flags v = g_flags g \<and> g_flags g = a_flags a
    \<and> chip_id f = v_chip_id v \<and> v_chip_id v = g_chip_id g \<and> g_chip_id g = a_chip_id a
    \<and> report_data f = v_report_data v \<and> v_report_data v = g_report_data g \<and> g_report_data g = a_report_data a
    \<and> tcb f = tcb_parts (v_reported_tcb v) \<and> v_reported_tcb v = g_reported_tcb g \<and> g_reported_tcb g = a_reported_tcb a
    \<and> chip_id_zero f = v_chip_id_zero v \<and> v_chip_id_zero v = g_chip_id_zero g \<and> g_chip_id_zero g = a_chip_id_zero a
    \<and> version f = v_version v \<and> v_version v = g_version g \<and> g_version g = a_version a
    \<and> v_host_data v = g_host_data g \<and> g_host_data g = a_host_data a \<and> a_policy a = py_hex (g_policy g)
    \<and> hex (e_report_data (parse_report rep)) = report_data f \<and> e_chip_id (parse_report rep) = chip_id f
    \<and> e_report_id (parse_report rep) = report_id f \<and> e_measurement (parse_report rep) = measurement f
    \<and> v_signature_r v = hex (to_big 48 (sig_r rep)) \<and> v_signature_s v = hex (to_big 48 (sig_s rep))"
proof -
  obtain f where f: "parse rep = Inr f" using parse_long [OF assms] by blast
  note vals = vlek_parse_value [OF assms] gcp_snp_parse_value [OF assms] azure_snp_parse_value [OF assms]
  from f show ?thesis
    by (simp add: vals parse_report_def parse_Inr_iff flags_of_def del: hex_eq_iff) auto
qed

theorem parsers_agree_witness:
  "\<exists>f v. parse (zeros 1184) = Inr f \<and> vlek_parse (zeros 1184) = Inr v \<and> chip_id f = v_chip_id v
     \<and> signing_key f = fl_signing_key (v_flags v)"
  using parsers_agree [of "zeros 1184"] by auto

text \<open>The two tests for a masked chip agree: the parsers' comparison of the CHIP_ID bytes with 64
  zeros, and the ledger's \<open>set(chip_id) == {"0"}\<close> on the hex text of the field.\<close>

theorem masked_chip_tests_agree:
  assumes "parse rep = Inr f" and "1184 \<le> length rep"
  shows "chip_id_zero f \<longleftrightarrow> set (chip_id f) = {CHR ''0''}"
proof -
  have len: "length (chip_id_of rep) = 64" using assms(2) by (simp add: chip_id_of_def)
  then have "chip_id_of rep \<noteq> []" by auto
  then have "set (hex (chip_id_of rep)) = {CHR ''0''} \<longleftrightarrow> chip_id_of rep = zeros 64"
    unfolding len [symmetric] by (rule hex_all_zero_iff)
  moreover have "chip_id f = hex (chip_id_of rep)" "chip_id_zero f \<longleftrightarrow> chip_id_of rep = zeros 64"
    using assms(1) unfolding parse_Inr_iff by (elim conjE exE, hypsubst, simp only: dual_report.select_convs)+
  ultimately show ?thesis by simp
qed

theorem masked_chip_tests_agree_witness:
  "\<exists>f. parse (zeros 1184) = Inr f \<and> (chip_id_zero f \<longleftrightarrow> set (chip_id f) = {CHR ''0''})"
proof -
  obtain f where f: "parse (zeros 1184) = Inr f" using parse_long [of "zeros 1184"] by auto
  then show ?thesis using masked_chip_tests_agree [OF f] by auto
qed

text \<open>A report written by the mock firmware is read back by the client's parser: REPORT_DATA,
  CHIP_ID and REPORT_ID are the values put in, MEASUREMENT is zero, the length is 1184, and the two
  integers the verifiers extract are the signature over the first \<open>0x2A0\<close> bytes, although those bytes
  are written before the signature is.\<close>

theorem mock_report_roundtrip:
  assumes "sign_report c rnd rd = Inr rep" and "length (mc_chip_id c) = 64" and "length rnd = 32"
  shows "parse_report rep = \<lparr>e_report_data = rd, e_measurement = hex (zeros 48),
      e_chip_id = hex (mc_chip_id c), e_report_id = hex rnd\<rparr>
    \<and> length rep = 1184 \<and> (sig_r rep, sig_s rep) = mc_sign c (signed_part rep)"
  using sign_report_fields [OF assms] sign_report_measurement [OF assms] by (simp add: parse_report_def)

theorem mock_report_roundtrip_witness:
  "\<exists>rep. sign_report \<lparr>mc_chip_id = replicate 64 7, mc_sign = (\<lambda>m. (5, 6))\<rparr> (zeros 32) (replicate 64 9) = Inr rep
     \<and> e_report_data (parse_report rep) = replicate 64 9 \<and> e_chip_id (parse_report rep) = hex (replicate 64 7)
     \<and> sig_r rep = 5 \<and> sig_s rep = 6"
proof -
  let ?c = "\<lparr>mc_chip_id = replicate 64 7, mc_sign = (\<lambda>m. (5, 6))\<rparr>"
  obtain rep where r: "sign_report ?c (zeros 32) (replicate 64 9) = Inr rep"
    by (simp add: sign_report_def Let_def to_bytes_little_def)
  then show ?thesis using mock_report_roundtrip [OF r] by simp
qed

end
