(* ===== verification/Certs.thy ===== *)
theory Certs
  imports SnpReport
begin

text \<open>
  Certificates and what the verifiers do with them. X.509 objects and their signature checks
  come from a package outside the repository, so a certificate is a value of a type parameter
  and the package is the record \<open>pki\<close> of the operations the code calls; \<open>get\<close> (an HTTPS fetch)
  is a function from a URL to bytes or an exception. The section models \<open>load_cert\<close>, \<open>sig_ok\<close>,
  \<open>chain_ok\<close> and the extension lookups of \<open>aws-vlek/dual_verify.py\<close> and their copies in
  \<open>vlek_verify.py\<close>, \<open>verify.py\<close>, \<open>verify_run.py\<close> and \<open>tacra_verify.py\<close>.
\<close>

section \<open>The package\<close>

text \<open>
  \<open>ecdsa384_ok c (r, s) m\<close>: \<open>c.public_key().verify(encode_dss_signature(r, s), m, ECDSA(SHA384))\<close>
  returns. \<open>rsa_issued p c\<close> and \<open>ec_issued p c\<close>: the RSA and the ECDSA form of the check of \<open>c\<close>'s
  signature with \<open>p\<close>'s key return. \<open>exts\<close> lists (dotted OID, value bytes); \<open>issue_error p c\<close> is the
  text of the exception when the check raises.
\<close>

record 'c pki =
  ecdsa384_ok :: "'c \<Rightarrow> int \<times> int \<Rightarrow> bytes \<Rightarrow> bool"
  is_rsa :: "'c \<Rightarrow> bool"
  rsa_issued :: "'c \<Rightarrow> 'c \<Rightarrow> bool"
  ec_issued :: "'c \<Rightarrow> 'c \<Rightarrow> bool"
  exts :: "'c \<Rightarrow> (string \<times> bytes) list"
  subject :: "'c \<Rightarrow> string"
  spki_der :: "'c \<Rightarrow> bytes"
  load_pem :: "bytes \<Rightarrow> 'c res"
  load_der :: "bytes \<Rightarrow> 'c res"
  load_pem_chain :: "bytes \<Rightarrow> 'c list res"
  issue_error :: "'c \<Rightarrow> 'c \<Rightarrow> string"

type_synonym fetch = "string \<Rightarrow> bytes res"

section \<open>Loading, the report signature, the chain\<close>

definition load_cert :: "'c pki \<Rightarrow> bytes \<Rightarrow> 'c res" where
  "load_cert P b = (if take 10 b = utf8 ''-----BEGIN'' then load_pem P b else load_der P b)"

text \<open>Any exception of the check is \<open>False\<close>.\<close>

definition sig_ok :: "'c pki \<Rightarrow> bytes \<Rightarrow> 'c \<Rightarrow> bool" where
  "sig_ok P rep cert = ecdsa384_ok P cert (sig_r rep, sig_s rep) (signed_part rep)"

definition issued :: "'c pki \<Rightarrow> 'c \<Rightarrow> 'c \<Rightarrow> bool" where
  "issued P parent child = (if is_rsa P parent then rsa_issued P parent child else ec_issued P parent child)"

text \<open>The tuple of pairs is built first: a chain of fewer than two certificates is an
  \<open>IndexError\<close>, which the handler turns into \<open>False\<close>.\<close>

definition chain_ok :: "'c pki \<Rightarrow> 'c \<Rightarrow> 'c list \<Rightarrow> bool" where
  "chain_ok P leaf chain =
     (2 \<le> length chain \<and>
      list_all (\<lambda>(child, parent). issued P parent child)
        [(leaf, chain ! 0), (chain ! 0, chain ! 1), (chain ! 1, chain ! 1)])"

text \<open>\<open>[e for e in cert.extensions if e.oid.dotted_string == oid]\<close> and its first value.\<close>

definition ext_value :: "'c pki \<Rightarrow> 'c \<Rightarrow> string \<Rightarrow> bytes option" where
  "ext_value P c oid = map_of (exts P c) oid"

definition HWID_OID :: string where "HWID_OID = ''1.3.6.1.4.1.3704.1.4''"
definition CSP_OID :: string where "CSP_OID = ''1.3.6.1.4.1.3704.1.5''"

text \<open>\<open>value[-64:]\<close> and the comparison of the hwID extension with CHIP_ID.\<close>

definition last_n :: "nat \<Rightarrow> 'a list \<Rightarrow> 'a list" where
  "last_n n xs = drop (length xs - n) xs"

definition hwid_equals :: "'c pki \<Rightarrow> 'c \<Rightarrow> string \<Rightarrow> bool option" where
  "hwid_equals P c chip = map_option (\<lambda>v. hex (last_n 64 v) = chip) (ext_value P c HWID_OID)"

section \<open>vlek_verify.py\<close>

definition OID :: "(string \<times> string) list" where
  "OID = [(''1.3.6.1.4.1.3704.1.1'', ''structVersion''), (''1.3.6.1.4.1.3704.1.2'', ''productName''),
     (''1.3.6.1.4.1.3704.1.3.1'', ''blSPL''), (''1.3.6.1.4.1.3704.1.3.2'', ''teeSPL''),
     (''1.3.6.1.4.1.3704.1.3.3'', ''snpSPL''), (''1.3.6.1.4.1.3704.1.3.8'', ''ucodeSPL''),
     (''1.3.6.1.4.1.3704.1.4'', ''hwID''), (''1.3.6.1.4.1.3704.1.5'', ''cspID'')]"

definition vlek_verify_sig :: "'c pki \<Rightarrow> bytes \<Rightarrow> 'c \<Rightarrow> bool" where
  "vlek_verify_sig P report cert =
     (let r = from_little (slice report 0x2A0 (0x2A0 + 48));
          s = from_little (slice report (0x2A0 + 72) (0x2A0 + 72 + 48))
      in ecdsa384_ok P cert (r, s) (take 0x2A0 report))"

definition verify_cert :: "'c pki \<Rightarrow> 'c \<Rightarrow> 'c \<Rightarrow> unit res" where
  "verify_cert P child parent = (if issued P parent child then Ok ()
     else Err (Raised ''InvalidSignature'' (issue_error P parent child)))"

text \<open>One row per link: its label, whether it verified, and the subject or the error text. The
  indexing of the parsed chain is not guarded here.\<close>

definition vlek_chain_ok :: "'c pki \<Rightarrow> 'c \<Rightarrow> bytes \<Rightarrow> (string \<times> bool \<times> string) list res" where
  "vlek_chain_ok P leaf chain_pem = rbind (load_pem_chain P chain_pem) (\<lambda>certs.
     if length certs < 2 then Err IndexError else
     Ok (map (\<lambda>(child, parent, label). case verify_cert P child parent of
            Inr _ \<Rightarrow> (label, True, subject P child)
          | Inl e \<Rightarrow> (label, False, take 80 (issue_error P parent child)))
       [(leaf, certs ! 0, ''leaf<-ASVK/ASK''), (certs ! 0, certs ! 1, ''ASVK/ASK<-ARK''),
        (certs ! 1, certs ! 1, ''ARK self-signed'')]))"

section \<open>The KDS address of a VCEK\<close>

definition vcek_url :: "string \<Rightarrow> string \<Rightarrow> tcb \<Rightarrow> string" where
  "vcek_url prod_name chip t = (case t of (bl, tee, snp, uc) \<Rightarrow>
     ''https://kdsintf.amd.com/vcek/v1/'' @ prod_name @ ''/'' @ chip @ ''?blSPL='' @ dec bl @ ''&teeSPL='' @ dec tee
       @ ''&snpSPL='' @ dec snp @ ''&ucodeSPL='' @ dec uc)"

definition chain_url :: "string \<Rightarrow> string \<Rightarrow> string" where
  "chain_url kind prod_name = ''https://kdsintf.amd.com/'' @ kind @ ''/v1/'' @ prod_name @ ''/cert_chain''"

section \<open>Lemmas\<close>

lemma chain_ok_iff:
  "chain_ok P leaf chain \<longleftrightarrow> (\<exists>ask ark rest. chain = ask # ark # rest \<and>
     issued P ask leaf \<and> issued P ark ask \<and> issued P ark ark)"
  by (cases chain; cases "tl chain") (auto simp: chain_ok_def)

lemma vlek_verify_sig_eq: "vlek_verify_sig P rep c = sig_ok P rep c"
  by (simp add: vlek_verify_sig_def sig_ok_def sig_r_def sig_s_def signed_part_def)

text \<open>
  What the clients of a report-signature check rely on: the answer depends only on the signed
  bytes and the two integers, so bytes after the signature field and the padding inside it do
  not matter.
\<close>

locale report_check =
  fixes ok :: "bytes \<Rightarrow> 'c \<Rightarrow> bool"
  assumes depends: "signed_part a = signed_part b \<Longrightarrow> sig_r a = sig_r b \<Longrightarrow> sig_s a = sig_s b \<Longrightarrow> ok a c = ok b c"
begin

lemma trailing_ignored: "0x2A0 + 120 \<le> length a \<Longrightarrow> ok (a @ t) c = ok a c"
  by (rule depends) (simp_all add: signed_part_def sig_r_def sig_s_def slice_append_left)

lemma truncated: "1184 \<le> length a \<Longrightarrow> ok (take 1184 a) c = ok a c"
  by (rule depends) (simp_all add: signed_part_def sig_r_def sig_s_def slice_take)

end

interpretation dual: report_check "sig_ok P"
  by unfold_locales (simp add: sig_ok_def)

interpretation vlek: report_check "vlek_verify_sig P"
  by unfold_locales (simp add: vlek_verify_sig_eq sig_ok_def)

lemma sign_report_sig_ok:
  assumes "sign_report c rnd rd = Inr rep" "length (mc_chip_id c) = 64" "length rnd = 32"
    and "\<And>m. ecdsa384_ok P cert (mc_sign c m) m"
  shows "sig_ok P rep cert"
  using sign_report_fields(6) [OF assms(1-3)] assms(4) [of "signed_part rep"] by (simp add: sig_ok_def)

lemma vlek_chain_ok_rows:
  assumes "vlek_chain_ok P leaf pem = Inr rows" "load_pem_chain P pem = Inr certs"
  shows "length rows = 3" "(\<forall>(l, ok, t) \<in> set rows. ok) \<longleftrightarrow> chain_ok P leaf certs"
  using assms by (auto simp: vlek_chain_ok_def verify_cert_def chain_ok_def split: if_splits)

section \<open>The copies in verify.py, verify_run.py and tacra_verify.py\<close>

text \<open>These scripts carry their own copies of the checks. The loop over the links stops at the first one that
  raises, and any exception is \<open>False\<close>.\<close>

definition client_sig_ok :: "'c pki \<Rightarrow> bytes \<Rightarrow> 'c \<Rightarrow> bool" where
  "client_sig_ok P rep cert =
     (let r = from_little (slice rep 0x2A0 (0x2A0 + 48)); s = from_little (slice rep (0x2A0 + 72) (0x2A0 + 120))
      in ecdsa384_ok P cert (r, s) (take 0x2A0 rep))"

definition run_load_cert :: "'c pki \<Rightarrow> bytes \<Rightarrow> 'c res" where
  "run_load_cert P b = (if take 10 b = utf8 ''-----BEGIN'' then load_pem P b else load_der P b)"

definition run_sig_ok :: "'c pki \<Rightarrow> bytes \<Rightarrow> 'c \<Rightarrow> bool" where
  "run_sig_ok P rep cert =
     (let r = from_little (slice rep 0x2A0 (0x2A0 + 48)); s = from_little (slice rep (0x2A0 + 72) (0x2A0 + 120))
      in ecdsa384_ok P cert (r, s) (take 0x2A0 rep))"

fun run_links :: "'c pki \<Rightarrow> ('c \<times> 'c) list \<Rightarrow> unit res" where
  "run_links P [] = Ok ()"
| "run_links P ((child, parent) # r) =
     rbind (rassert (if is_rsa P parent then rsa_issued P parent child else ec_issued P parent child) (Raised ''InvalidSignature'' '''')) (\<lambda>_.
     run_links P r)"

definition at_index :: "'a list \<Rightarrow> nat \<Rightarrow> 'a res" where
  "at_index xs i = (if i < length xs then Ok (xs ! i) else Err IndexError)"

definition run_chain_ok :: "'c pki \<Rightarrow> 'c \<Rightarrow> 'c list \<Rightarrow> bool" where
  "run_chain_ok P leaf chain = is_ok (rbind (at_index chain 0) (\<lambda>a. rbind (at_index chain 1) (\<lambda>r.
     run_links P [(leaf, a), (a, r), (r, r)])))"

definition tacra_load_cert :: "'c pki \<Rightarrow> bytes \<Rightarrow> 'c res" where
  "tacra_load_cert P b = (if take 10 b = utf8 ''-----BEGIN'' then load_pem P b else load_der P b)"

definition tacra_sig_ok :: "'c pki \<Rightarrow> bytes \<Rightarrow> 'c \<Rightarrow> bool" where
  "tacra_sig_ok P rep cert =
     (let r = from_little (slice rep 0x2A0 (0x2A0 + 48)); s = from_little (slice rep (0x2A0 + 72) (0x2A0 + 120))
      in ecdsa384_ok P cert (r, s) (take 0x2A0 rep))"

definition tacra_chain_ok :: "'c pki \<Rightarrow> 'c \<Rightarrow> 'c list \<Rightarrow> bool" where
  "tacra_chain_ok P leaf chain = is_ok (rbind (at_index chain 0) (\<lambda>a. rbind (at_index chain 1) (\<lambda>r.
     run_links P [(leaf, a), (a, r), (r, r)])))"

text \<open>They decide alike.\<close>

lemma sig_ok_copies: "client_sig_ok = sig_ok" "run_sig_ok = sig_ok" "tacra_sig_ok = sig_ok"
  by (simp_all add: fun_eq_iff client_sig_ok_def run_sig_ok_def tacra_sig_ok_def sig_ok_def sig_r_def sig_s_def signed_part_def)

lemma load_cert_copies: "run_load_cert = load_cert" "tacra_load_cert = load_cert"
  by (simp_all add: fun_eq_iff run_load_cert_def tacra_load_cert_def load_cert_def)

lemma run_links_ok: "is_ok (run_links P ls) \<longleftrightarrow> list_all (\<lambda>(child, parent). issued P parent child) ls"
proof (induction ls)
  case (Cons l ls)
  have r: "is_ok (rbind (rassert b e) f) \<longleftrightarrow> b \<and> is_ok (f ())" for b e and f :: "unit \<Rightarrow> unit res"
    by (simp add: rassert_def)
  show ?case using Cons by (cases l) (simp add: r issued_def [symmetric])
qed simp

lemma chain_ok_copies: "run_chain_ok = chain_ok" "tacra_chain_ok = chain_ok"
proof -
  have eq: "is_ok (rbind (at_index chain 0) (\<lambda>a. rbind (at_index chain 1) (\<lambda>r. run_links P [(leaf, a), (a, r), (r, r)])))
      = chain_ok P leaf chain" for P :: "'c pki" and leaf chain
  proof (cases "2 \<le> length chain")
    case True
    then have "at_index chain 0 = Ok (chain ! 0)" "at_index chain 1 = Ok (chain ! 1)" by (auto simp: at_index_def)
    then show ?thesis using True by (simp add: run_links_ok chain_ok_def del: run_links.simps)
  next
    case False
    then have "length chain = 0 \<or> length chain = 1" by arith
    then show ?thesis by (auto simp: at_index_def chain_ok_def)
  qed
  show "run_chain_ok = (chain_ok :: 'c pki \<Rightarrow> 'c \<Rightarrow> 'c list \<Rightarrow> bool)" by (intro ext) (simp only: run_chain_ok_def eq)
  show "tacra_chain_ok = (chain_ok :: 'c pki \<Rightarrow> 'c \<Rightarrow> 'c list \<Rightarrow> bool)" by (intro ext) (simp only: tacra_chain_ok_def eq)
qed

lemmas cert_copies = sig_ok_copies load_cert_copies chain_ok_copies

end
