(* ===== verification/PyText.thy ===== *)
theory PyText
  imports Prelude
begin

text \<open>
  The text operations of Python the scripts use on small files: \<open>str.strip\<close>, \<open>str.split\<close>,
  \<open>str.split(c)\<close>, the \<open>key=value\<close> dictionary of \<open>metadata.txt\<close>, and \<open>binascii.unhexlify\<close>.
\<close>

section \<open>Whitespace\<close>

text \<open>\<open>str.isspace\<close> on the code points below 256.\<close>

definition is_space :: "char \<Rightarrow> bool" where
  "is_space c = (let n = (of_char c :: nat) in
     9 \<le> n \<and> n \<le> 13 \<or> 28 \<le> n \<and> n \<le> 32 \<or> n = 0x85 \<or> n = 0xa0)"

definition strip :: "string \<Rightarrow> string" where
  "strip s = rev (dropWhile is_space (rev (dropWhile is_space s)))"

text \<open>\<open>s.split()\<close>: the maximal runs without whitespace.\<close>

function split_ws :: "string \<Rightarrow> string list" where
  "split_ws s = (case dropWhile is_space s of [] \<Rightarrow> []
     | c # cs \<Rightarrow> (c # takeWhile (\<lambda>x. \<not> is_space x) cs) # split_ws (dropWhile (\<lambda>x. \<not> is_space x) cs))"
  by pat_completeness auto
termination
proof (relation "measure length")
  fix s c cs
  assume d: "dropWhile is_space s = c # cs"
  have "length (dropWhile (\<lambda>x. \<not> is_space x) cs) \<le> length cs" by (rule length_dropWhile_le)
  also have "\<dots> < length (dropWhile is_space s)" by (simp add: d)
  also have "\<dots> \<le> length s" by (rule length_dropWhile_le)
  finally show "(dropWhile (\<lambda>x. \<not> is_space x) cs, s) \<in> measure length" by simp
qed simp

declare split_ws.simps [simp del]

text \<open>\<open>s.split(c)\<close> for a one-character separator.\<close>

fun split_on :: "char \<Rightarrow> string \<Rightarrow> string list" where
  "split_on c [] = [[]]"
| "split_on c (x # xs) = (if x = c then [] # split_on c xs
     else (case split_on c xs of [] \<Rightarrow> [[x]] | w # ws \<Rightarrow> (x # w) # ws))"

fun join_on :: "char \<Rightarrow> string list \<Rightarrow> string" where
  "join_on c [] = []"
| "join_on c [w] = w"
| "join_on c (w # ws) = w @ [c] @ join_on c ws"

lemma split_on_not_Nil [simp]: "split_on c s \<noteq> []"
  by (induction s) (auto split: list.splits)

lemma join_split: "join_on c (split_on c s) = s"
proof (induction s)
  case (Cons x xs)
  obtain w ws where w: "split_on c xs = w # ws" by (cases "split_on c xs") simp_all
  with Cons show ?case by (cases ws) auto
qed simp

lemma split_on_free: "c \<notin> set s \<Longrightarrow> split_on c s = [s]"
  by (induction s) auto

lemma split_on_append: "c \<notin> set w \<Longrightarrow> split_on c (w @ c # s) = w # split_on c s"
  by (induction w) auto

text \<open>\<open>s.startswith(p)\<close>.\<close>

definition starts_with :: "string \<Rightarrow> string \<Rightarrow> bool" where
  "starts_with p s \<longleftrightarrow> take (length p) s = p"

lemma starts_with_append [simp]: "starts_with p (p @ r)"
  by (simp add: starts_with_def)

section \<open>Searching\<close>

text \<open>\<open>s.find(p)\<close> (\<open>None\<close> for -1) on texts and bytes, \<open>s.split(p)\<close> for a separator of any length, and
  \<open>s.splitlines()\<close>.\<close>

fun find_sub :: "'a list \<Rightarrow> 'a list \<Rightarrow> nat option" where
  "find_sub p [] = (if p = [] then Some 0 else None)"
| "find_sub p (x # xs) = (if take (length p) (x # xs) = p then Some 0 else map_option Suc (find_sub p xs))"

lemma find_sub_Some: "find_sub p s = Some i \<Longrightarrow> take (length p) (drop i s) = p \<and> i + length p \<le> length s"
proof (induction p s arbitrary: i rule: find_sub.induct)
  case (2 p x xs)
  show ?case
  proof (cases "take (length p) (x # xs) = p")
    case True
    then have "length p \<le> length (x # xs)" by (metis length_take min.absorb_iff2 nat_le_linear)
    with 2 True show ?thesis by simp
  next
    case False
    with 2 show ?thesis by auto
  qed
qed (simp split: if_splits)

lemma find_sub_shrinks: "find_sub p s = Some i \<Longrightarrow> p \<noteq> [] \<Longrightarrow> length s - (i + length p) < length s"
  by (drule find_sub_Some, cases p) auto

function split_sub :: "'a list \<Rightarrow> 'a list \<Rightarrow> 'a list list" where
  "split_sub p s = (case find_sub p s of None \<Rightarrow> [s]
     | Some i \<Rightarrow> if p = [] then [s] else take i s # split_sub p (drop (i + length p) s))"
  by pat_completeness auto
termination
  by (relation "measure (\<lambda>(p, s). length s)") (auto simp: find_sub_shrinks)

declare split_sub.simps [simp del]

definition is_line_end :: "char \<Rightarrow> bool" where
  "is_line_end c = (let n = (of_char c :: nat) in 10 \<le> n \<and> n \<le> 13 \<or> 28 \<le> n \<and> n \<le> 30 \<or> n = 0x85)"

function splitlines :: "string \<Rightarrow> string list" where
  "splitlines s = (if s = [] then [] else takeWhile (\<lambda>c. \<not> is_line_end c) s #
     (case dropWhile (\<lambda>c. \<not> is_line_end c) s of [] \<Rightarrow> []
      | c # r \<Rightarrow> splitlines (if c = CHR 0x0D \<and> take 1 r = [CHR 0x0A] then drop 1 r else r)))"
  by pat_completeness auto
termination
proof (relation "measure length")
  fix s :: string and c r
  assume d: "dropWhile (\<lambda>c. \<not> is_line_end c) s = c # r"
  have "length (c # r) \<le> length s" unfolding d [symmetric] by (rule length_dropWhile_le)
  then show "(if c = CHR 0x0D \<and> take 1 r = [CHR 0x0A] then drop 1 r else r, s) \<in> measure length" by auto
qed simp

declare splitlines.simps [simp del]

section \<open>The key=value dictionary\<close>

text \<open>\<open>dict(l.split("=", 1) for l in lines if "=" in l)\<close>.\<close>

definition split_eq :: "string \<Rightarrow> string \<times> string" where
  "split_eq l = (takeWhile (\<lambda>x. x \<noteq> CHR ''='') l, tl (dropWhile (\<lambda>x. x \<noteq> CHR ''='') l))"

definition key_values :: "string list \<Rightarrow> (string \<times> string) list" where
  "key_values ls = foldl (\<lambda>d (k, v). AList.update k v d) [] (map split_eq (filter (\<lambda>l. CHR ''='' \<in> set l) ls))"

lemma split_eq_line: "CHR ''='' \<notin> set k \<Longrightarrow> split_eq (k @ CHR ''='' # v) = (k, v)"
  by (induction k) (auto simp: split_eq_def)

text \<open>The last line of a key counts.\<close>

lemma map_of_update_fold:
  "map_of (foldl (\<lambda>d (k, v). AList.update k v d) d0 kvs) k =
     (case map_of (rev kvs) k of None \<Rightarrow> map_of d0 k | Some v \<Rightarrow> Some v)"
  by (induction kvs arbitrary: d0) (auto simp: update_conv' map_add_def split: option.splits)

lemma key_values_lookup:
  "map_of (key_values ls) k = map_of (rev (map split_eq (filter (\<lambda>l. CHR ''='' \<in> set l) ls))) k"
  by (simp add: key_values_def map_of_update_fold split: option.splits)

section \<open>Hexadecimal text\<close>

text \<open>\<open>binascii.unhexlify\<close>: both cases of digits, an even number of them; its \<open>Error\<close> is a
  \<open>ValueError\<close>.\<close>

definition hex_val :: "char \<Rightarrow> nat option" where
  "hex_val c = (let n = (of_char c :: nat) in
     if 48 \<le> n \<and> n \<le> 57 then Some (n - 48)
     else if 97 \<le> n \<and> n \<le> 102 then Some (n - 87)
     else if 65 \<le> n \<and> n \<le> 70 then Some (n - 55) else None)"

fun unhex :: "string \<Rightarrow> bytes res" where
  "unhex [] = Ok []"
| "unhex [c] = Err ValueError"
| "unhex (c # d # s) = (case (hex_val c, hex_val d) of
     (Some h, Some l) \<Rightarrow> rbind (unhex s) (\<lambda>b. Ok (word_of_nat (16 * h + l) # b))
   | _ \<Rightarrow> Err ValueError)"

lemma hex_val_digit: "n < 16 \<Longrightarrow> hex_val (hex_digit n) = Some n"
proof -
  have "list_all (\<lambda>n. hex_val (hex_digit n) = Some n) [0..<16]"
    by (simp add: hex_val_def hex_digit_def upt_rec numeral_eq_Suc Let_def)
  then show "n < 16 \<Longrightarrow> hex_val (hex_digit n) = Some n" by (simp add: list_all_iff)
qed

lemma unhex_hex [simp]: "unhex (hex b) = Ok b"
proof (induction b)
  case (Cons x xs)
  have x: "unat x < 256" by (rule unat_byte_less)
  then have "hex_val (hex_digit (unat x div 16)) = Some (unat x div 16)"
    "hex_val (hex_digit (unat x mod 16)) = Some (unat x mod 16)"
    by (auto intro!: hex_val_digit)
  moreover have "hex (x # xs) = hex_digit (unat x div 16) # hex_digit (unat x mod 16) # hex xs"
    by (simp add: hex_def hex_byte_def)
  moreover have "(word_of_nat (16 * (unat x div 16) + unat x mod 16) :: byte) = x"
    unfolding mult_div_mod_eq by simp
  ultimately show ?case using Cons.IH by simp
qed simp

text \<open>\<open>bytes.fromhex\<close>: ASCII whitespace is skipped between the pairs of digits.\<close>

fun fromhex :: "string \<Rightarrow> bytes res" where
  "fromhex [] = Ok []"
| "fromhex (c # s) = (let n = (of_char c :: nat) in
     if 9 \<le> n \<and> n \<le> 13 \<or> n = 32 then fromhex s
     else (case s of [] \<Rightarrow> Err ValueError
       | d # r \<Rightarrow> (case (hex_val c, hex_val d) of
           (Some h, Some l) \<Rightarrow> rbind (fromhex r) (\<lambda>b. Ok (word_of_nat (16 * h + l) # b))
         | _ \<Rightarrow> Err ValueError)))"

lemma hex_digit_code: "n < 16 \<Longrightarrow> 33 \<le> (of_char (hex_digit n) :: nat)"
proof -
  have "list_all (\<lambda>n. 33 \<le> (of_char (hex_digit n) :: nat)) [0..<16]"
    by (simp add: hex_digit_def upt_rec numeral_eq_Suc)
  then show "n < 16 \<Longrightarrow> 33 \<le> (of_char (hex_digit n) :: nat)" by (simp add: list_all_iff)
qed

lemma fromhex_hex [simp]: "fromhex (hex b) = Ok b"
proof (induction b)
  case (Cons x xs)
  have x: "unat x div 16 < 16" "unat x mod 16 < 16" using unat_byte_less [of x] by auto
  have "(word_of_nat (16 * (unat x div 16) + unat x mod 16) :: byte) = x"
    unfolding mult_div_mod_eq by simp
  moreover have "hex (x # xs) = hex_digit (unat x div 16) # hex_digit (unat x mod 16) # hex xs"
    by (simp add: hex_def hex_byte_def)
  ultimately show ?case
    using Cons.IH x hex_digit_code [OF x(1)] by (simp add: hex_val_digit Let_def)
qed simp

lemma hex_chars: "c \<in> set (hex b) \<Longrightarrow> 33 \<le> (of_char c :: nat) \<and> (of_char c :: nat) < 128"
proof (induction b)
  case (Cons x xs)
  have "list_all (\<lambda>n. (of_char (hex_digit n) :: nat) < 128) [0..<16]"
    by (simp add: hex_digit_def upt_rec numeral_eq_Suc)
  then have "n < 16 \<Longrightarrow> (of_char (hex_digit n) :: nat) < 128" for n by (simp add: list_all_iff)
  moreover have "unat x div 16 < 16" "unat x mod 16 < 16" using unat_byte_less [of x] by auto
  moreover have "set (hex (x # xs)) = {hex_digit (unat x div 16), hex_digit (unat x mod 16)} \<union> set (hex xs)"
    by (auto simp: hex_def hex_byte_def)
  ultimately show ?case using Cons hex_digit_code by auto
qed simp

lemma hex_ascii: "is_ascii (hex b)"
  using hex_chars by (auto simp: is_ascii_def)

lemma strip_no_space: "(\<And>c. c \<in> set s \<Longrightarrow> \<not> is_space c) \<Longrightarrow> strip s = s"
proof -
  have no: "\<forall>x \<in> set l. \<not> is_space x \<Longrightarrow> dropWhile is_space l = l" for l by (cases l) auto
  show "(\<And>c. c \<in> set s \<Longrightarrow> \<not> is_space c) \<Longrightarrow> strip s = s" by (simp add: strip_def no)
qed

lemma strip_hex: "strip (hex b @ [CHR 0x0A]) = hex b" "strip (hex b) = hex b"
proof -
  have no: "\<not> is_space c" if "c \<in> set (hex b)" for c using hex_chars [OF that] by (auto simp: is_space_def Let_def)
  then show s: "strip (hex b) = hex b" by (rule strip_no_space)
  have "dropWhile is_space (hex b @ [CHR 0x0A]) = (if hex b = [] then [] else hex b @ [CHR 0x0A])"
    using no by (cases "hex b") (auto simp: is_space_def)
  moreover have "is_space (CHR 0x0A)" by (simp add: is_space_def)
  moreover have "dropWhile is_space (rev (hex b)) = rev (hex b)" using no by (cases "rev (hex b)") auto
  ultimately show "strip (hex b @ [CHR 0x0A]) = hex b" by (simp add: strip_def)
qed


section \<open>Integers\<close>

text \<open>\<open>int(s)\<close>: surrounding whitespace, a sign, digits with single underscores between them.\<close>

definition is_digit :: "char \<Rightarrow> bool" where
  "is_digit c = (let n = (of_char c :: nat) in 48 \<le> n \<and> n \<le> 57)"

definition digits_value :: "string \<Rightarrow> int" where
  "digits_value ds = foldl (\<lambda>a c. 10 * a + (of_char c - 48)) 0 ds"

definition py_int :: "string \<Rightarrow> int res" where
  "py_int s = (let t = strip s; neg = (take 1 t = ''-''); d = (if take 1 t \<in> {''-'', ''+''} then drop 1 t else t);
     ws = split_on (CHR 0x5F) d in
     if list_all (\<lambda>w. w \<noteq> [] \<and> list_all is_digit w) ws
     then Ok ((if neg then - 1 else 1) * digits_value (concat ws)) else Err ValueError)"

end
