(* ===== verification/Json.thy ===== *)
theory Json
  imports PyText
begin

text \<open>
  Python's \<open>json.loads\<close> and \<open>json.dumps\<close> on the characters of the model (code points below 256; a
  \<open>\u\<close> escape above \<open>00ff\<close> is refused here). The parser descends with fuel for the nesting depth; the
  length of the text is enough, and what \<open>dumps\<close> writes is read back.
\<close>

section \<open>Values\<close>

text \<open>JSON values as the scripts pass them through; a number is kept as its text.\<close>

datatype json = JNull | JBool bool | JNum string | JStr string | JList "json list" | JObj "(string \<times> json) list"

definition QUOTE :: char where "QUOTE = CHR 0x22"
definition BACKSLASH :: char where "BACKSLASH = CHR 0x5C"

section \<open>Parsing\<close>

definition is_json_space :: "char \<Rightarrow> bool" where
  "is_json_space c \<longleftrightarrow> c = CHR '' '' \<or> c = CHR 0x09 \<or> c = CHR 0x0A \<or> c = CHR 0x0D"

definition jskip :: "string \<Rightarrow> string" where
  "jskip s = dropWhile is_json_space s"

text \<open>After a backslash.\<close>

definition unescape :: "string \<Rightarrow> (char \<times> string) option" where
  "unescape s = (case s of [] \<Rightarrow> None | c # r \<Rightarrow>
     if c = QUOTE \<or> c = BACKSLASH \<or> c = CHR ''/'' then Some (c, r)
     else if c = CHR ''b'' then Some (CHR 0x08, r) else if c = CHR ''f'' then Some (CHR 0x0C, r)
     else if c = CHR ''n'' then Some (CHR 0x0A, r) else if c = CHR ''r'' then Some (CHR 0x0D, r)
     else if c = CHR ''t'' then Some (CHR 0x09, r)
     else if c = CHR ''u'' \<and> take 2 r = ''00'' then
       (case map hex_val (take 2 (drop 2 r)) of [Some h, Some l] \<Rightarrow> Some (char_of (16 * h + l), drop 4 r) | _ \<Rightarrow> None)
     else None)"

lemma unescape_shorter: "unescape s = Some (c, r) \<Longrightarrow> length r < length s"
  by (auto simp: unescape_def split: list.splits if_splits option.splits)

text \<open>After the opening quote.\<close>

function scan_string :: "string \<Rightarrow> (string \<times> string) option" where
  "scan_string s = (case s of [] \<Rightarrow> None | c # r \<Rightarrow>
     if c = QUOTE then Some ([], r)
     else if c = BACKSLASH then (case unescape r of None \<Rightarrow> None | Some (x, r') \<Rightarrow> map_option (apfst (Cons x)) (scan_string r'))
     else if (of_char c :: nat) < 32 then None
     else map_option (apfst (Cons c)) (scan_string r))"
  by pat_completeness auto
termination by (relation "measure length") (auto dest: unescape_shorter)

declare scan_string.simps [simp del]

definition is_num_char :: "char \<Rightarrow> bool" where
  "is_num_char c = (c \<in> set ''0123456789'')"

text \<open>\<open>(-?(?:0|[1-9][0-9]*))(\.[0-9]+)?([eE][-+]?[0-9]+)?\<close> at the start of a text: its length, or 0.\<close>

definition int_part :: "string \<Rightarrow> nat" where
  "int_part s = (let m = (if take 1 s = ''-'' then 1 else 0); ds = takeWhile is_num_char (drop m s) in
     if ds = [] then 0 else if hd ds = CHR ''0'' then m + 1 else m + length ds)"

definition frac_part :: "string \<Rightarrow> nat" where
  "frac_part s = (let ds = takeWhile is_num_char (drop 1 s) in if take 1 s = ''.'' \<and> ds \<noteq> [] then 1 + length ds else 0)"

definition exp_part :: "string \<Rightarrow> nat" where
  "exp_part s = (let g = (if take 1 (drop 1 s) \<in> {''-'', ''+''} then 1 else 0); ds = takeWhile is_num_char (drop (1 + g) s) in
     if take 1 s \<in> {''e'', ''E''} \<and> ds \<noteq> [] then 1 + g + length ds else 0)"

definition number_length :: "string \<Rightarrow> nat" where
  "number_length s = (let i = int_part s in if i = 0 then 0 else
     let f = frac_part (drop i s); e = exp_part (drop (i + f) s) in i + f + e)"

definition scan_atom :: "string \<Rightarrow> (json \<times> string) option" where
  "scan_atom s =
     (if starts_with ''null'' s then Some (JNull, drop 4 s)
      else if starts_with ''true'' s then Some (JBool True, drop 4 s)
      else if starts_with ''false'' s then Some (JBool False, drop 5 s)
      else if number_length s \<noteq> 0 then Some (JNum (take (number_length s) s), drop (number_length s) s)
      else if starts_with ''NaN'' s then Some (JNum ''NaN'', drop 3 s)
      else if starts_with ''Infinity'' s then Some (JNum ''Infinity'', drop 8 s)
      else if starts_with ''-Infinity'' s then Some (JNum ''-Infinity'', drop 9 s)
      else None)"

text \<open>Items separated by commas up to a closing character, at most \<open>n\<close> of them.\<close>

fun scan_items :: "(string \<Rightarrow> ('a \<times> string) option) \<Rightarrow> char \<Rightarrow> nat \<Rightarrow> string \<Rightarrow> ('a list \<times> string) option" where
  "scan_items p close 0 s = None"
| "scan_items p close (Suc n) s = (case p s of None \<Rightarrow> None | Some (v, r) \<Rightarrow>
     (case jskip r of [] \<Rightarrow> None | c # r' \<Rightarrow>
        if c = close then Some ([v], r')
        else if c = CHR '','' then map_option (apfst (Cons v)) (scan_items p close n (jskip r'))
        else None))"

definition scan_member :: "(string \<Rightarrow> (json \<times> string) option) \<Rightarrow> string \<Rightarrow> ((string \<times> json) \<times> string) option" where
  "scan_member p s = (case s of [] \<Rightarrow> None | c # r \<Rightarrow> if c \<noteq> QUOTE then None else
     (case scan_string r of None \<Rightarrow> None | Some (k, r1) \<Rightarrow>
     (case jskip r1 of [] \<Rightarrow> None | c' # r2 \<Rightarrow> if c' \<noteq> CHR '':'' then None else
     map_option (apfst (Pair k)) (p (jskip r2)))))"

text \<open>\<open>dict(pairs)\<close>.\<close>

definition dict_of :: "('k \<times> 'v) list \<Rightarrow> ('k \<times> 'v) list" where
  "dict_of ps = foldl (\<lambda>d (k, v). AList.update k v d) [] ps"

primrec scan_value :: "nat \<Rightarrow> string \<Rightarrow> (json \<times> string) option" where
  "scan_value 0 = (\<lambda>s. None)"
| "scan_value (Suc k) = (\<lambda>s. case s of [] \<Rightarrow> None | c # r \<Rightarrow>
     if c = QUOTE then map_option (apfst JStr) (scan_string r)
     else if c = CHR ''['' then
       (if take 1 (jskip r) = '']'' then Some (JList [], drop 1 (jskip r))
        else map_option (apfst JList) (scan_items (scan_value k) (CHR '']'') (length r) (jskip r)))
     else if c = CHR ''{'' then
       (if take 1 (jskip r) = ''}'' then Some (JObj [], drop 1 (jskip r))
        else map_option (apfst (JObj \<circ> dict_of)) (scan_items (scan_member (scan_value k)) (CHR ''}'') (length r) (jskip r)))
     else scan_atom s)"

definition JSON_ERROR :: pyerr where
  "JSON_ERROR = Raised ''JSONDecodeError'' ''''"

definition json_loads :: "string \<Rightarrow> json res" where
  "json_loads s = (case scan_value (Suc (length s)) (jskip s) of
     Some (v, r) \<Rightarrow> if jskip r = [] then Ok v else Err JSON_ERROR | None \<Rightarrow> Err JSON_ERROR)"

section \<open>Writing\<close>

definition escape_char :: "char \<Rightarrow> string" where
  "escape_char c = (let n = (of_char c :: nat) in
     if c = QUOTE then [BACKSLASH, QUOTE] else if c = BACKSLASH then [BACKSLASH, BACKSLASH]
     else if n = 10 then [BACKSLASH, CHR ''n''] else if n = 13 then [BACKSLASH, CHR ''r'']
     else if n = 9 then [BACKSLASH, CHR ''t''] else if n = 12 then [BACKSLASH, CHR ''f'']
     else if n = 8 then [BACKSLASH, CHR ''b'']
     else if 32 \<le> n \<and> n \<le> 126 then [c]
     else [BACKSLASH, CHR ''u'', CHR ''0'', CHR ''0'', hex_digit (n div 16), hex_digit (n mod 16)])"

definition quoted :: "string \<Rightarrow> string" where
  "quoted s = [QUOTE] @ concat (map escape_char s) @ [QUOTE]"

fun commas :: "string list \<Rightarrow> string" where
  "commas [] = []"
| "commas [w] = w"
| "commas (w # v # ws) = w @ '', '' @ commas (v # ws)"

fun json_dumps :: "json \<Rightarrow> string" where
  "json_dumps JNull = ''null''"
| "json_dumps (JBool b) = (if b then ''true'' else ''false'')"
| "json_dumps (JNum t) = t"
| "json_dumps (JStr s) = quoted s"
| "json_dumps (JList xs) = ''['' @ commas (map json_dumps xs) @ '']''"
| "json_dumps (JObj m) = ''{'' @ commas (map (\<lambda>(k, v). quoted k @ '': '' @ json_dumps v) m) @ ''}''"

section \<open>Python operations on a value\<close>

text \<open>\<open>v[k]\<close> and \<open>v.get(k)\<close> for a text \<open>k\<close>, \<open>for x in v\<close> and \<open>v[0]\<close>.\<close>

definition jitem :: "json \<Rightarrow> string \<Rightarrow> json res" where
  "jitem v k = (case v of JObj m \<Rightarrow> of_option (KeyError k) (map_of m k) | _ \<Rightarrow> Err TypeError)"

definition jget :: "json \<Rightarrow> string \<Rightarrow> json res" where
  "jget v k = (case v of JObj m \<Rightarrow> Ok (case map_of m k of None \<Rightarrow> JNull | Some x \<Rightarrow> x) | _ \<Rightarrow> Err AttributeError)"

definition jiter :: "json \<Rightarrow> json list res" where
  "jiter v = (case v of JList xs \<Rightarrow> Ok xs | JObj m \<Rightarrow> Ok (map (JStr \<circ> fst) m) | JStr s \<Rightarrow> Ok (map (\<lambda>c. JStr [c]) s) | _ \<Rightarrow> Err TypeError)"

definition jfirst :: "json \<Rightarrow> json res" where
  "jfirst v = (case v of JList (x # xs) \<Rightarrow> Ok x | JList [] \<Rightarrow> Err IndexError | JStr (c # s) \<Rightarrow> Ok (JStr [c])
     | JStr [] \<Rightarrow> Err IndexError | JObj m \<Rightarrow> Err (KeyError ''0'') | _ \<Rightarrow> Err TypeError)"

text \<open>\<open>if v\<close>; a number is false when its digits are zeros.\<close>

definition jtruth :: "json \<Rightarrow> bool" where
  "jtruth v = (case v of JNull \<Rightarrow> False | JBool b \<Rightarrow> b | JStr s \<Rightarrow> s \<noteq> [] | JList xs \<Rightarrow> xs \<noteq> [] | JObj m \<Rightarrow> m \<noteq> []
     | JNum t \<Rightarrow> \<not> list_all (\<lambda>c. c \<in> set ''0.-+'') (takeWhile (\<lambda>c. c \<notin> set ''eE'') t))"

text \<open>\<open>v.get(k)\<close> of a text, and a text itself.\<close>

definition jstr :: "pyerr \<Rightarrow> json \<Rightarrow> string res" where
  "jstr e v = (case v of JStr s \<Rightarrow> Ok s | _ \<Rightarrow> Err e)"

lemma jitem_Inr [res_iff]: "jitem v k = Inr x \<longleftrightarrow> (\<exists>m. v = JObj m \<and> map_of m k = Some x)"
  by (cases v) (auto simp: jitem_def res_iff)

lemma jget_Inr [res_iff]:
  "jget v k = Inr x \<longleftrightarrow> (\<exists>m. v = JObj m \<and> x = (case map_of m k of None \<Rightarrow> JNull | Some y \<Rightarrow> y))"
  by (cases v) (auto simp: jget_def)

lemma jstr_Inr [res_iff]: "jstr e v = Inr s \<longleftrightarrow> v = JStr s"
  by (cases v) (auto simp: jstr_def)

section \<open>Reading back what was written\<close>

lemma scan_string_step:
  "scan_string (c # r) = (if c = QUOTE then Some ([], r)
     else if c = BACKSLASH then (case unescape r of None \<Rightarrow> None | Some (x, r') \<Rightarrow> map_option (apfst (Cons x)) (scan_string r'))
     else if (of_char c :: nat) < 32 then None else map_option (apfst (Cons c)) (scan_string r))"
  by (subst scan_string.simps) simp

lemma char_codes: "char_of (8 :: nat) = CHR 0x08" "char_of (9 :: nat) = CHR 0x09" "char_of (10 :: nat) = CHR 0x0A"
  "char_of (12 :: nat) = CHR 0x0C" "char_of (13 :: nat) = CHR 0x0D"
  by (simp_all add: char_of_def bit_iff_odd)

lemma scan_escape: "scan_string (escape_char c @ t) = map_option (apfst (Cons c)) (scan_string t)"
proof -
  have "(of_char c :: nat) < 256" by simp
  then have n: "(of_char c :: nat) div 16 < 16" "(of_char c :: nat) mod 16 < 16"
    by (auto intro: less_mult_imp_div_less)
  have c: "c = char_of (of_char c :: nat)" by simp
  have bq: "BACKSLASH \<noteq> QUOTE" by (simp add: QUOTE_def BACKSLASH_def)
  consider (special) "c = QUOTE \<or> c = BACKSLASH" | (control) "of_char c \<in> {8, 9, 10, 12, 13 :: nat}"
    | (plain) "c \<noteq> QUOTE" "c \<noteq> BACKSLASH" "32 \<le> (of_char c :: nat)" "(of_char c :: nat) \<le> 126"
    | (hex) "c \<noteq> QUOTE" "c \<noteq> BACKSLASH" "(of_char c :: nat) \<notin> {8, 9, 10, 12, 13}" "\<not> (32 \<le> (of_char c :: nat) \<and> (of_char c :: nat) \<le> 126)"
    by auto
  then show ?thesis
  proof cases
    case special
    then have "escape_char c = [BACKSLASH, c]" by (auto simp: escape_char_def Let_def)
    moreover have "unescape (c # t) = Some (c, t)" using special by (auto simp: unescape_def)
    ultimately show ?thesis by (simp add: scan_string_step [of BACKSLASH] bq)
  next
    case control
    have "c \<in> char_of ` {8, 9, 10, 12, 13 :: nat}" using imageI [OF control, of char_of] by (simp only: char_of_char)
    then have "c \<in> {CHR 0x08, CHR 0x09, CHR 0x0A, CHR 0x0C, CHR 0x0D}" by (simp add: char_codes)
    then show ?thesis
      by (elim insertE emptyE) (simp_all add: escape_char_def Let_def scan_string_step [of BACKSLASH, unfolded BACKSLASH_def] unescape_def QUOTE_def BACKSLASH_def)
  next
    case plain
    then have "escape_char c = [c]" by (auto simp: escape_char_def Let_def)
    with plain show ?thesis by (simp add: scan_string_step [of c])
  next
    case hex
    let ?n = "of_char c :: nat"
    have e: "escape_char c = [BACKSLASH, CHR ''u'', CHR ''0'', CHR ''0'', hex_digit (?n div 16), hex_digit (?n mod 16)]"
      using hex by (auto simp: escape_char_def Let_def)
    have "char_of (16 * (?n div 16) + ?n mod 16) = c" unfolding mult_div_mod_eq by simp
    then have "unescape (CHR ''u'' # CHR ''0'' # CHR ''0'' # hex_digit (?n div 16) # hex_digit (?n mod 16) # t) = Some (c, t)"
      using n by (simp add: unescape_def QUOTE_def BACKSLASH_def hex_val_digit)
    then show ?thesis by (simp add: e scan_string_step [of BACKSLASH] bq)
  qed
qed

lemma scan_quoted: "scan_string (concat (map escape_char s) @ QUOTE # r) = Some (s, r)"
  by (induction s) (simp_all add: scan_escape scan_string_step [of QUOTE])

text \<open>The values that can be written: numbers in JSON's grammar, no key twice. \<open>ends\<close> is what may follow.\<close>

definition ends :: "string \<Rightarrow> bool" where
  "ends r \<longleftrightarrow> r = [] \<or> hd r \<in> {CHR '','', CHR '']'', CHR ''}''}"

fun json_ok :: "json \<Rightarrow> bool" where
  "json_ok (JNum t) = (t \<noteq> [] \<and> (take 1 t = ''-'' \<or> is_num_char (hd t)) \<and> number_length t = length t)"
| "json_ok (JList xs) = (\<forall>x \<in> set xs. json_ok x)"
| "json_ok (JObj m) = ((\<forall>p \<in> set m. json_ok (snd p)) \<and> distinct (map fst m))"
| "json_ok _ = True"

fun depth_of :: "json \<Rightarrow> nat" where
  "depth_of (JList xs) = Suc (sum_list (map depth_of xs))"
| "depth_of (JObj m) = Suc (sum_list (map (\<lambda>p. depth_of (snd p)) m))"
| "depth_of _ = 1"

lemma takeWhile_ends: "ends r \<Longrightarrow> takeWhile is_num_char (t @ r) = takeWhile is_num_char t"
  by (induction t) (cases r, auto simp: ends_def is_num_char_def)

lemma ends_parts: "ends r \<Longrightarrow> int_part r = 0" "ends r \<Longrightarrow> frac_part r = 0" "ends r \<Longrightarrow> exp_part r = 0"
  by (cases r; auto simp: ends_def int_part_def frac_part_def exp_part_def is_num_char_def Let_def)+

lemma number_length_ends: "ends r \<Longrightarrow> number_length t = length t \<Longrightarrow> t \<noteq> [] \<Longrightarrow> number_length (t @ r) = length t"
proof -
  assume r: "ends r" and n: "number_length t = length t" and ne: "t \<noteq> []"
  have i: "int_part (t @ r) = int_part t"
  proof (cases t)
    case (Cons c cs)
    then show ?thesis using takeWhile_ends [OF r, of cs] takeWhile_ends [OF r, of t]
      by (auto simp: int_part_def Let_def)
  qed (use ne in simp)
  have f: "frac_part (s @ r) = frac_part s" for s
  proof (cases s)
    case (Cons c cs)
    then show ?thesis using takeWhile_ends [OF r, of cs] by (auto simp: frac_part_def Let_def)
  qed (use ends_parts [OF r] in \<open>simp add: frac_part_def\<close>)
  have e: "exp_part (s @ r) = exp_part s" for s
  proof (cases s)
    case (Cons c cs)
    then show ?thesis using takeWhile_ends [OF r, of cs] takeWhile_ends [OF r, of "tl cs"]
      by (cases cs; cases r) (use r in \<open>auto simp: exp_part_def Let_def ends_def is_num_char_def neq_Nil_conv\<close>)
  qed (use ends_parts [OF r] in \<open>simp add: exp_part_def\<close>)
  have b: "int_part t \<le> length t" "int_part t + frac_part (drop (int_part t) t) \<le> length t"
    using n ne by (auto simp: number_length_def Let_def split: if_splits)
  show ?thesis
    using n ne b by (simp add: number_length_def Let_def i f e split: if_splits)
qed

definition starts_value :: "string \<Rightarrow> bool" where
  "starts_value s \<longleftrightarrow> (\<exists>c r. s = c # r \<and> \<not> is_json_space c \<and> c \<noteq> CHR '']'' \<and> c \<noteq> CHR ''}'')"

lemma starts_dumps: "json_ok v \<Longrightarrow> starts_value (json_dumps v)"
proof (cases v)
  case (JNum t)
  assume "json_ok v"
  with JNum show ?thesis by (cases t) (auto simp: starts_value_def is_json_space_def is_num_char_def)
qed (auto simp: starts_value_def is_json_space_def quoted_def QUOTE_def)

lemma jskip_value: "starts_value s \<Longrightarrow> jskip (s @ r) = s @ r"
  by (auto simp: starts_value_def jskip_def)

lemma jskip_plain [simp]: "jskip (CHR '','' # r) = CHR '','' # r" "jskip (CHR '']'' # r) = CHR '']'' # r"
  "jskip (CHR ''}'' # r) = CHR ''}'' # r" "jskip (CHR '':'' # r) = CHR '':'' # r" "jskip (CHR '' '' # r) = jskip r" "jskip [] = []"
  by (simp_all add: jskip_def is_json_space_def)

lemma scan_items_commas:
  assumes "\<And>x r. x \<in> set xs \<Longrightarrow> ends r \<Longrightarrow> p (f x @ r) = Some (x, r)" and "\<And>x. x \<in> set xs \<Longrightarrow> starts_value (f x)"
    and "xs \<noteq> []" "close \<in> {CHR '']'', CHR ''}''}" "length xs \<le> n"
  shows "scan_items p close n (commas (map f xs) @ close # r) = Some (xs, r)"
  using assms
proof (induction xs arbitrary: n)
  case (Cons x xs)
  from Cons.prems(5) obtain m where n: "n = Suc m" "length xs \<le> m" by (cases n) auto
  show ?case
  proof (cases xs)
    case Nil
    have "p (f x @ close # r) = Some (x, close # r)" using Cons.prems(1,4) by (auto simp: ends_def)
    with Nil Cons.prems(4) show ?thesis by (auto simp: n)
  next
    case (Cons y ys)
    have "p (f x @ '', '' @ commas (map f xs) @ close # r) = Some (x, '', '' @ commas (map f xs) @ close # r)"
      using Cons.prems(1) by (simp add: ends_def)
    moreover have "jskip (commas (map f xs) @ close # r) = commas (map f xs) @ close # r"
      using Cons.prems(2) [of y] Cons by (cases ys) (simp_all add: jskip_value)
    moreover have "scan_items p close m (commas (map f xs) @ close # r) = Some (xs, r)"
      using Cons.prems n Cons by (intro Cons.IH) auto
    ultimately show ?thesis using Cons.prems(4) Cons by (auto simp: n)
  qed
qed simp

lemma dict_of_distinct: "distinct (map fst m) \<Longrightarrow> dict_of m = m"
proof -
  have "distinct (map fst (d @ m)) \<Longrightarrow> foldl (\<lambda>d (k, v). AList.update k v d) d m = d @ m" for d :: "('a \<times> 'b) list"
  proof (induction m arbitrary: d)
    case (Cons p m)
    obtain k v where p: "p = (k, v)" by (cases p)
    have "AList.update k v d = d @ [(k, v)]" using Cons.prems by (induction d) (auto simp: p)
    then show ?case using Cons.IH [of "d @ [(k, v)]"] Cons.prems by (simp add: p)
  qed simp
  from this [of "[]"] show "distinct (map fst m) \<Longrightarrow> dict_of m = m" by (simp add: dict_of_def)
qed

lemma commas_length: "length xs \<le> length (commas (map f xs) @ c # r)"
  by (induction xs rule: induct_list012) simp_all

lemma commas_starts: "starts_value (f x) \<Longrightarrow> \<exists>c s. commas (map f (x # xs)) = c # s \<and> \<not> is_json_space c \<and> c \<noteq> CHR '']'' \<and> c \<noteq> CHR ''}''"
  by (cases xs) (auto simp: starts_value_def)

lemma scan_member_quoted:
  assumes "p (json_dumps v @ r) = Some (v, r)" and "json_ok v"
  shows "scan_member p ((quoted k @ '': '' @ json_dumps v) @ r) = Some ((k, v), r)"
  using assms scan_quoted [of k "'': '' @ json_dumps v @ r"]
  by (simp add: scan_member_def quoted_def jskip_value starts_dumps)

lemma scan_value_dumps:
  "json_ok v \<Longrightarrow> depth_of v \<le> k \<Longrightarrow> ends r \<Longrightarrow> scan_value k (json_dumps v @ r) = Some (v, r)"
proof (induction v arbitrary: k r rule: json_dumps.induct)
  case (3 t)
  then obtain c cs where t: "t = c # cs" by (cases t) auto
  have "number_length (t @ r) = length t" using 3 by (auto intro: number_length_ends)
  moreover have "c \<noteq> QUOTE" "c \<noteq> CHR ''[''" "c \<noteq> CHR ''{''" "c \<noteq> CHR ''n''" "c \<noteq> CHR ''t''" "c \<noteq> CHR ''f''"
    using 3 t by (auto simp: is_num_char_def QUOTE_def)
  ultimately show ?case using 3(2) t by (cases k) (simp_all add: scan_atom_def starts_with_def)
next
  case (4 s)
  then show ?case using scan_quoted [of s r] by (cases k) (simp_all add: quoted_def)
next
  case (5 xs)
  then obtain j where k: "k = Suc j" by (cases k) simp_all
  show ?case
  proof (cases xs)
    case Nil
    then show ?thesis by (simp add: k QUOTE_def)
  next
    case (Cons x ys)
    obtain c s where s: "commas (map json_dumps xs) = c # s" "\<not> is_json_space c" "c \<noteq> CHR '']''"
      using commas_starts [of json_dumps x ys] 5(2) Cons by (auto simp: starts_dumps)
    have "scan_items (scan_value j) (CHR '']'') (length (commas (map json_dumps xs) @ CHR '']'' # r)) (commas (map json_dumps xs) @ CHR '']'' # r) = Some (xs, r)"
    proof (rule scan_items_commas)
      fix x r' assume x: "x \<in> set xs" "ends r'"
      have "depth_of x \<le> j" using 5(3) k x member_le_sum_list [of "depth_of x" "map depth_of xs"] by force
      with 5(1) [OF x(1)] 5(2) x show "scan_value j (json_dumps x @ r') = Some (x, r')" by simp
    qed (use 5(2) Cons commas_length [of xs json_dumps "CHR '']''" r] in \<open>auto simp: starts_dumps\<close>)
    from this [unfolded s(1)] s show ?thesis by (simp add: k QUOTE_def jskip_def del: scan_items.simps)
  qed
next
  case (6 m)
  then obtain j where k: "k = Suc j" by (cases k) simp_all
  let ?f = "\<lambda>(k, v). quoted k @ '': '' @ json_dumps v"
  show ?case
  proof (cases m)
    case Nil
    then show ?thesis by (simp add: k QUOTE_def dict_of_def)
  next
    case (Cons x ys)
    have q: "starts_value (?f p)" for p by (cases p) (auto simp: starts_value_def quoted_def QUOTE_def is_json_space_def)
    obtain c s where s: "commas (map ?f m) = c # s" "\<not> is_json_space c" "c \<noteq> CHR ''}''"
      using commas_starts [of ?f x ys] q Cons by auto
    have "scan_items (scan_member (scan_value j)) (CHR ''}'') (length (commas (map ?f m) @ CHR ''}'' # r)) (commas (map ?f m) @ CHR ''}'' # r) = Some (m, r)"
    proof (rule scan_items_commas)
      fix p r' assume p: "p \<in> set m" "ends r'"
      obtain a b where ab: "p = (a, b)" by (cases p)
      have "depth_of b \<le> j" using 6(3) k p ab member_le_sum_list [of "depth_of b" "map (\<lambda>p. depth_of (snd p)) m"] by force
      with 6(1) [OF p(1) ab [symmetric]] 6(2) p ab have "scan_value j (json_dumps b @ r') = Some (b, r')" "json_ok b" by auto
      with scan_member_quoted [of "scan_value j" b r' a] show "scan_member (scan_value j) (?f p @ r') = Some (p, r')" by (simp add: ab)
    qed (use Cons q commas_length [of m ?f "CHR ''}''" r] in auto)
    from this [unfolded s(1)] s 6(2) show ?thesis
      by (simp add: k QUOTE_def jskip_def dict_of_distinct del: scan_items.simps)
  qed
qed (case_tac k; auto simp: scan_atom_def starts_with_def QUOTE_def)+

lemma sum_le_commas: "\<forall>x \<in> set xs. d x \<le> length (f x) \<Longrightarrow> sum_list (map d xs) \<le> length (commas (map f xs))"
proof (induction xs)
  case (Cons x xs)
  then show ?case by (cases xs) auto
qed simp

lemma depth_le_length: "json_ok v \<Longrightarrow> depth_of v \<le> length (json_dumps v)"
proof (induction v rule: json_dumps.induct)
  case (5 xs)
  then have "sum_list (map depth_of xs) \<le> length (commas (map json_dumps xs))" by (intro sum_le_commas) auto
  then show ?case by simp
next
  case (6 m)
  have "depth_of (snd p) \<le> length ((\<lambda>(k, v). quoted k @ '': '' @ json_dumps v) p)" if "p \<in> set m" for p
  proof (cases p)
    case (Pair k v)
    from 6(1) [OF that Pair [symmetric]] 6(2) that Pair have "depth_of v \<le> length (json_dumps v)" by auto
    then show ?thesis by (simp add: Pair)
  qed
  then have "sum_list (map (\<lambda>p. depth_of (snd p)) m) \<le> length (commas (map (\<lambda>(k, v). quoted k @ '': '' @ json_dumps v) m))"
    by (intro sum_le_commas) blast
  then show ?case by simp
qed (auto simp: Suc_le_eq quoted_def)

lemma json_loads_dumps: "json_ok v \<Longrightarrow> json_loads (json_dumps v) = Ok v"
  using scan_value_dumps [of v "Suc (length (json_dumps v))" "[]"] depth_le_length [of v] jskip_value [OF starts_dumps, of v "[]"]
  by (simp add: json_loads_def ends_def)

section \<open>Decimal numbers\<close>

lemma dec_nat_digits_only: "c \<in> set (dec_nat n) \<Longrightarrow> is_num_char c"
proof (induction n rule: dec_nat.induct)
  case (1 n)
  have d: "is_num_char (''0123456789'' ! (n mod 10))" unfolding is_num_char_def by (rule nth_mem) simp
  with 1 show ?case by (cases "n < 10") (auto simp: dec_nat.simps [of n])
qed

lemma dec_nat_hd: "dec_nat n \<noteq> [] \<and> (0 < n \<longrightarrow> hd (dec_nat n) \<noteq> CHR ''0'')"
proof (induction n rule: dec_nat.induct)
  case (1 n)
  show ?case
  proof (cases "n < 10")
    case True
    have "list_all (\<lambda>d. 0 < d \<longrightarrow> ''0123456789'' ! d \<noteq> CHR ''0'') [0..<10]" by (simp add: upt_rec)
    with True show ?thesis by (subst (1 2) dec_nat.simps) (simp add: list_all_iff)
  next
    case False
    then show ?thesis using 1 by (subst (1 2) dec_nat.simps) simp
  qed
qed

lemma json_ok_nat: "json_ok (JNum (dec (int n)))"
proof -
  let ?t = "dec_nat n"
  have d: "\<forall>c \<in> set ?t. is_num_char c" using dec_nat_digits_only by blast
  have ne: "?t \<noteq> []" "n > 0 \<Longrightarrow> hd ?t \<noteq> CHR ''0''" using dec_nat_hd by blast+
  obtain c r where c: "?t = c # r" "is_num_char c" using ne(1) d by (cases ?t) auto
  have z: "is_num_char (CHR ''0'')" by (simp add: is_num_char_def)
  have tw: "takeWhile is_num_char ?t = ?t" using d by simp
  have "take 1 ?t \<noteq> ''-''" using c by (auto simp: is_num_char_def)
  moreover have "n = 0 \<Longrightarrow> ?t = ''0''" by (simp add: dec_nat.simps)
  ultimately have "int_part ?t = length ?t" using ne by (cases "n = 0") (simp_all add: int_part_def Let_def tw z del: takeWhile_eq_all_conv)
  then have "number_length ?t = length ?t" using ne(1) by (simp add: number_length_def frac_part_def exp_part_def)
  then show ?thesis using c by (simp add: dec_def)
qed

lemma json_ok_int: "json_ok (JNum (dec n))"
proof (cases "n < 0")
  case True
  let ?t = "dec_nat (nat (- n))"
  have d: "\<forall>c \<in> set ?t. is_num_char c" using dec_nat_digits_only by blast
  have ne: "?t \<noteq> []" "hd ?t \<noteq> CHR ''0''" using dec_nat_hd [of "nat (- n)"] True by auto
  have tw: "takeWhile is_num_char ?t = ?t" using d by simp
  have "int_part (''-'' @ ?t) = length (''-'' @ ?t)" using ne by (simp add: int_part_def Let_def tw del: takeWhile_eq_all_conv)
  then have "number_length (''-'' @ ?t) = length (''-'' @ ?t)" by (simp add: number_length_def frac_part_def exp_part_def)
  then show ?thesis using True by (simp add: dec_def)
next
  case False
  then show ?thesis using json_ok_nat [of "nat n"] by simp
qed

text \<open>\<open>int\<close> reads back the text of a number.\<close>

lemma digits_value_snoc: "digits_value (ds @ [c]) = 10 * digits_value ds + (of_char c - 48)"
  by (simp add: digits_value_def)

lemma digits_value_dec_nat: "digits_value (dec_nat n) = int n"
proof (induction n rule: dec_nat.induct)
  case (1 n)
  have "list_all (\<lambda>d. (of_char (''0123456789'' ! d) :: int) = 48 + int d) [0..<10]" by (simp add: upt_rec)
  then have d: "(of_char (''0123456789'' ! d) :: int) = 48 + int d" if "d < 10" for d using that by (simp add: list_all_iff)
  show ?case
  proof (cases "n < 10")
    case True
    then show ?thesis using d [of n] by (subst dec_nat.simps) (simp add: digits_value_def)
  next
    case False
    have "10 * int (n div 10) + int (n mod 10) = int n" by (metis mult_div_mod_eq of_nat_add of_nat_mult of_nat_numeral)
    then show ?thesis using False 1 d [of "n mod 10"] by (subst dec_nat.simps) (simp add: digits_value_snoc)
  qed
qed

lemma num_char_digit: "is_num_char c \<Longrightarrow> is_digit c \<and> \<not> is_space c \<and> c \<noteq> CHR 0x5F \<and> c \<noteq> CHR ''-'' \<and> c \<noteq> CHR ''+''"
  by (auto simp: is_num_char_def is_digit_def is_space_def)

lemma py_int_dec_nat: "py_int (dec (int n)) = Ok (int n)"
proof -
  have c: "is_digit c \<and> \<not> is_space c \<and> c \<noteq> CHR 0x5F \<and> c \<noteq> CHR ''-'' \<and> c \<noteq> CHR ''+''" if "c \<in> set (dec_nat n)" for c
    using that dec_nat_digits_only num_char_digit by blast
  obtain x r where x: "dec_nat n = x # r" using dec_nat_hd [of n] by (cases "dec_nat n") auto
  have "take 1 (dec_nat n) \<notin> {''-'', ''+''}" "take 1 (dec_nat n) \<noteq> ''-''" using c [of x] by (auto simp: x)
  moreover have "split_on (CHR 0x5F) (dec_nat n) = [dec_nat n]" by (rule split_on_free) (use c in blast)
  moreover have "strip (dec_nat n) = dec_nat n" by (rule strip_no_space) (use c in blast)
  ultimately show ?thesis using c digits_value_dec_nat [of n] by (simp add: py_int_def dec_def Let_def list_all_iff x)
qed

section \<open>Bytes and UTF-8\<close>

text \<open>\<open>bytes.decode()\<close> on the characters of the model; other sequences are refused.\<close>

fun utf8_decode :: "bytes \<Rightarrow> string option" where
  "utf8_decode [] = Some []"
| "utf8_decode (x # r) =
     (if unat x < 128 then map_option (Cons (char_of (unat x))) (utf8_decode r)
      else (case r of [] \<Rightarrow> None | y # r' \<Rightarrow>
        if unat x div 4 = 48 \<and> unat x mod 4 \<ge> 2 \<and> unat y div 64 = 2
        then map_option (Cons (char_of (unat x mod 4 * 64 + unat y mod 64))) (utf8_decode r') else None))"

definition json_loads_bytes :: "bytes \<Rightarrow> json res" where
  "json_loads_bytes b = (case utf8_decode b of None \<Rightarrow> Err (Raised ''UnicodeDecodeError'' '''') | Some s \<Rightarrow> json_loads s)"

lemma lead_byte: "q < 4 \<Longrightarrow> (192 + q) div 4 = 48 \<and> (192 + q) mod 4 = (q :: nat)"
proof -
  assume "q < 4"
  then have "q = 0 \<or> q = 1 \<or> q = 2 \<or> q = 3" by arith
  then show ?thesis by auto
qed

lemma utf8_decode_utf8: "utf8_decode (utf8 s) = Some s"
proof (induction s)
  case (Cons c s)
  let ?n = "of_char c :: nat"
  show ?case
  proof (cases "?n < 128")
    case True
    then have "unat (word_of_nat ?n :: byte) = ?n" by (simp add: unat_of_nat)
    with True Cons show ?thesis by (simp add: utf8_def utf8_char_def Let_def)
  next
    case False
    have "?n < 256" by simp
    then have q: "?n div 64 < 4" by (auto intro: less_mult_imp_div_less)
    have "unat (word_of_nat (192 + ?n div 64) :: byte) = 192 + ?n div 64" "unat (word_of_nat (128 + ?n mod 64) :: byte) = 128 + ?n mod 64"
      using q by (simp_all add: unat_of_nat del: of_nat_add)
    moreover have "2 \<le> ?n div 64" using False by (simp add: less_eq_div_iff_mult_less_eq)
    moreover have "(192 + ?n div 64) div 4 = 48" "(192 + ?n div 64) mod 4 = ?n div 64" using lead_byte [OF q] by simp_all
    moreover have "(128 + ?n mod 64) div 64 = 2" "(128 + ?n mod 64) mod 64 = ?n mod 64"
      using mod_mult_self3 [of 2 64 "?n mod 64"] by simp_all
    moreover have "char_of (?n div 64 * 64 + ?n mod 64) = c" unfolding div_mult_mod_eq by simp
    ultimately show ?thesis using False Cons
      by (simp add: utf8_def utf8_char_def Let_def del: of_nat_add)
  qed
qed (simp add: utf8_def)

lemma json_loads_bytes_dumps: "json_ok v \<Longrightarrow> json_loads_bytes (utf8 (json_dumps v)) = Ok v"
  by (simp add: json_loads_bytes_def utf8_decode_utf8 json_loads_dumps)

end
