(* ===== verification/EarlyAttest.thy ===== *)
theory EarlyAttest
  imports Handshake Certs Json
begin

text \<open>
  The Section 5.1.2 client of \<open>early-attestation/verify.py\<close>, the mock-chip experiment of
  \<open>poc_mock.py\<close> and the offline verification of a two-guest run, \<open>verify_run.py\<close>. A guest
  directory is a record of its files; the KDS is the function \<open>get\<close>.
\<close>

section \<open>verify.py\<close>

record client_verdict =
  binder_match :: bool
  report_signature_ok :: bool
  accept :: bool
  cv_chip_id :: string
  cv_report_id :: string

definition verify :: "'c pki \<Rightarrow> bytes \<Rightarrow> bytes \<Rightarrow> bytes \<Rightarrow> 'c \<Rightarrow> string \<Rightarrow> client_verdict res" where
  "verify P transcript server_spki_der report chip_cert hn =
     rbind (server_binder transcript server_spki_der hn) (\<lambda>b. rbind (into_report_data b) (\<lambda>want.
     let f = parse_report report;
         binder_ok = (e_report_data f = want);
         signature_ok = client_sig_ok P report chip_cert
     in Ok \<lparr>binder_match = binder_ok, report_signature_ok = signature_ok,
            accept = (binder_ok \<and> signature_ok), cv_chip_id = e_chip_id f, cv_report_id = e_report_id f\<rparr>))"

section \<open>poc_mock.py\<close>

text \<open>
  \<open>u\<close> and \<open>u'\<close> are the two \<open>os.urandom(64)\<close> draws, \<open>n\<close> and \<open>n'\<close> the REPORT_IDs the chips draw.
  \<open>S\<close> is the honest server's chip, \<open>A\<close> the attacker's; both sign for the key \<open>spki_S\<close>.
\<close>

definition HN :: string where "HN = ''sha384''"

definition tr_honest :: "bytes \<Rightarrow> bytes" where
  "tr_honest u = utf8 ''CH||SH honest client<->S '' @ u"

definition tr_attack :: "bytes \<Rightarrow> bytes" where
  "tr_attack u = utf8 ''CH||SH attacker<->client '' @ u"

definition attest_with :: "mock_chip \<Rightarrow> bytes \<Rightarrow> bytes \<Rightarrow> bytes \<Rightarrow> bytes res" where
  "attest_with c rnd tr spki = rbind (server_binder tr spki HN) (\<lambda>b.
     rbind (into_report_data b) (\<lambda>rd. sign_report c rnd rd))"

definition poc_mock :: "'c pki \<Rightarrow> mock_chip \<Rightarrow> 'c \<Rightarrow> mock_chip \<Rightarrow> 'c \<Rightarrow> bytes \<Rightarrow> bytes \<Rightarrow> bytes \<Rightarrow> bytes \<Rightarrow> bytes
    \<Rightarrow> (client_verdict \<times> client_verdict \<times> client_verdict) res" where
  "poc_mock P S certS A certA spki_S u u' n n' =
     rbind (attest_with S n (tr_honest u) spki_S) (\<lambda>rep_honest.
     rbind (verify P (tr_honest u) spki_S rep_honest certS HN) (\<lambda>res_honest.
     rbind (attest_with A n' (tr_attack u') spki_S) (\<lambda>rep_attack.
     rbind (verify P (tr_attack u') spki_S rep_attack certA HN) (\<lambda>res_attack.
     rbind (verify P (tr_attack u') spki_S rep_honest certS HN) (\<lambda>res_relay_naive.
     rbind (rassert (accept res_honest \<and> cv_chip_id res_honest = hex (mc_chip_id S)) AssertionError) (\<lambda>_.
     rbind (rassert (accept res_attack \<and> cv_chip_id res_attack = hex (mc_chip_id A)) AssertionError) (\<lambda>_.
     rbind (rassert (\<not> binder_match res_relay_naive) AssertionError) (\<lambda>_.
     Ok (res_honest, res_attack, res_relay_naive)))))))))"

section \<open>verify_run.py\<close>

text \<open>
  The files of a guest directory, \<open>None\<close> when absent: \<open>hs_file\<close> is the text of \<open>cap-hs.json\<close> and \<open>meta\<close>
  that of \<open>metadata.txt\<close>.
\<close>

record guest_dir =
  cap_transcript :: "bytes option"
  spki_file :: "bytes option"
  report_binder :: "bytes option"
  hs_file :: "string option"
  meta :: "string option"
  cert_vcek :: "bytes option"

record guest_verdict =
  gv_role :: "string option"
  gv_region :: "string option"
  gv_instance :: "string option"
  gv_spki_sha256 :: string
  gv_transcript_sha256 :: string
  gv_signing_key :: "signing_key option"
  gv_chip_id :: string
  gv_binder_match :: bool
  gv_report_signature_ok :: bool
  gv_chain :: "bool option"
  gv_hwid :: "bool option"
  gv_accept :: bool

definition read_file :: "'a option \<Rightarrow> 'a res" where
  "read_file f = of_option FileNotFoundError f"

text \<open>\<open>json.load(open(...))["hash"]\<close>, and the value as a key of \<open>HASHES\<close>, which has only texts: a list or a
  dictionary cannot be looked up. Without the file the hash is sha384.\<close>

definition hash_field :: "string \<Rightarrow> json res" where
  "hash_field t = rbind (json_loads t) (\<lambda>v. jitem v ''hash'')"

definition hash_name :: "json \<Rightarrow> string res" where
  "hash_name v = (case v of JStr s \<Rightarrow> Ok s | JList _ \<Rightarrow> Err TypeError | JObj _ \<Rightarrow> Err TypeError | _ \<Rightarrow> Err (KeyError ''''))"

definition hs_value :: "guest_dir \<Rightarrow> json res" where
  "hs_value d = (case hs_file d of Some t \<Rightarrow> hash_field t | None \<Rightarrow> Ok (JStr ''sha384''))"

text \<open>\<open>try: ... except Exception: pass\<close> around a value that was \<open>None\<close> before.\<close>

definition try_opt :: "'a res \<Rightarrow> 'a option" where
  "try_opt r = (case r of Inl _ \<Rightarrow> None | Inr x \<Rightarrow> Some x)"

text \<open>The VCEK: the file of the guest, else the KDS by CHIP_ID and TCB (a failed fetch leaves \<open>None\<close>).\<close>

definition find_vcek :: "'c pki \<Rightarrow> fetch \<Rightarrow> guest_dir \<Rightarrow> bytes \<Rightarrow> 'c option res" where
  "find_vcek P get d rep =
     rbind (case cert_vcek d of None \<Rightarrow> Ok None | Some c \<Rightarrow> rbind (run_load_cert P c) (\<lambda>x. Ok (Some x))) (\<lambda>given.
     rbind (unpack_le 8 rep 0x180) (\<lambda>t.
     Ok (case given of Some c \<Rightarrow> Some c
         | None \<Rightarrow> try_opt (rbind (get (vcek_url ''Milan'' (hex (chip_id_of rep)) (tcb_parts t))) (run_load_cert P)))))"

text \<open>\<open>chain_ok(vcek, chain) if (vcek and chain) else None\<close>, the chain fetched from the KDS.\<close>

definition fetch_chain :: "'c pki \<Rightarrow> fetch \<Rightarrow> 'c list option" where
  "fetch_chain P get = try_opt (rbind (get (chain_url ''vcek'' ''Milan'')) (load_pem_chain P))"

definition chain_verified :: "'c pki \<Rightarrow> 'c option \<Rightarrow> 'c list option \<Rightarrow> bool option" where
  "chain_verified P vcek chain = (case (vcek, chain) of
     (Some c, Some (x # xs)) \<Rightarrow> Some (run_chain_ok P c (x # xs)) | _ \<Rightarrow> None)"

definition one :: "'c pki \<Rightarrow> fetch \<Rightarrow> guest_dir \<Rightarrow> guest_verdict res" where
  "one P get d =
     rbind (read_file (cap_transcript d)) (\<lambda>tr.
     rbind (read_file (spki_file d)) (\<lambda>spki.
     rbind (read_file (report_binder d)) (\<lambda>raw.
     let rep = take 1184 raw in
     rbind (hs_value d) (\<lambda>hv.
     rbind (read_file (meta d)) (\<lambda>lines. let mt = key_values (split_on (CHR 0x0A) lines) in
     rbind (hash_name hv) (\<lambda>hn. rbind (server_binder tr spki hn) (\<lambda>b. rbind (into_report_data b) (\<lambda>want.
     let bm = (report_data_of rep = want); chip = hex (chip_id_of rep) in
     rbind (find_vcek P get d rep) (\<lambda>vcek.
     let so = (case vcek of Some c \<Rightarrow> run_sig_ok P rep c | None \<Rightarrow> False);
         cv = chain_verified P vcek (fetch_chain P get);
         hw = (case vcek of Some c \<Rightarrow> hwid_equals P c chip | None \<Rightarrow> None)
     in rbind (unpack_le 4 rep 0x48) (\<lambda>flags.
     Ok \<lparr>gv_role = map_of mt ''role'', gv_region = map_of mt ''zone'', gv_instance = map_of mt ''instance'',
         gv_spki_sha256 = take 16 (hex (sha256 spki)), gv_transcript_sha256 = take 16 (hex (sha256 tr)),
         gv_signing_key = signing_key_opt flags, gv_chip_id = chip, gv_binder_match = bm,
         gv_report_signature_ok = so, gv_chain = cv, gv_hwid = hw,
         gv_accept = (bm \<and> so \<and> cv = Some True)\<rparr>))))))))))"

record run_verdict =
  rv_server :: guest_verdict
  rv_attacker :: guest_verdict
  rv_same_key :: bool
  rv_diff_chip :: bool
  rv_server_in_attacker :: bool
  rv_attacker_in_server :: bool
  rv_confirmed :: bool

definition binder_of :: "guest_dir \<Rightarrow> bytes res" where
  "binder_of d = rbind (read_file (cap_transcript d)) (\<lambda>tr. rbind (read_file (spki_file d)) (\<lambda>spki.
     rbind (rbind (read_file (hs_file d)) hash_field) (\<lambda>hv. rbind (hash_name hv) (\<lambda>hn.
     rbind (server_binder tr spki hn) into_report_data))))"

definition report_data_file :: "guest_dir \<Rightarrow> bytes res" where
  "report_data_file d = rbind (read_file (report_binder d)) (\<lambda>raw. Ok (report_data_of (take 1184 raw)))"

text \<open>
  \<open>main\<close>: the decision table is printed with format specifications (\<open>{role:8}\<close>, \<open>{region:16}\<close>),
  which \<open>None\<close> does not support.
\<close>

definition verify_run_main :: "'c pki \<Rightarrow> fetch \<Rightarrow> guest_dir \<Rightarrow> guest_dir \<Rightarrow> run_verdict res" where
  "verify_run_main P get server_dir attacker_dir =
     rbind (one P get server_dir) (\<lambda>S. rbind (one P get attacker_dir) (\<lambda>A.
     rbind (rassert (\<forall>r \<in> {S, A}. gv_role r \<noteq> None \<and> gv_region r \<noteq> None) TypeError) (\<lambda>_.
     rbind (report_data_file server_dir) (\<lambda>srd. rbind (binder_of attacker_dir) (\<lambda>ab.
     rbind (report_data_file attacker_dir) (\<lambda>ard. rbind (binder_of server_dir) (\<lambda>sb.
     let same_key = (gv_spki_sha256 S = gv_spki_sha256 A); diff_chip = (gv_chip_id S \<noteq> gv_chip_id A) in
     Ok \<lparr>rv_server = S, rv_attacker = A, rv_same_key = same_key, rv_diff_chip = diff_chip,
         rv_server_in_attacker = (srd = ab), rv_attacker_in_server = (ard = sb),
         rv_confirmed = (gv_accept A \<and> diff_chip \<and> same_key)\<rparr>)))))))"

section \<open>Lemmas\<close>

text \<open>The definitions over the one set of certificate checks.\<close>

lemmas verify_eqn = verify_def [unfolded cert_copies]
lemmas find_vcek_eqn = find_vcek_def [unfolded cert_copies]
lemmas chain_verified_eqn = chain_verified_def [unfolded cert_copies]
lemmas one_eqn = one_def [unfolded cert_copies]

lemma try_opt_Some_iff [res_iff]: "try_opt r = Some x \<longleftrightarrow> r = Inr x"
  by (cases r) (simp_all add: try_opt_def)

lemma read_file_Inr_iff [res_iff]: "read_file f = Inr x \<longleftrightarrow> f = Some x"
  by (simp add: read_file_def res_iff)

lemma hash_name_Inr_iff [res_iff]: "hash_name v = Inr h \<longleftrightarrow> v = JStr h"
  by (cases v) (simp_all add: hash_name_def)

lemma chain_verified_iff:
  "chain_verified P vcek chain = Some True \<longleftrightarrow> (\<exists>c ask ark rest. vcek = Some c \<and> chain = Some (ask # ark # rest) \<and>
     issued P ask c \<and> issued P ark ask \<and> issued P ark ark)"
  by (cases vcek; cases chain) (auto simp: chain_verified_eqn chain_ok_iff split: list.splits)

lemma find_vcek_Some:
  assumes "find_vcek P get d rep = Inr (Some cert)"
  shows "case cert_vcek d of Some c \<Rightarrow> load_cert P c = Inr cert
    | None \<Rightarrow> rbind (get (vcek_url ''Milan'' (hex (chip_id_of rep)) (tcb_parts (from_little (slice rep 0x180 0x188)))))
        (load_cert P) = Inr cert"
  using assms by (cases "cert_vcek d") (auto simp: find_vcek_eqn res_iff)

lemma verify_value:
  assumes "HASHES hn = Inr h"
  shows "verify P tr spki rep c hn = Inr
     (let bm = (report_data_of rep = binder_value h tr spki @ zeros (64 - digest_size h)) in
      \<lparr>binder_match = bm, report_signature_ok = sig_ok P rep c, accept = (bm \<and> sig_ok P rep c),
       cv_chip_id = hex (chip_id_of rep), cv_report_id = hex (report_id_of rep)\<rparr>)"
  using into_report_data_binder [OF HASHES_hash_fn [OF assms]]
  by (simp add: verify_eqn server_binder_value [OF assms] parse_report_def Let_def)

lemma verify_ok_iff: "is_ok (verify P tr spki rep c hn) \<longleftrightarrow> is_ok (HASHES hn)"
proof (cases "HASHES hn")
  case (Inl e)
  then show ?thesis by (simp add: verify_eqn server_binder_def)
next
  case (Inr h)
  then show ?thesis by (simp add: verify_value)
qed

text \<open>A chip of the attested kind: 64-byte identifier, and signatures that fit the report's
  fields and verify under its certificate.\<close>

definition genuine :: "'c pki \<Rightarrow> mock_chip \<Rightarrow> 'c \<Rightarrow> bool" where
  "genuine P c cert \<longleftrightarrow> length (mc_chip_id c) = 64 \<and>
     (\<forall>m. ecdsa384_ok P cert (mc_sign c m) m \<and>
        0 \<le> fst (mc_sign c m) \<and> fst (mc_sign c m) < 256 ^ 48 \<and>
        0 \<le> snd (mc_sign c m) \<and> snd (mc_sign c m) < 256 ^ 48)"

lemma genuine_signs:
  assumes "genuine P c cert" "length rd = 64"
  shows "\<exists>rep. sign_report c rnd rd = Inr rep"
proof -
  let ?m = "take 0x2A0 (mock_body (mc_chip_id c) rnd rd)"
  obtain r s where sg: "mc_sign c ?m = (r, s)" by fastforce
  have "0 \<le> r \<and> r < 256 ^ 48 \<and> 0 \<le> s \<and> s < 256 ^ 48"
    using assms(1) sg unfolding genuine_def by (metis fst_conv snd_conv)
  then show ?thesis using assms(2) by (simp add: sign_report_def Let_def sg to_bytes_little_def)
qed

lemma sha384_report_data:
  "length (binder_value sha384_alg tr spki @ zeros 16) = 64"
  by (simp add: length_binder_value sha384h.hash_fn_axioms)

lemma attest_with_genuine:
  assumes "genuine P c cert" "length rnd = 32"
  obtains rep where "attest_with c rnd tr spki = Inr rep" "sig_ok P rep cert"
    "report_data_of rep = binder_value sha384_alg tr spki @ zeros 16" "chip_id_of rep = mc_chip_id c"
    "length rep = 1184"
proof -
  let ?rd = "binder_value sha384_alg tr spki @ zeros 16"
  obtain rep where rep: "sign_report c rnd ?rd = Inr rep"
    using genuine_signs [OF assms(1) sha384_report_data] by blast
  have len: "length (mc_chip_id c) = 64" using assms(1) by (simp add: genuine_def)
  note f = sign_report_fields [OF rep len assms(2)]
  have rd: "into_report_data (binder_value sha384_alg tr spki) = Inr ?rd"
    using into_report_data_binder [OF sha384h.hash_fn_axioms, of tr spki] by simp
  have "attest_with c rnd tr spki = Inr rep"
    by (simp add: attest_with_def HN_def server_binder_value [OF HASHES_known(2)] rd rep)
  moreover have "sig_ok P rep cert"
    using assms(1) by (intro sign_report_sig_ok [OF rep len assms(2)]) (simp add: genuine_def)
  ultimately show ?thesis using f that by blast
qed

lemma tr_differ: "tr_honest u \<noteq> tr_attack u'"
proof -
  have h: "tr_honest u ! 7 = char_byte (CHR ''h'')" and a: "tr_attack u' ! 7 = char_byte (CHR ''a'')"
    by (simp_all add: tr_honest_def tr_attack_def utf8_ascii is_ascii_def)
  show ?thesis
  proof
    assume "tr_honest u = tr_attack u'"
    with h a have "char_byte (CHR ''h'') = char_byte (CHR ''a'')" by simp
    then show False using char_byte_inj by blast
  qed
qed

lemmas verify_sha384 = verify_value [OF HASHES_known(2), folded HN_def, unfolded Let_def]

section \<open>Properties\<close>

text \<open>The 5.1.2 client accepts exactly the reports whose REPORT_DATA is the zero-padded binder of
  the transcript and key it saw and whose signature verifies under the certificate it was given,
  and it fails only on an unknown hash name. In particular any genuine chip that is asked to sign
  that REPORT_DATA is accepted, whichever machine it is, and the verdict names that chip: the
  binder does not identify the endpoint.\<close>

theorem client_accepts_any_genuine_chip:
  assumes "genuine P c cert" and "length rnd = 32"
  shows "\<exists>rep v. attest_with c rnd tr spki = Inr rep \<and> verify P tr spki rep cert HN = Inr v
    \<and> accept v \<and> cv_chip_id v = hex (mc_chip_id c)"
proof -
  obtain rep where "attest_with c rnd tr spki = Inr rep" "sig_ok P rep cert"
    "report_data_of rep = binder_value sha384_alg tr spki @ zeros 16" "chip_id_of rep = mc_chip_id c" "length rep = 1184"
    using assms by (rule attest_with_genuine)
  then show ?thesis by (simp add: verify_sha384)
qed

text \<open>A concrete world for the witnesses: certificates are numbers, every signature is \<open>(1, 2)\<close>.\<close>

definition demo_pki :: "nat pki" where
  "demo_pki = \<lparr>ecdsa384_ok = (\<lambda>c rs m. rs = (1, 2)), is_rsa = (\<lambda>c. True),
     rsa_issued = (\<lambda>p c. (p, c) \<in> {(3, 2), (4, 3), (4, 4)}), ec_issued = (\<lambda>p c. False),
     exts = (\<lambda>c. [(HWID_OID, zeros 64)]), subject = (\<lambda>c. ''CN=demo''), spki_der = (\<lambda>c. [word_of_nat c]),
     load_pem = (\<lambda>b. Ok 2), load_der = (\<lambda>b. Ok 2), load_pem_chain = (\<lambda>b. Ok [3, 4]),
     issue_error = (\<lambda>p c. ''InvalidSignature()'')\<rparr>"

definition demo_chip :: "byte \<Rightarrow> mock_chip" where
  "demo_chip x = \<lparr>mc_chip_id = replicate 64 x, mc_sign = (\<lambda>m. (1, 2))\<rparr>"

lemma demo_genuine: "genuine demo_pki (demo_chip x) c"
  by (simp add: genuine_def demo_pki_def demo_chip_def)

theorem client_accepts_any_genuine_chip_witness:
  "\<exists>rep v. attest_with (demo_chip 7) (zeros 32) [1, 2] [3] = Inr rep
    \<and> verify demo_pki [1, 2] [3] rep 0 HN = Inr v \<and> accept v \<and> cv_chip_id v = hex (replicate 64 7)"
  using client_accepts_any_genuine_chip [OF demo_genuine [of 7 0], of "zeros 32" "[1, 2]" "[3]"]
  by (simp add: demo_chip_def)

text \<open>C14: One report, one session. If the client accepts the same report for two pairs of transcript
  and server key, the pairs are equal, or the two derivations contain a collision of the hash
  between corresponding inputs. So a report recorded in one session is rejected in every other.\<close>

theorem report_binds_one_session:
  assumes "HASHES hn = Inr h"
    and "verify P tr spki rep c hn = Inr v" and "accept v"
    and "verify P tr' spki' rep c' hn = Inr v'" and "accept v'"
  shows "(tr = tr' \<and> spki = spki') \<or> hash_collision h (binder_hash_inputs h tr spki) (binder_hash_inputs h tr' spki')"
proof -
  from assms have "binder_value h tr spki = binder_value h tr' spki'"
    by (auto simp: verify_value Let_def)
  then show ?thesis using binder_clash [OF HASHES_hash_fn [OF assms(1)]] by blast
qed

theorem report_binds_one_session_witness:
  "\<exists>rep v. attest_with (demo_chip 7) (zeros 32) [1, 2] [3] = Inr rep
     \<and> verify demo_pki [1, 2] [3] rep 0 ''sha384'' = Inr v \<and> accept v
     \<and> (([1, 2 :: byte] = [1, 2] \<and> [3 :: byte] = [3]) \<or>
       hash_collision sha384_alg (binder_hash_inputs sha384_alg [1, 2] [3]) (binder_hash_inputs sha384_alg [1, 2] [3]))"
proof -
  obtain rep where rep: "attest_with (demo_chip 7) (zeros 32) [1, 2] [3] = Inr rep" "sig_ok demo_pki rep 0"
    "report_data_of rep = binder_value sha384_alg [1, 2] [3] @ zeros 16" "chip_id_of rep = mc_chip_id (demo_chip 7)" "length rep = 1184"
    by (rule attest_with_genuine [OF demo_genuine length_zeros])
  then obtain v where v: "verify demo_pki [1, 2] [3] rep 0 ''sha384'' = Inr v" "accept v"
    by (simp add: verify_value [OF HASHES_known(2)])
  show ?thesis
    using report_binds_one_session [OF HASHES_known(2) v v] rep(1) v by blast
qed

text \<open>The experiment of \<open>poc_mock.py\<close> ends as it claims for every pair of genuine chips and every
  draw of randomness: the honest session is accepted with S's chip, the leaked-key attack is accepted
  with A's chip, and the naive relay fails the binder, unless SHA-384 collides on the inputs of the
  two sessions (then the script stops on its last assertion).\<close>

theorem poc_mock_result:
  assumes "genuine P S certS" and "genuine P A certA" and "length n = 32" and "length n' = 32"
  shows "(\<exists>vh va vr. poc_mock P S certS A certA spki u u' n n' = Inr (vh, va, vr) \<and> accept vh \<and> accept va
      \<and> cv_chip_id vh = hex (mc_chip_id S) \<and> cv_chip_id va = hex (mc_chip_id A)
      \<and> report_signature_ok vr \<and> \<not> accept vr)
    \<or> hash_collision sha384_alg (binder_hash_inputs sha384_alg (tr_honest u) spki)
        (binder_hash_inputs sha384_alg (tr_attack u') spki)"
proof -
  obtain rh where rh: "attest_with S n (tr_honest u) spki = Inr rh" "sig_ok P rh certS"
    "report_data_of rh = binder_value sha384_alg (tr_honest u) spki @ zeros 16" "chip_id_of rh = mc_chip_id S" "length rh = 1184"
    using assms(1,3) by (rule attest_with_genuine)
  obtain ra where ra: "attest_with A n' (tr_attack u') spki = Inr ra" "sig_ok P ra certA"
    "report_data_of ra = binder_value sha384_alg (tr_attack u') spki @ zeros 16" "chip_id_of ra = mc_chip_id A" "length ra = 1184"
    using assms(2,4) by (rule attest_with_genuine)
  show ?thesis
  proof (cases "binder_value sha384_alg (tr_honest u) spki = binder_value sha384_alg (tr_attack u') spki")
    case True
    then show ?thesis
      using binder_clash [OF sha384h.hash_fn_axioms True] tr_differ by blast
  next
    case False
    then show ?thesis by (simp add: poc_mock_def rh ra verify_sha384)
  qed
qed

theorem poc_mock_result_witness:
  "(\<exists>vh va vr. poc_mock demo_pki (demo_chip 1) 0 (demo_chip 2) 0 [3] (zeros 64) (zeros 64) (zeros 32) (zeros 32)
        = Inr (vh, va, vr) \<and> accept vh \<and> accept va
      \<and> cv_chip_id vh = hex (mc_chip_id (demo_chip 1)) \<and> cv_chip_id va = hex (mc_chip_id (demo_chip 2))
      \<and> report_signature_ok vr \<and> \<not> accept vr)
    \<or> hash_collision sha384_alg (binder_hash_inputs sha384_alg (tr_honest (zeros 64)) [3])
        (binder_hash_inputs sha384_alg (tr_attack (zeros 64)) [3])"
  by (rule poc_mock_result [OF demo_genuine demo_genuine]) simp_all

text \<open>C15: What \<open>verify_run.py\<close> accepts: the report carries the binder of the captured transcript and
  key, and some certificate, the one in the guest's directory or else the one the KDS serves for the
  report's own CHIP_ID and TCB, verifies its signature and chains through two KDS certificates.\<close>

theorem verify_run_accept_sound:
  assumes "one P get d = Inr v" and "gv_accept v"
  shows "\<exists>tr spki rep b rd cert ask ark rest. cap_transcript d = Some tr \<and> spki_file d = Some spki
    \<and> map_option (take 1184) (report_binder d) = Some rep
    \<and> (\<exists>hn. hs_value d = Inr (JStr hn) \<and> server_binder tr spki hn = Inr b)
    \<and> into_report_data b = Inr rd \<and> report_data_of rep = rd \<and> sig_ok P rep cert
    \<and> issued P ask cert \<and> issued P ark ask \<and> issued P ark ark
    \<and> rbind (get (chain_url ''vcek'' ''Milan'')) (load_pem_chain P) = Inr (ask # ark # rest)
    \<and> (case cert_vcek d of Some c \<Rightarrow> load_cert P c = Inr cert
        | None \<Rightarrow> rbind (get (vcek_url ''Milan'' (gv_chip_id v) (tcb_parts (from_little (slice rep 0x180 0x188)))))
            (load_cert P) = Inr cert)
    \<and> gv_chip_id v = hex (chip_id_of rep)"
proof -
  from assms(1) obtain tr spki raw mtext b rd vcek flags where
      files: "cap_transcript d = Some tr" "spki_file d = Some spki" "report_binder d = Some raw" "meta d = Some mtext"
    and b: "\<exists>hn. hs_value d = Inr (JStr hn) \<and> server_binder tr spki hn = Inr b" "into_report_data b = Inr rd"
    and vcek: "find_vcek P get d (take 1184 raw) = Inr vcek"
    and v: "gv_chip_id v = hex (chip_id_of (take 1184 raw))"
      "gv_accept v \<longleftrightarrow> report_data_of (take 1184 raw) = rd
        \<and> (case vcek of Some c \<Rightarrow> sig_ok P (take 1184 raw) c | None \<Rightarrow> False)
        \<and> chain_verified P vcek (fetch_chain P get) = Some True"
    unfolding one_eqn Let_def by (clarsimp simp only: rbind_Inr_iff read_file_Inr_iff hash_name_Inr_iff Inr_inject guest_verdict.simps) blast
  from v(2) assms(2) obtain cert ask ark rest where c: "vcek = Some cert" "sig_ok P (take 1184 raw) cert"
      "report_data_of (take 1184 raw) = rd" "fetch_chain P get = Some (ask # ark # rest)"
      "issued P ask cert" "issued P ark ask" "issued P ark ark"
    by (auto simp: chain_verified_iff)
  from c(4) have "rbind (get (chain_url ''vcek'' ''Milan'')) (load_pem_chain P) = Inr (ask # ark # rest)"
    by (simp only: fetch_chain_def try_opt_Some_iff)
  with files b c v(1) find_vcek_Some [OF vcek [unfolded c(1)]] show ?thesis by (simp only: option.map) blast
qed

definition demo_dir :: "bytes \<Rightarrow> string option \<Rightarrow> guest_dir" where
  "demo_dir rep hs = \<lparr>cap_transcript = Some [1, 2], spki_file = Some [3], report_binder = Some rep,
     hs_file = hs, meta = Some (''role=server'' @ CHR 0x0A # ''zone=us''), cert_vcek = Some [0]\<rparr>"

definition demo_hs :: string where
  "demo_hs = json_dumps (JObj [(''hash'', JStr ''sha384'')])"

lemma demo_one:
  assumes "hs = None \<or> hs = Some demo_hs"
  obtains rep v where "one demo_pki (\<lambda>u. Ok []) (demo_dir rep hs) = Inr v" "gv_accept v"
    "gv_role v = Some ''server''" "gv_region v = Some ''us''"
proof -
  obtain rep where rep: "attest_with (demo_chip 7) (zeros 32) [1, 2] [3] = Inr rep" "sig_ok demo_pki rep 2"
    "report_data_of rep = binder_value sha384_alg [1, 2] [3] @ zeros 16" "chip_id_of rep = mc_chip_id (demo_chip 7)"
    "length rep = 1184"
    by (rule attest_with_genuine [OF demo_genuine length_zeros])
  have "hash_field demo_hs = Inr (JStr ''sha384'')"
    by (simp add: hash_field_def demo_hs_def json_loads_dumps jitem_def del: json_dumps.simps)
  then have hn: "hs_value (demo_dir rep hs) = Inr (JStr ''sha384'')" using assms by (auto simp: hs_value_def demo_dir_def)
  have rd: "into_report_data (binder_value sha384_alg [1, 2] [3]) = Inr (binder_value sha384_alg [1, 2] [3] @ zeros 16)"
    using into_report_data_binder [OF sha384h.hash_fn_axioms, of "[1, 2]" "[3]"] by simp
  have ld: "load_cert demo_pki [0] = Inr 2" by (simp add: load_cert_def demo_pki_def)
  have ch: "fetch_chain demo_pki (\<lambda>u. Ok []) = Some [3, 4]"
    by (simp add: fetch_chain_def demo_pki_def try_opt_def)
  have cv: "chain_verified demo_pki (Some 2) (Some [3, 4]) = Some True"
    by (simp add: chain_verified_eqn chain_ok_def issued_def demo_pki_def)
  have "find_vcek demo_pki (\<lambda>u. Ok []) (demo_dir rep hs) rep = Inr (Some 2)"
    by (simp add: find_vcek_eqn demo_dir_def ld unpack_le_def rep(5))
  moreover have "unpack_le 4 rep 0x48 = Inr (from_little (slice rep 0x48 (0x48 + 4)))"
    by (simp add: unpack_le_def rep(5))
  moreover have "key_values (split_on (CHR 0x0A) (''role=server'' @ CHR 0x0A # ''zone=us''))
      = [(''role'', ''server''), (''zone'', ''us'')]"
    by (simp add: key_values_def split_eq_def)
  ultimately have "\<exists>v. one demo_pki (\<lambda>u. Ok []) (demo_dir rep hs) = Inr v \<and> gv_accept v
      \<and> gv_role v = Some ''server'' \<and> gv_region v = Some ''us''"
    using rep hn by (simp add: one_eqn demo_dir_def read_file_def hash_name_def
        server_binder_value [OF HASHES_known(2)] rd ch cv Let_def)
  then show ?thesis using that by blast
qed

theorem verify_run_accept_sound_witness:
  "\<exists>rep v cert ask ark. one demo_pki (\<lambda>u. Ok []) (demo_dir rep (Some demo_hs)) = Inr v \<and> gv_accept v
     \<and> sig_ok demo_pki (take 1184 rep) cert \<and> issued demo_pki ask cert \<and> issued demo_pki ark ask \<and> issued demo_pki ark ark"
proof -
  obtain rep v where v: "one demo_pki (\<lambda>u. Ok []) (demo_dir rep (Some demo_hs)) = Inr v" "gv_accept v"
    by (rule demo_one [of "Some demo_hs"]) simp_all
  have raw: "report_binder (demo_dir rep hs) = Some rep" for hs by (simp add: demo_dir_def)
  from verify_run_accept_sound [OF v] obtain cert ask ark where
      "sig_ok demo_pki (take 1184 rep) cert" "issued demo_pki ask cert" "issued demo_pki ark ask" "issued demo_pki ark ark"
    by (auto simp: raw)
  with v show ?thesis by blast
qed

text \<open>\<open>verify_run.py\<close> treats \<open>cap-hs.json\<close> in two ways: the verification of a guest falls back to
  sha384 when the file is missing, while the control printed after the decision table opens it
  unconditionally. So a run whose two guests are both judged, the attacker's without that file, ends
  in \<open>FileNotFoundError\<close> and writes no result.\<close>

theorem verify_run_needs_hs_json:
  assumes "one P get S = Inr s" and "one P get A = Inr a"
    and "gv_role s \<noteq> None" "gv_region s \<noteq> None" "gv_role a \<noteq> None" "gv_region a \<noteq> None"
    and "hs_file A = None"
  shows "verify_run_main P get S A = Inl FileNotFoundError"
proof -
  from assms(1) obtain raw where "report_binder S = Some raw"
    unfolding one_eqn Let_def by (clarsimp simp only: rbind_Inr_iff read_file_Inr_iff)
  moreover from assms(2) obtain tr spki where "cap_transcript A = Some tr" "spki_file A = Some spki"
    unfolding one_eqn Let_def by (clarsimp simp only: rbind_Inr_iff read_file_Inr_iff)
  ultimately show ?thesis
    using assms by (simp add: verify_run_main_def report_data_file_def binder_of_def read_file_def)
qed

theorem verify_run_needs_hs_json_witness:
  "\<exists>rep v. one demo_pki (\<lambda>u. Ok []) (demo_dir rep None) = Inr v \<and> gv_accept v
     \<and> verify_run_main demo_pki (\<lambda>u. Ok []) (demo_dir rep None) (demo_dir rep None) = Inl FileNotFoundError"
proof -
  obtain rep v where v: "one demo_pki (\<lambda>u. Ok []) (demo_dir rep None) = Inr v" "gv_accept v"
    "gv_role v = Some ''server''" "gv_region v = Some ''us''"
    by (rule demo_one [of None]) simp_all
  have "hs_file (demo_dir rep None) = None" by (simp add: demo_dir_def)
  then show ?thesis using verify_run_needs_hs_json [OF v(1) v(1)] v by auto
qed

end
