(* ===== verification/Tacra.thy ===== *)
theory Tacra
  imports EarlyAttest
begin

text \<open>
  The Credential Authority of \<open>tacra/tacra_verify.py\<close>: its checks before a credential is issued
  for the key of a certificate signing request. The request parser comes from the certificate
  package, so it is the record \<open>csr_lib\<close>; the files of a run are a record.
\<close>

section \<open>The run directory and the verdict\<close>

record 'r csr_lib =
  load_csr :: "bytes \<Rightarrow> 'r res"
  csr_signature_valid :: "'r \<Rightarrow> bool"
  csr_spki :: "'r \<Rightarrow> bytes"

record tacra_dir =
  ca_nonce :: "string option"
  csr_file :: "bytes option"
  report_tacra :: "bytes option"
  td_cert_vcek :: "bytes option"
  csk_pub :: "bytes option"

text \<open>\<open>tv_ca_nonce\<close> is the printed prefix, without the ellipsis after it.\<close>

record tacra_verdict =
  tv_chip_id :: string
  tv_signing_key :: "signing_key option"
  tv_binding_ok :: bool
  tv_signature_ok :: bool
  tv_chain :: "bool option"
  tv_hwid :: "bool option"
  tv_pop_ok :: bool
  tv_cskpub_match :: bool
  tv_issue :: bool
  tv_cskpub_sha256 :: string
  tv_ca_nonce :: string

text \<open>\<open>load_cert(open(p).read()) if os.path.exists(p) else None\<close>.\<close>

definition load_if_present :: "'c pki \<Rightarrow> bytes option \<Rightarrow> 'c option res" where
  "load_if_present P f = (case f of None \<Rightarrow> Ok None | Some b \<Rightarrow> rbind (tacra_load_cert P b) (\<lambda>c. Ok (Some c)))"

text \<open>\<open>chain_ok(vcek, chain) if (vcek and chain) else None\<close>.\<close>

definition tacra_chain_verified :: "'c pki \<Rightarrow> 'c option \<Rightarrow> 'c list option \<Rightarrow> bool option" where
  "tacra_chain_verified P vcek chain = (case (vcek, chain) of
     (Some c, Some (x # xs)) \<Rightarrow> Some (tacra_chain_ok P c (x # xs)) | _ \<Rightarrow> None)"

definition tacra_main :: "'c pki \<Rightarrow> fetch \<Rightarrow> 'r csr_lib \<Rightarrow> tacra_dir \<Rightarrow> tacra_verdict res" where
  "tacra_main P get R d =
     rbind (read_file (ca_nonce d)) (\<lambda>nonce_text. let nonce_hex = strip nonce_text in
     rbind (unhex nonce_hex) (\<lambda>nonce.
     rbind (read_file (csr_file d)) (\<lambda>csr_der.
     rbind (read_file (report_tacra d)) (\<lambda>raw.
     let rep = take 1184 raw;
         chip = hex (chip_id_of rep);
         want = sha512 (nonce @ csr_der);
         binding_ok = (report_data_of rep = want) in
     rbind (load_if_present P (td_cert_vcek d)) (\<lambda>vcek.
     let signature_ok = (case vcek of Some c \<Rightarrow> tacra_sig_ok P rep c | None \<Rightarrow> False);
         cv = tacra_chain_verified P vcek (fetch_chain P get);
         hwid_eq = (case vcek of Some c \<Rightarrow> hwid_equals P c chip | None \<Rightarrow> None) in
     rbind (load_csr R csr_der) (\<lambda>csr.
     let pop_ok = csr_signature_valid R csr;
         cskpub_der = csr_spki R csr;
         cskpub_match = (csk_pub d = None \<or> csk_pub d = Some cskpub_der);
         issue = (binding_ok \<and> signature_ok \<and> cv = Some True \<and> pop_ok \<and> cskpub_match) in
     rbind (unpack_le 4 rep 0x48) (\<lambda>flags.
     Ok \<lparr>tv_chip_id = chip, tv_signing_key = signing_key_opt flags, tv_binding_ok = binding_ok,
         tv_signature_ok = signature_ok, tv_chain = cv, tv_hwid = hwid_eq, tv_pop_ok = pop_ok,
         tv_cskpub_match = cskpub_match, tv_issue = issue,
         tv_cskpub_sha256 = take 16 (hex (sha256 cskpub_der)), tv_ca_nonce = take 16 nonce_hex\<rparr>)))))))"

section \<open>Lemmas\<close>

text \<open>The definitions over the one set of certificate checks.\<close>

lemma tacra_chain_verified_eq: "tacra_chain_verified = chain_verified"
  by (intro ext) (unfold tacra_chain_verified_def chain_verified_eqn cert_copies, rule refl)

lemmas load_if_present_eqn = load_if_present_def [unfolded cert_copies]
lemmas tacra_main_eqn = tacra_main_def [unfolded cert_copies tacra_chain_verified_eq]

lemma load_if_present_Some_iff:
  "load_if_present P f = Inr (Some c) \<longleftrightarrow> (\<exists>b. f = Some b \<and> load_cert P b = Inr c)"
  by (cases f) (auto simp: load_if_present_eqn res_iff)

text \<open>What the Authority has established when it says issue, over the files of the run.\<close>

definition enrolled :: "'c pki \<Rightarrow> fetch \<Rightarrow> 'r csr_lib \<Rightarrow> tacra_dir \<Rightarrow> bytes \<Rightarrow> bytes \<Rightarrow> bytes \<Rightarrow> 'c \<Rightarrow> bool" where
  "enrolled P get R d nonce csr rep cert \<longleftrightarrow>
     map_option (unhex \<circ> strip) (ca_nonce d) = Some (Inr nonce) \<and> csr_file d = Some csr
     \<and> map_option (take 1184) (report_tacra d) = Some rep
     \<and> map_option (load_cert P) (td_cert_vcek d) = Some (Inr cert)
     \<and> report_data_of rep = sha512 (nonce @ csr) \<and> sig_ok P rep cert
     \<and> (\<exists>ask ark rest. rbind (get (chain_url ''vcek'' ''Milan'')) (load_pem_chain P) = Inr (ask # ark # rest)
          \<and> issued P ask cert \<and> issued P ark ask \<and> issued P ark ark)
     \<and> (\<exists>r. load_csr R csr = Inr r \<and> csr_signature_valid R r
          \<and> (csk_pub d = None \<or> csk_pub d = Some (csr_spki R r)))"

lemma fetched_chain_verified:
  "chain_verified P (Some c) (fetch_chain P get) = Some True \<longleftrightarrow>
     (\<exists>ask ark rest. rbind (get (chain_url ''vcek'' ''Milan'')) (load_pem_chain P) = Inr (ask # ark # rest)
        \<and> issued P ask c \<and> issued P ark ask \<and> issued P ark ark)"
  unfolding chain_verified_iff fetch_chain_def try_opt_Some_iff by simp

lemma tacra_run:
  assumes "tacra_main P get R d = Inr v"
  obtains t nonce csr raw vcek r where "ca_nonce d = Some t" "unhex (strip t) = Inr nonce"
    "csr_file d = Some csr" "report_tacra d = Some raw" "load_if_present P (td_cert_vcek d) = Inr vcek"
    "load_csr R csr = Inr r" "tv_hwid v = (case vcek of Some c \<Rightarrow> hwid_equals P c (hex (chip_id_of (take 1184 raw))) | None \<Rightarrow> None)"
    "tv_issue v \<longleftrightarrow> report_data_of (take 1184 raw) = sha512 (nonce @ csr)
       \<and> (case vcek of Some c \<Rightarrow> sig_ok P (take 1184 raw) c | None \<Rightarrow> False)
       \<and> chain_verified P vcek (fetch_chain P get) = Some True \<and> csr_signature_valid R r
       \<and> (csk_pub d = None \<or> csk_pub d = Some (csr_spki R r))"
  using assms unfolding tacra_main_eqn Let_def rbind_Inr_iff read_file_Inr_iff Inr_inject
  by (elim exE conjE) (rule that, assumption+, (drule sum.inject(2) [THEN iffD1], hypsubst, simp only: tacra_verdict.simps)+)

text \<open>A run of a genuine chip: its report over the nonce and the request, and the world of the
  witnesses, where a request is its own bytes.\<close>

definition demo_csr :: "bytes csr_lib" where
  "demo_csr = \<lparr>load_csr = (\<lambda>b. Ok b), csr_signature_valid = (\<lambda>r. True), csr_spki = (\<lambda>r. [5])\<rparr>"

definition tacra_demo_dir :: "bytes \<Rightarrow> tacra_dir" where
  "tacra_demo_dir rep = \<lparr>ca_nonce = Some ''0aff '', csr_file = Some [3, 2], report_tacra = Some rep,
     td_cert_vcek = Some [0], csk_pub = Some [5]\<rparr>"

lemma demo_unhex: "unhex (strip ''0aff '') = Inr [10, 255]"
proof -
  have "strip ''0aff '' = hex [10, 255]"
    by (simp add: strip_def is_space_def hex_def hex_byte_def hex_digit_def Let_def)
  then show ?thesis by simp
qed

lemma tacra_demo:
  obtains rep v where "sign_report (demo_chip 7) (zeros 32) (sha512 ([10, 255] @ [3, 2])) = Inr rep" "length rep = 1184"
    "tacra_main demo_pki (\<lambda>u. Ok []) demo_csr (tacra_demo_dir rep) = Inr v" "tv_issue v" "tv_hwid v = Some False"
proof -
  let ?rd = "sha512 ([10, 255] @ [3, 2])"
  have l: "length ?rd = 64" using sha512h.length_digest [of "[10, 255] @ [3, 2]"] by (simp add: sha512_alg_def)
  obtain rep where rep: "sign_report (demo_chip 7) (zeros 32) ?rd = Inr rep"
    using genuine_signs [OF demo_genuine l, of 7 "zeros 32"] by blast
  have c: "length (mc_chip_id (demo_chip 7)) = 64" by (simp add: demo_chip_def)
  note f = sign_report_fields [OF rep c length_zeros]
  have sig: "sig_ok demo_pki rep 2"
    by (rule sign_report_sig_ok [OF rep c length_zeros]) (simp add: demo_chip_def demo_pki_def)
  have ld: "load_if_present demo_pki (Some [0]) = Inr (Some 2)"
    by (simp add: load_if_present_eqn load_cert_def demo_pki_def)
  have cv: "chain_verified demo_pki (Some 2) (fetch_chain demo_pki (\<lambda>u. Ok [])) = Some True"
    unfolding fetched_chain_verified by (simp add: demo_pki_def issued_def)
  have "chip_id_of rep = replicate 64 7" using f(4) by (simp add: demo_chip_def)
  moreover have "last_n 64 (zeros 64) = zeros 64" by (simp add: last_n_def)
  moreover have "zeros 64 \<noteq> replicate 64 (7 :: byte)" by (simp add: zeros_def)
  ultimately have hw: "hwid_equals demo_pki 2 (hex (chip_id_of rep)) = Some False"
    by (simp add: hwid_equals_def ext_value_def demo_pki_def)
  have "\<exists>v. tacra_main demo_pki (\<lambda>u. Ok []) demo_csr (tacra_demo_dir rep) = Inr v \<and> tv_issue v \<and> tv_hwid v = Some False"
    using f(2,3) unfolding tacra_main_eqn
    by (simp add: tacra_demo_dir_def demo_csr_def read_file_def demo_unhex ld cv sig hw unpack_le_def Let_def)
  then show ?thesis using that [OF rep f(2)] by blast
qed

lemma tacra_run_enrolled:
  assumes "tacra_main P get R d = Inr v" "tv_issue v"
  shows "\<exists>nonce csr rep cert. enrolled P get R d nonce csr rep cert"
proof -
  obtain t nonce csr raw vcek r where f: "ca_nonce d = Some t" "unhex (strip t) = Inr nonce"
    "csr_file d = Some csr" "report_tacra d = Some raw" "load_if_present P (td_cert_vcek d) = Inr vcek"
    "load_csr R csr = Inr r"
    and i: "tv_issue v \<longleftrightarrow> report_data_of (take 1184 raw) = sha512 (nonce @ csr)
       \<and> (case vcek of Some c \<Rightarrow> sig_ok P (take 1184 raw) c | None \<Rightarrow> False)
       \<and> chain_verified P vcek (fetch_chain P get) = Some True \<and> csr_signature_valid R r
       \<and> (csk_pub d = None \<or> csk_pub d = Some (csr_spki R r))"
    using assms(1) by (rule tacra_run)
  with assms(2) obtain c where c: "vcek = Some c" by (auto split: option.splits)
  with f(5) obtain b where "td_cert_vcek d = Some b" "load_cert P b = Inr c"
    by (auto simp: load_if_present_Some_iff)
  with c f i assms(2) have "enrolled P get R d nonce csr (take 1184 raw) c"
    by (simp add: enrolled_def fetched_chain_verified)
  then show ?thesis by blast
qed

section \<open>Properties\<close>

text \<open>C5: The Authority issues exactly for an enrolled request: REPORT_DATA is the SHA-512 of its nonce
  and the request, the certificate of the run verifies the report and chains through two certificates
  of the KDS, the request's own signature verifies, and the shipped key, if any, is the request's key.\<close>

theorem tacra_issue_iff:
  assumes "tacra_main P get R d = Inr v"
  shows "tv_issue v \<longleftrightarrow> (\<exists>nonce csr rep cert. enrolled P get R d nonce csr rep cert)"
proof
  assume "\<exists>nonce csr rep cert. enrolled P get R d nonce csr rep cert"
  then obtain n csr rep cert where e: "enrolled P get R d n csr rep cert" by blast
  obtain t nonce csr raw vcek r where f: "ca_nonce d = Some t" "unhex (strip t) = Inr nonce"
    "csr_file d = Some csr" "report_tacra d = Some raw" "load_if_present P (td_cert_vcek d) = Inr vcek"
    "load_csr R csr = Inr r"
    and i: "tv_issue v \<longleftrightarrow> report_data_of (take 1184 raw) = sha512 (nonce @ csr)
       \<and> (case vcek of Some c \<Rightarrow> sig_ok P (take 1184 raw) c | None \<Rightarrow> False)
       \<and> chain_verified P vcek (fetch_chain P get) = Some True \<and> csr_signature_valid R r
       \<and> (csk_pub d = None \<or> csk_pub d = Some (csr_spki R r))"
    using assms by (rule tacra_run)
  from e f(5) have "vcek = Some cert" by (auto simp: enrolled_def load_if_present_eqn)
  with e f show "tv_issue v" by (auto simp: i enrolled_def fetched_chain_verified)
qed (rule tacra_run_enrolled [OF assms])

theorem tacra_issue_iff_witness:
  "\<exists>rep v nonce csr r cert. tacra_main demo_pki (\<lambda>u. Ok []) demo_csr (tacra_demo_dir rep) = Inr v
     \<and> tv_issue v \<and> enrolled demo_pki (\<lambda>u. Ok []) demo_csr (tacra_demo_dir rep) nonce csr r cert"
proof -
  obtain rep v where v: "tacra_main demo_pki (\<lambda>u. Ok []) demo_csr (tacra_demo_dir rep) = Inr v" "tv_issue v"
    by (rule tacra_demo)
  with tacra_issue_iff [OF v(1)] show ?thesis by blast
qed

text \<open>A report enrolls one request. If the same report enrolls under two nonces of the same length,
  the nonces and the requests are equal, or the two concatenations collide under SHA-512. (Without the
  length condition the concatenation itself is ambiguous.)\<close>

theorem tacra_one_request:
  assumes "enrolled P get R d n csr rep c" and "enrolled P get' R' d' n' csr' rep c'" and "length n = length n'"
  shows "(n = n' \<and> csr = csr') \<or> hash_collision sha512_alg [n @ csr] [n' @ csr']"
  using assms by (auto simp: enrolled_def hash_collision_def sha512_alg_def)

theorem tacra_one_request_witness:
  "\<exists>rep n csr r cert. enrolled demo_pki (\<lambda>u. Ok []) demo_csr (tacra_demo_dir rep) n csr r cert
     \<and> ((n = n \<and> csr = csr) \<or> hash_collision sha512_alg [n @ csr] [n @ csr])"
proof -
  obtain rep v where v: "tacra_main demo_pki (\<lambda>u. Ok []) demo_csr (tacra_demo_dir rep) = Inr v" "tv_issue v"
    by (rule tacra_demo)
  obtain n csr r cert where e: "enrolled demo_pki (\<lambda>u. Ok []) demo_csr (tacra_demo_dir rep) n csr r cert"
    using tacra_run_enrolled [OF v] by blast
  show ?thesis using tacra_one_request [OF e e] e by blast
qed

end
