(* ===== verification/Cbor.thy ===== *)
theory Cbor
  imports PyText
begin

text \<open>
  The values \<open>cbor2\<close> reads and writes, as \<open>trip_chain.py\<close>, \<open>trip_example.py\<close> and \<open>cbor_diag.py\<close>
  handle them, with the Python operations those scripts apply to a decoded value whatever its
  type: subscription, membership, \<open>.get\<close>, \<open>.values()\<close>, unpacking, truth, hashing. The codec
  itself is a package, so it is a record of two functions; the last section has a small concrete
  codec with its round trip, for the witnesses of the theorems that assume one.
\<close>

section \<open>Values\<close>

text \<open>A float is known by its \<open>repr\<close>, its \<open>hex()\<close> and the integer it equals, if any; a decoded
  date by its \<open>int(timestamp())\<close>. A dictionary keeps its insertion order.\<close>

datatype pyfloat = PyFloat (fl_repr: string) (fl_hex: string) (fl_int: "int option")

datatype cbor =
    CInt int
  | CBytes bytes
  | CText string
  | CBool bool
  | CNull
  | CFloat pyfloat
  | CList "cbor list"
  | CMap "(cbor \<times> cbor) list"
  | CTag int cbor
  | CDate int

record codec =
  dumps :: "cbor \<Rightarrow> bytes"
  loads :: "bytes \<Rightarrow> cbor res"

text \<open>\<open>cbor2.loads(x)\<close> for a value that should be bytes.\<close>

definition loads_value :: "codec \<Rightarrow> cbor \<Rightarrow> cbor res" where
  "loads_value K v = (case v of CBytes b \<Rightarrow> loads K b | _ \<Rightarrow> Err TypeError)"

section \<open>Operations on a decoded value\<close>

text \<open>Equality with an integer: \<open>True == 1\<close> and \<open>1.0 == 1\<close> in Python.\<close>

definition equals_int :: "cbor \<Rightarrow> int \<Rightarrow> bool" where
  "equals_int v n = (case v of CInt m \<Rightarrow> m = n | CBool b \<Rightarrow> n = (if b then 1 else 0)
     | CFloat f \<Rightarrow> fl_int f = Some n | _ \<Rightarrow> False)"

definition lookup_int :: "(cbor \<times> cbor) list \<Rightarrow> int \<Rightarrow> cbor option" where
  "lookup_int m n = map_option snd (List.find (\<lambda>(k, v). equals_int k n) m)"

text \<open>Position \<open>n\<close> of a sequence of length \<open>l\<close>, counted from the end when negative.\<close>

definition seq_index :: "nat \<Rightarrow> int \<Rightarrow> nat res" where
  "seq_index l n = (if 0 \<le> n \<and> n < int l then Ok (nat n)
     else if n < 0 \<and> 0 \<le> int l + n then Ok (nat (int l + n)) else Err IndexError)"

text \<open>\<open>v[n]\<close> for an integer \<open>n\<close>.\<close>

definition item :: "cbor \<Rightarrow> int \<Rightarrow> cbor res" where
  "item v n = (case v of
     CMap m \<Rightarrow> of_option (KeyError (dec n)) (lookup_int m n)
   | CList xs \<Rightarrow> rbind (seq_index (length xs) n) (\<lambda>i. Ok (xs ! i))
   | CBytes b \<Rightarrow> rbind (seq_index (length b) n) (\<lambda>i. Ok (CInt (uint (b ! i))))
   | CText s \<Rightarrow> rbind (seq_index (length s) n) (\<lambda>i. Ok (CText [s ! i]))
   | _ \<Rightarrow> Err TypeError)"

text \<open>\<open>n in v\<close>.\<close>

definition contains_int :: "cbor \<Rightarrow> int \<Rightarrow> bool res" where
  "contains_int v n = (case v of
     CMap m \<Rightarrow> Ok (lookup_int m n \<noteq> None)
   | CList xs \<Rightarrow> Ok (list_ex (\<lambda>x. equals_int x n) xs)
   | CBytes b \<Rightarrow> if 0 \<le> n \<and> n < 256 then Ok (word_of_int n \<in> set b) else Err ValueError
   | _ \<Rightarrow> Err TypeError)"

definition get_int :: "cbor \<Rightarrow> int \<Rightarrow> cbor res" where
  "get_int v n = (case v of
     CMap m \<Rightarrow> Ok (case lookup_int m n of None \<Rightarrow> CNull | Some x \<Rightarrow> x) | _ \<Rightarrow> Err AttributeError)"

definition map_values :: "cbor \<Rightarrow> cbor list res" where
  "map_values v = (case v of CMap m \<Rightarrow> Ok (map snd m) | _ \<Rightarrow> Err AttributeError)"

text \<open>\<open>v[k]\<close> and \<open>v.get(k)\<close> for a text \<open>k\<close>, and \<open>for x in v\<close>.\<close>

definition item_text :: "cbor \<Rightarrow> string \<Rightarrow> cbor res" where
  "item_text v k = (case v of CMap m \<Rightarrow> of_option (KeyError k) (map_of m (CText k)) | _ \<Rightarrow> Err TypeError)"

definition get_text :: "cbor \<Rightarrow> string \<Rightarrow> cbor res" where
  "get_text v k = (case v of CMap m \<Rightarrow> Ok (case map_of m (CText k) of None \<Rightarrow> CNull | Some x \<Rightarrow> x) | _ \<Rightarrow> Err AttributeError)"

definition iterate :: "cbor \<Rightarrow> cbor list res" where
  "iterate v = (case v of CList xs \<Rightarrow> Ok xs | CMap m \<Rightarrow> Ok (map fst m) | CBytes b \<Rightarrow> Ok (map (\<lambda>x. CInt (uint x)) b)
     | CText s \<Rightarrow> Ok (map (\<lambda>c. CText [c]) s) | _ \<Rightarrow> Err TypeError)"

text \<open>\<open>a, b, c, d = v\<close>.\<close>

fun four :: "'a list \<Rightarrow> ('a \<times> 'a \<times> 'a \<times> 'a) res" where
  "four [a, b, c, d] = Ok (a, b, c, d)"
| "four _ = Err ValueError"

definition unpack4 :: "cbor \<Rightarrow> (cbor \<times> cbor \<times> cbor \<times> cbor) res" where
  "unpack4 v = (case v of
     CList xs \<Rightarrow> four xs
   | CMap m \<Rightarrow> four (map fst m)
   | CBytes b \<Rightarrow> four (map (\<lambda>x. CInt (uint x)) b)
   | CText s \<Rightarrow> four (map (\<lambda>c. CText [c]) s)
   | _ \<Rightarrow> Err TypeError)"

text \<open>Lists and dictionaries, and tags that hold one, have no hash.\<close>

fun hashable :: "cbor \<Rightarrow> bool" where
  "hashable (CList xs) = False"
| "hashable (CMap m) = False"
| "hashable (CTag t v) = hashable v"
| "hashable _ = True"

fun truth :: "cbor \<Rightarrow> bool" where
  "truth (CInt n) = (n \<noteq> 0)"
| "truth (CBytes b) = (b \<noteq> [])"
| "truth (CText s) = (s \<noteq> [])"
| "truth (CBool b) = b"
| "truth CNull = False"
| "truth (CFloat f) = (fl_int f \<noteq> Some 0)"
| "truth (CList xs) = (xs \<noteq> [])"
| "truth (CMap m) = (m \<noteq> [])"
| "truth (CTag t v) = True"
| "truth (CDate n) = True"

text \<open>\<open>uuid.UUID(bytes=v)\<close> accepts: it measures \<open>v\<close> first and asserts its type after.\<close>

definition uuid_value :: "cbor \<Rightarrow> bytes res" where
  "uuid_value v = (case v of
     CBytes b \<Rightarrow> if length b = 16 then Ok b else Err ValueError
   | CText s \<Rightarrow> Err (if length s = 16 then AssertionError else ValueError)
   | CList xs \<Rightarrow> Err (if length xs = 16 then AssertionError else ValueError)
   | CMap m \<Rightarrow> Err (if length m = 16 then AssertionError else ValueError)
   | CNull \<Rightarrow> Err TypeError
   | _ \<Rightarrow> Err TypeError)"

text \<open>\<open>v.hex()\<close>: bytes and floats have it.\<close>

definition hex_method :: "cbor \<Rightarrow> string res" where
  "hex_method v = (case v of CBytes b \<Rightarrow> Ok (hex b) | CFloat f \<Rightarrow> Ok (fl_hex f) | _ \<Rightarrow> Err AttributeError)"

text \<open>The bytes a COSE signature is over, before they are encoded: no external data.\<close>

definition sig_structure :: "cbor \<Rightarrow> cbor \<Rightarrow> cbor" where
  "sig_structure protected payload = CList [CText ''Signature1'', protected, CBytes [], payload]"

text \<open>What a decoder returns for an encoded value: epoch-time tags become dates.\<close>

fun decoded :: "cbor \<Rightarrow> cbor" where
  "decoded (CList xs) = CList (map decoded xs)"
| "decoded (CMap m) = CMap (map (\<lambda>(k, v). (decoded k, decoded v)) m)"
| "decoded (CTag t v) = (if t = 1 then (case decoded v of CInt n \<Rightarrow> CDate n | v' \<Rightarrow> CTag t v') else CTag t (decoded v))"
| "decoded v = v"

text \<open>The documented behaviour of the package on one value.\<close>

definition round_trips :: "codec \<Rightarrow> cbor \<Rightarrow> bool" where
  "round_trips K v \<longleftrightarrow> loads K (dumps K v) = Ok (decoded v)"

lemma lookup_int_Cons [simp]:
  "lookup_int ((k, v) # m) n = (if equals_int k n then Some v else lookup_int m n)"
  by (simp add: lookup_int_def)

lemma lookup_int_Nil [simp]: "lookup_int [] n = None"
  by (simp add: lookup_int_def)

lemma equals_int_CInt [simp]: "equals_int (CInt m) n \<longleftrightarrow> m = n"
  by (simp add: equals_int_def)

lemma lookup_int_append: "lookup_int (a @ b) n = (case lookup_int a n of None \<Rightarrow> lookup_int b n | Some v \<Rightarrow> Some v)"
  by (induction a) (auto simp: lookup_int_def)

lemma get_int_Inr_iff [res_iff]:
  "get_int v n = Inr x \<longleftrightarrow> (\<exists>m. v = CMap m \<and> x = (case lookup_int m n of None \<Rightarrow> CNull | Some y \<Rightarrow> y))"
  by (cases v) (auto simp: get_int_def)

lemma item_Inr_map [res_iff]: "item (CMap m) n = Inr x \<longleftrightarrow> lookup_int m n = Some x"
  by (simp add: item_def res_iff)

lemma item_text_Inr [res_iff]: "item_text v k = Inr x \<longleftrightarrow> (\<exists>m. v = CMap m \<and> map_of m (CText k) = Some x)"
  by (cases v) (auto simp: item_text_def res_iff)

lemma get_text_Inr [res_iff]:
  "get_text v k = Inr x \<longleftrightarrow> (\<exists>m. v = CMap m \<and> x = (case map_of m (CText k) of None \<Rightarrow> CNull | Some y \<Rightarrow> y))"
  by (cases v) (auto simp: get_text_def)

lemma four_Inr_iff [res_iff]: "four xs = Inr (a, b, c, d) \<longleftrightarrow> xs = [a, b, c, d]"
  by (induction xs rule: four.induct) auto

section \<open>A concrete codec\<close>

text \<open>Prefix codes: numbers in unary, lists with their length in front, a first byte for the kind.\<close>

definition enc_nat :: "nat \<Rightarrow> bytes" where
  "enc_nat n = replicate n 0 @ [1]"

fun dec_nat' :: "bytes \<Rightarrow> (nat \<times> bytes) option" where
  "dec_nat' [] = None"
| "dec_nat' (x # xs) = (if x = 1 then Some (0, xs) else map_option (\<lambda>(n, r). (Suc n, r)) (dec_nat' xs))"

definition enc_int :: "int \<Rightarrow> bytes" where
  "enc_int n = (if n < 0 then 1 # enc_nat (nat (- n)) else 0 # enc_nat (nat n))"

fun dec_int :: "bytes \<Rightarrow> (int \<times> bytes) option" where
  "dec_int [] = None"
| "dec_int (x # xs) = map_option (\<lambda>(n, r). (if x = 1 then - int n else int n, r)) (dec_nat' xs)"

definition enc_bytes :: "bytes \<Rightarrow> bytes" where
  "enc_bytes b = enc_nat (length b) @ b"

definition dec_bytes :: "bytes \<Rightarrow> (bytes \<times> bytes) option" where
  "dec_bytes b = map_option (\<lambda>(n, r). (take n r, drop n r)) (dec_nat' b)"

definition enc_text :: "string \<Rightarrow> bytes" where
  "enc_text s = enc_bytes (map char_byte s)"

definition byte_char :: "byte \<Rightarrow> char" where
  "byte_char x = char_of (unat x)"

definition dec_text :: "bytes \<Rightarrow> (string \<times> bytes) option" where
  "dec_text b = map_option (\<lambda>(t, r). (map byte_char t, r)) (dec_bytes b)"

lemma dec_enc_nat [simp]: "dec_nat' (enc_nat n @ r) = Some (n, r)"
  by (induction n) (simp_all add: enc_nat_def)

lemma dec_enc_int [simp]: "dec_int (enc_int n @ r) = Some (n, r)"
  by (simp add: enc_int_def)

lemma dec_enc_bytes [simp]: "dec_bytes (enc_bytes b @ r) = Some (b, r)"
  by (simp add: dec_bytes_def enc_bytes_def)

lemma byte_char_byte [simp]: "byte_char (char_byte c) = c"
  by (simp add: byte_char_def char_byte_def unat_of_nat of_char_mod_256)

lemma dec_enc_text [simp]: "dec_text (enc_text s @ r) = Some (s, r)"
  by (simp add: dec_text_def enc_text_def comp_def)

fun enc :: "cbor \<Rightarrow> bytes" where
  "enc (CInt n) = 0 # enc_int n"
| "enc (CBytes b) = 1 # enc_bytes b"
| "enc (CText s) = 2 # enc_text s"
| "enc (CBool b) = [3, if b then 1 else 0]"
| "enc CNull = [4]"
| "enc (CFloat f) = 5 # enc_text (fl_repr f) @ enc_text (fl_hex f) @
     (case fl_int f of None \<Rightarrow> [0] | Some n \<Rightarrow> 1 # enc_int n)"
| "enc (CList xs) = 6 # enc_nat (length xs) @ concat (map enc xs)"
| "enc (CMap m) = 7 # enc_nat (length m) @ concat (map (\<lambda>(k, v). enc k @ enc v) m)"
| "enc (CTag t v) = 8 # enc_int t @ enc v"
| "enc (CDate n) = 9 # enc_int n"

text \<open>Parsers: sequencing, and \<open>n\<close> items in a row.\<close>

type_synonym 'a parser = "bytes \<Rightarrow> ('a \<times> bytes) option"

definition andthen :: "'a parser \<Rightarrow> ('a \<Rightarrow> 'b parser) \<Rightarrow> 'b parser" where
  "andthen p f b = (case p b of None \<Rightarrow> None | Some (x, r) \<Rightarrow> f x r)"

definition returning :: "'a \<Rightarrow> 'a parser" where
  "returning x b = Some (x, b)"

primrec many :: "'a parser \<Rightarrow> nat \<Rightarrow> 'a list parser" where
  "many p 0 = returning []"
| "many p (Suc n) = andthen p (\<lambda>x. andthen (many p n) (\<lambda>xs. returning (x # xs)))"

definition dec_flag :: "bytes \<Rightarrow> (bool \<times> bytes) option" where
  "dec_flag b = (case b of [] \<Rightarrow> None | x # r \<Rightarrow> Some (x = 1, r))"

definition dec_kind :: "cbor parser \<Rightarrow> byte \<Rightarrow> cbor parser" where
  "dec_kind p x = (
     if x = 0 then andthen dec_int (\<lambda>n. returning (CInt n))
     else if x = 1 then andthen dec_bytes (\<lambda>b. returning (CBytes b))
     else if x = 2 then andthen dec_text (\<lambda>s. returning (CText s))
     else if x = 3 then andthen dec_flag (\<lambda>b. returning (CBool b))
     else if x = 4 then returning CNull
     else if x = 5 then andthen dec_text (\<lambda>r. andthen dec_text (\<lambda>h. andthen dec_flag (\<lambda>i.
       if i then andthen dec_int (\<lambda>n. returning (CFloat (PyFloat r h (Some n))))
       else returning (CFloat (PyFloat r h None)))))
     else if x = 6 then andthen dec_nat' (\<lambda>n. andthen (many p n) (\<lambda>xs. returning (CList xs)))
     else if x = 7 then andthen dec_nat' (\<lambda>n.
       andthen (many (andthen p (\<lambda>k. andthen p (\<lambda>v. returning (k, v)))) n) (\<lambda>m. returning (CMap m)))
     else if x = 8 then andthen dec_int (\<lambda>t. andthen p (\<lambda>v. returning (CTag t v)))
     else andthen dec_int (\<lambda>n. returning (CDate n)))"

primrec dec_value :: "nat \<Rightarrow> cbor parser" where
  "dec_value 0 = (\<lambda>b. None)"
| "dec_value (Suc k) = (\<lambda>b. case b of [] \<Rightarrow> None | x # r \<Rightarrow> dec_kind (dec_value k) x r)"

text \<open>The fuel a value needs, and that the length of its encoding is enough.\<close>

fun nesting :: "cbor \<Rightarrow> nat" where
  "nesting (CList xs) = Suc (sum_list (map nesting xs))"
| "nesting (CMap m) = Suc (sum_list (map (\<lambda>(k, v). nesting k + nesting v) m))"
| "nesting (CTag t v) = Suc (nesting v)"
| "nesting _ = 1"

lemma nesting_le_enc: "nesting v \<le> length (enc v)"
proof (induction v rule: nesting.induct)
  case (1 xs)
  have "sum_list (map nesting xs) \<le> sum_list (map (length \<circ> enc) xs)"
    using 1 by (intro sum_list_mono) simp
  then show ?case by (simp add: length_concat comp_def)
next
  case (2 m)
  have "sum_list (map (\<lambda>(k, v). nesting k + nesting v) m) \<le> sum_list (map (length \<circ> (\<lambda>(k, v). enc k @ enc v)) m)"
    using 2 by (intro sum_list_mono) (fastforce intro: add_mono)
  then show ?case by (simp add: length_concat comp_def)
qed simp_all

lemma andthen_simp [simp]: "p (a @ r) = Some (x, r) \<Longrightarrow> andthen p f (a @ r) = f x r"
  by (simp add: andthen_def)

lemma returning_simp [simp]: "returning x b = Some (x, b)"
  by (simp add: returning_def)

lemma many_simp:
  "(\<And>x r. x \<in> set xs \<Longrightarrow> p (e x @ r) = Some (x, r)) \<Longrightarrow> many p (length xs) (concat (map e xs) @ r) = Some (xs, r)"
  by (induction xs arbitrary: r) simp_all

lemma dec_flag_simp [simp]: "dec_flag (x # r) = Some (x = 1, r)"
  by (simp add: dec_flag_def)

lemma andthen_flag [simp]: "andthen dec_flag f (x # r) = f (x = 1) r"
  by (simp add: andthen_def)

lemma pyfloat_eta: "fl_int f = i \<Longrightarrow> PyFloat (fl_repr f) (fl_hex f) i = f"
  by (cases f) simp

lemma dec_enc: "nesting v \<le> k \<Longrightarrow> dec_value k (enc v @ r) = Some (v, r)"
proof (induction v arbitrary: k r rule: nesting.induct)
  case (1 xs)
  then obtain j where k: "k = Suc j" and j: "sum_list (map nesting xs) \<le> j" by (cases k) auto
  have "dec_value j (enc x @ r') = Some (x, r')" if "x \<in> set xs" for x r'
    using "1.IH" [OF that] member_le_sum_list [of "nesting x" "map nesting xs"] that j by fastforce
  then have "many (dec_value j) (length xs) (concat (map enc xs) @ r) = Some (xs, r)"
    by (rule many_simp)
  then show ?case by (simp add: k dec_kind_def)
next
  case (2 m)
  let ?p = "andthen (dec_value (k - 1)) (\<lambda>k'. andthen (dec_value (k - 1)) (\<lambda>v. returning (k', v)))"
  let ?e = "\<lambda>(k, v). enc k @ enc v"
  from 2(3) obtain j where k: "k = Suc j" and j: "sum_list (map (\<lambda>(k, v). nesting k + nesting v) m) \<le> j" by (cases k) auto
  have "?p (?e x @ r') = Some (x, r')" if x: "x \<in> set m" for x r'
  proof (cases x)
    case (Pair a b)
    have "nesting a + nesting b \<le> j"
      using member_le_sum_list [of "nesting a + nesting b" "map (\<lambda>(k, v). nesting k + nesting v) m"] x j Pair by force
    with "2.IH"(1) [OF x Pair [symmetric]] "2.IH"(2) [OF x Pair [symmetric]] show ?thesis
      by (simp add: k Pair)
  qed
  then have "many ?p (length m) (concat (map ?e m) @ r) = Some (m, r)"
    by (rule many_simp)
  then show ?case by (simp add: k dec_kind_def)
next
  case (3 t v)
  then show ?case by (cases k) (simp_all add: dec_kind_def)
qed (case_tac k; simp add: dec_kind_def pyfloat_eta split: option.split)+

lemma enc_inj:
  assumes "enc v = enc w"
  shows "v = w"
proof -
  have "dec_value (length (enc v)) (enc v @ []) = Some (v, [])" by (rule dec_enc [OF nesting_le_enc])
  moreover have "dec_value (length (enc w)) (enc w @ []) = Some (w, [])" by (rule dec_enc [OF nesting_le_enc])
  ultimately show ?thesis by (simp only: assms) simp
qed

definition demo_codec :: codec where
  "demo_codec = \<lparr>dumps = enc, loads = (\<lambda>b. case dec_value (length b) b of
     Some (v, []) \<Rightarrow> Ok (decoded v) | _ \<Rightarrow> Err (Raised ''CBORDecodeError'' ''malformed''))\<rparr>"

lemma demo_codec_round_trips: "round_trips demo_codec v"
  using dec_enc [OF nesting_le_enc, of v "[]"] by (simp add: round_trips_def demo_codec_def)

end
