(* ===== verification/TripChain.thy ===== *)
theory TripChain
  imports Cbor Hashes
begin

text \<open>
  The evidence chain of \<open>trip_chain.py\<close> (and the single verifier of \<open>trip_example.py\<close>): a device
  signs 64 cells, Verifier A turns them into a geographic result, Verifier B rests its own result
  on A's, and the Relying Party walks the references under a strict or a lenient policy. CBOR,
  Ed25519 and the geometry (H3, Shapely) are packages, so they are records of functions; JSON,
  SHA-1, SHA-256 and version 5 UUIDs are modelled.
\<close>

section \<open>Packages\<close>

text \<open>Keys are their raw bytes. \<open>ed_verify pub sig m\<close>: \<open>verify\<close> returns; otherwise it raises
  \<open>InvalidSignature\<close>.\<close>

record ed25519 =
  ed_load_public :: "bytes \<Rightarrow> bytes res"
  ed_public :: "bytes \<Rightarrow> bytes"
  ed_sign :: "bytes \<Rightarrow> bytes \<Rightarrow> bytes"
  ed_verify :: "bytes \<Rightarrow> bytes \<Rightarrow> bytes \<Rightarrow> bool"

text \<open>\<open>polys\<close> is the country list in file order: ISO code, name, prepared geometry. \<open>cell_polygon\<close>
  and \<open>cell_centre\<close> are the polygon and the centre point of an H3 cell.\<close>

record ('g, 'p) geography =
  polys :: "(string \<times> string \<times> 'g) list"
  covers :: "'g \<Rightarrow> 'p \<Rightarrow> bool"
  cell_polygon :: "string \<Rightarrow> 'p res"
  cell_centre :: "string \<Rightarrow> 'p res"

section \<open>Constants\<close>

definition L_COUNTRY :: int where "L_COUNTRY = 0"
definition L_UUID :: int where "L_UUID = 13"
definition L_BASIS :: int where "L_BASIS = 14"
definition L_PROV :: int where "L_PROV = 15"
definition L_BASIS_REF :: int where "L_BASIS_REF = 16"
definition L_OBS_FROM :: int where "L_OBS_FROM = 17"
definition L_OBS_UNTIL :: int where "L_OBS_UNTIL = 18"
definition EVIDENCE :: int where "EVIDENCE = 0"
definition ENDORSEMENT :: int where "ENDORSEMENT = 1"
definition ATTESTATION_RESULT :: int where "ATTESTATION_RESULT = 2"
definition EAT_PROFILE :: int where "EAT_PROFILE = 265"
definition EAT_IAT :: int where "EAT_IAT = 6"
definition EAT_SUBMODS :: int where "EAT_SUBMODS = 266"
definition EAR_VERIFIER :: int where "EAR_VERIFIER = 1004"
definition EAR_STATUS :: int where "EAR_STATUS = 1000"
definition TIER_AFFIRM :: int where "TIER_AFFIRM = 2"
definition GEO_LABEL :: int where "GEO_LABEL = -70100"
definition N_CELLS :: nat where "N_CELLS = 64"
definition STEP_MIN :: int where "STEP_MIN = 15"

lemmas labels = L_COUNTRY_def L_UUID_def L_BASIS_def L_PROV_def L_BASIS_REF_def L_OBS_FROM_def L_OBS_UNTIL_def
  EVIDENCE_def ENDORSEMENT_def ATTESTATION_RESULT_def EAT_PROFILE_def EAT_IAT_def EAT_SUBMODS_def
  EAR_VERIFIER_def EAR_STATUS_def TIER_AFFIRM_def GEO_LABEL_def

definition EU :: "string set" where
  "EU = set (split_ws ''AT BE BG HR CY CZ DK EE FI FR DE GR HU IE IT LV LT LU MT NL PL PT RO SK SI ES SE'')"

section \<open>Version 5 UUIDs, hexadecimal input, JSON\<close>

text \<open>\<open>uuid.uuid5(ns, name).bytes\<close>.\<close>

definition uuid5 :: "bytes \<Rightarrow> string \<Rightarrow> bytes" where
  "uuid5 ns name = (let d = take 16 (sha1 (ns @ utf8 name)) in
     d[6 := (d ! 6 AND 0x0f) OR 0x50, 8 := (d ! 8 AND 0x3f) OR 0x80])"

definition NAMESPACE_URL :: bytes where
  "NAMESPACE_URL = [0x6b, 0xa7, 0xb8, 0x11, 0x9d, 0xad, 0x11, 0xd1, 0x80, 0xb4, 0x00, 0xc0, 0x4f, 0xd4, 0x30, 0xc8]"

definition UUID_NS :: bytes where
  "UUID_NS = uuid5 NAMESPACE_URL ''https://github.com/mcr/geographicresult''"

text \<open>\<open>json.dumps\<close> of a string, with the default \<open>ensure_ascii\<close>.\<close>

definition json_char :: "char \<Rightarrow> string" where
  "json_char c = (let n = (of_char c :: nat) in
     if n = 34 then [CHR 0x5C, c] else if n = 92 then [CHR 0x5C, c]
     else if n = 10 then [CHR 0x5C, CHR ''n''] else if n = 13 then [CHR 0x5C, CHR ''r'']
     else if n = 9 then [CHR 0x5C, CHR ''t''] else if n = 8 then [CHR 0x5C, CHR ''b'']
     else if n = 12 then [CHR 0x5C, CHR ''f'']
     else if 32 \<le> n \<and> n \<le> 126 then [c] else CHR 0x5C # ''u00'' @ hex_byte (char_byte c))"

definition json_string :: "string \<Rightarrow> string" where
  "json_string s = [CHR 0x22] @ concat (map json_char s) @ [CHR 0x22]"

section \<open>COSE and the attestation result\<close>

definition key_from :: "bytes \<Rightarrow> bytes" where
  "key_from seed = sha256 seed"

definition cose_sign1 :: "codec \<Rightarrow> ed25519 \<Rightarrow> bytes \<Rightarrow> bytes \<Rightarrow> bytes \<Rightarrow> bytes" where
  "cose_sign1 K E payload key kid =
     (let protected = dumps K (CMap [(CInt 1, CInt (-8))]);
          sig = ed_sign E key (dumps K (sig_structure (CBytes protected) (CBytes payload)))
      in dumps K (CTag 18 (CList [CBytes protected, CMap [(CInt 4, CBytes kid)], CBytes payload, CBytes sig])))"

type_synonym anchors = "(bytes \<times> bytes) list"

text \<open>\<open>kid in anchors\<close> and \<open>anchors[kid]\<close>: the keys of the dictionary are bytes. The \<open>repr\<close> of the
  kid is left out of the message of the \<open>PermissionError\<close>.\<close>

definition bytes_key :: "(bytes \<times> 'a) list \<Rightarrow> cbor \<Rightarrow> 'a option res" where
  "bytes_key d k = (if \<not> hashable k then Err TypeError
     else Ok (case k of CBytes b \<Rightarrow> map_of d b | _ \<Rightarrow> None))"

definition ed_check :: "ed25519 \<Rightarrow> bytes \<Rightarrow> cbor \<Rightarrow> bytes \<Rightarrow> unit res" where
  "ed_check E pub sig m = (case sig of
     CBytes s \<Rightarrow> if ed_verify E pub s m then Ok () else Err (Raised ''InvalidSignature'' [])
   | _ \<Rightarrow> Err TypeError)"

definition cose_open :: "codec \<Rightarrow> ed25519 \<Rightarrow> bytes \<Rightarrow> anchors \<Rightarrow> (cbor \<times> cbor) res" where
  "cose_open K E msg anchors =
     rbind (loads K msg) (\<lambda>t. case t of
       CTag tag value \<Rightarrow>
         rbind (rassert (tag = 18) AssertionError) (\<lambda>_.
         rbind (unpack4 value) (\<lambda>(protected, unprot, payload, sig).
         rbind (item unprot 4) (\<lambda>kid.
         rbind (bytes_key anchors kid) (\<lambda>found. case found of
           None \<Rightarrow> Err (PermissionError ''signer not in trust anchors'')
         | Some pub \<Rightarrow> rbind (ed_check E pub sig (dumps K (sig_structure protected payload))) (\<lambda>_.
             Ok (kid, payload))))))
     | _ \<Rightarrow> Err AttributeError)"

definition ear :: "string \<Rightarrow> cbor \<Rightarrow> int \<Rightarrow> string \<Rightarrow> cbor" where
  "ear verifier_id geo_map iat submod = CMap
     [(CInt EAT_PROFILE, CText ''tag:ietf.org,2026:rats/ear#04''), (CInt EAT_IAT, CInt iat),
      (CInt EAR_VERIFIER, CMap [(CInt 0, CText verifier_id), (CInt 1, CText ''2026-09-10'')]),
      (CInt EAT_SUBMODS, CMap [(CText submod, CMap [(CInt EAR_STATUS, CInt TIER_AFFIRM), (CInt GEO_LABEL, geo_map)])])]"

text \<open>The first submodule that carries the geographic label, and the verifier's identifier.\<close>

fun first_geo :: "cbor list \<Rightarrow> cbor res" where
  "first_geo [] = Err StopIteration"
| "first_geo (sm # sms) = rbind (contains_int sm GEO_LABEL) (\<lambda>b. if b then item sm GEO_LABEL else first_geo sms)"

definition geo_of :: "codec \<Rightarrow> cbor \<Rightarrow> (cbor \<times> cbor) res" where
  "geo_of K payload = rbind (loads_value K payload) (\<lambda>p. rbind (item p EAT_SUBMODS) (\<lambda>sub.
     rbind (map_values sub) (\<lambda>vs. rbind (first_geo vs) (\<lambda>g.
     rbind (item p EAR_VERIFIER) (\<lambda>v. rbind (item v 0) (\<lambda>vid. Ok (g, vid)))))))"

section \<open>Verifier A\<close>

record crumb =
  seq :: int
  ts :: int
  cell :: string
  sig :: string

record evidence =
  device_pub :: string
  crumbs :: "crumb list"

definition msg :: "codec \<Rightarrow> crumb \<Rightarrow> bytes" where
  "msg K c = dumps K (CList [CInt (seq c), CInt (ts c), CText (cell c)])"

datatype refusal = SignatureFailed int | WrongWindow | SpacingTooShort | NoSingleCountry "string list"

record geo_result =
  gr_core :: cbor
  gr_ext :: cbor
  gr_uuid :: bytes
  gr_country :: string
  gr_name :: string

datatype outcome = Refused refusal | Result geo_result

text \<open>The signature loop: the sequence number of the first crumb that fails.\<close>

fun check_sigs :: "codec \<Rightarrow> ed25519 \<Rightarrow> bytes \<Rightarrow> crumb list \<Rightarrow> int option res" where
  "check_sigs K E pk [] = Ok None"
| "check_sigs K E pk (c # cs) = rbind (fromhex (sig c)) (\<lambda>s.
     if ed_verify E pk s (msg K c) then check_sigs K E pk cs else Ok (Some (seq c)))"

definition spacing_short :: "crumb list \<Rightarrow> bool" where
  "spacing_short cs = list_ex (\<lambda>(a, b). ts b - ts a < STEP_MIN * 60) (zip cs (tl cs))"

definition country_of_cell :: "('g, 'p) geography \<Rightarrow> string \<Rightarrow> (string option \<times> string option) res" where
  "country_of_cell G c = rbind (cell_polygon G c) (\<lambda>poly.
     Ok (case List.find (\<lambda>(code, name, g). covers G g poly) (polys G) of
           Some (code, name, g) \<Rightarrow> (Some code, Some name) | None \<Rightarrow> (None, None)))"

definition str_opt :: "string option \<Rightarrow> string" where
  "str_opt k = (case k of None \<Rightarrow> ''None'' | Some s \<Rightarrow> s)"

definition crumb_json :: "crumb \<Rightarrow> string" where
  "crumb_json c = ''{'' @ json_string ''cell'' @ '': '' @ json_string (cell c) @ '', '' @ json_string ''seq'' @ '': '' @ dec (seq c)
     @ '', '' @ json_string ''sig'' @ '': '' @ json_string (sig c) @ '', '' @ json_string ''ts'' @ '': '' @ dec (ts c) @ ''}''"

fun json_items :: "string list \<Rightarrow> string" where
  "json_items [] = []"
| "json_items [x] = x"
| "json_items (x # xs) = x @ '', '' @ json_items xs"

text \<open>\<open>json.dumps(cs, sort_keys=True)\<close>.\<close>

definition crumbs_json :: "crumb list \<Rightarrow> string" where
  "crumbs_json cs = ''['' @ json_items (map crumb_json cs) @ '']''"

definition claim_uuid :: "string \<Rightarrow> crumb list \<Rightarrow> bytes" where
  "claim_uuid prefix cs = uuid5 UUID_NS (prefix @ hex (sha256 (utf8 (crumbs_json cs))))"

definition name_of :: "('g, 'p) geography \<Rightarrow> string \<Rightarrow> string res" where
  "name_of G cc = (case List.find (\<lambda>(i, n, g). i = cc) (polys G) of
     Some (i, n, g) \<Rightarrow> Ok n | None \<Rightarrow> Err StopIteration)"

definition core_map :: "string \<Rightarrow> bytes \<Rightarrow> (cbor \<times> cbor) list" where
  "core_map cc u1 = [(CInt L_COUNTRY, CText cc), (CInt L_UUID, CBytes u1), (CInt L_BASIS, CInt EVIDENCE)]"

definition verifier_A :: "codec \<Rightarrow> ed25519 \<Rightarrow> ('g, 'p) geography \<Rightarrow> bool \<Rightarrow> evidence \<Rightarrow> outcome res" where
  "verifier_A K E G supplied ev =
     rbind (fromhex (device_pub ev)) (\<lambda>raw. rbind (ed_load_public E raw) (\<lambda>pk. let cs = crumbs ev in
     rbind (check_sigs K E pk cs) (\<lambda>failed. case failed of Some i \<Rightarrow> Ok (Refused (SignatureFailed i)) | None \<Rightarrow>
     if length cs \<noteq> N_CELLS then Ok (Refused WrongWindow)
     else if spacing_short cs then Ok (Refused SpacingTooShort)
     else rbind (rmap (\<lambda>c. country_of_cell G (cell c)) cs) (\<lambda>cn.
       let found = group_all fst snd (zip (map fst cn) (map cell cs)) in
       case found of
         [(Some cc, _)] \<Rightarrow>
           let u1 = claim_uuid (if supplied then ''trip-supplied:'' else ''trip-synthetic:'') cs;
               core = core_map cc u1;
               ext = core @ [(CInt L_PROV, CText ''I-D.trip''), (CInt L_OBS_FROM, CTag 1 (CInt (ts (hd cs)))),
                 (CInt L_OBS_UNTIL, CTag 1 (CInt (ts (last cs))))]
           in rbind (name_of G cc) (\<lambda>nm.
                Ok (Result \<lparr>gr_core = CMap core, gr_ext = CMap ext, gr_uuid = u1, gr_country = cc, gr_name = nm\<rparr>))
       | _ \<Rightarrow> Ok (Refused (NoSingleCountry (sort (map (str_opt \<circ> fst) found))))))))"

section \<open>Verifier B\<close>

text \<open>A decoded date goes back to a tag 1 of epoch seconds.\<close>

definition reencode_time :: "cbor \<Rightarrow> cbor" where
  "reencode_time v = (case v of CDate n \<Rightarrow> CTag 1 (CInt n) | _ \<Rightarrow> v)"

fun copy_times :: "cbor \<Rightarrow> int list \<Rightarrow> (cbor \<times> cbor) list res" where
  "copy_times g [] = Ok []"
| "copy_times g (k # others) = rbind (contains_int g k) (\<lambda>b.
     if b then rbind (item g k) (\<lambda>v. rbind (copy_times g others) (\<lambda>m. Ok ((CInt k, reencode_time v) # m)))
     else copy_times g others)"

definition verifier_B :: "codec \<Rightarrow> ed25519 \<Rightarrow> bytes \<Rightarrow> bytes \<Rightarrow> int \<Rightarrow> bytes \<Rightarrow> bool \<Rightarrow> (cbor \<times> bytes \<times> bytes) res" where
  "verifier_B K E pub_A key_B iat ear_from_A with_ref =
     rbind (cose_open K E ear_from_A [(utf8 ''A'', pub_A)]) (\<lambda>(kid, payload).
     rbind (geo_of K payload) (\<lambda>(g, vid). rbind (item g L_UUID) (\<lambda>u1. rbind (hex_method u1) (\<lambda>h.
     let u2 = uuid5 UUID_NS (''hop2:'' @ h) in
     rbind (item g L_COUNTRY) (\<lambda>cc.
     let m = [(CInt L_COUNTRY, cc), (CInt L_UUID, CBytes u2), (CInt L_BASIS, CInt ATTESTATION_RESULT)]
       @ (if with_ref then [(CInt L_BASIS_REF, u1)] else []) in
     rbind (copy_times g [L_OBS_FROM, L_OBS_UNTIL]) (\<lambda>times. let m' = CMap (m @ times) in
     Ok (m', u2, cose_sign1 K E (dumps K (ear ''workload-verifier-B'' m' (iat + 5) ''workload'')) key_B (utf8 ''B''))))))))"

section \<open>The Relying Party\<close>

datatype verdict = ACCEPT | REJECT

text \<open>A rejection is the smaller verdict.\<close>

instantiation verdict :: linorder
begin

definition less_eq_verdict :: "verdict \<Rightarrow> verdict \<Rightarrow> bool" where
  "v \<le> w \<longleftrightarrow> v = REJECT \<or> w = ACCEPT"

definition less_verdict :: "verdict \<Rightarrow> verdict \<Rightarrow> bool" where
  "v < w \<longleftrightarrow> v = REJECT \<and> w = ACCEPT"

instance
proof
  fix x y z :: verdict
  show "x < y \<longleftrightarrow> x \<le> y \<and> \<not> y \<le> x" "x \<le> x" "x \<le> y \<or> y \<le> x"
    by (cases x; cases y; simp add: less_eq_verdict_def less_verdict_def)+
  show "x \<le> y \<Longrightarrow> y \<le> z \<Longrightarrow> x \<le> z" "x \<le> y \<Longrightarrow> y \<le> x \<Longrightarrow> x = y"
    by (cases x; cases y; cases z; simp add: less_eq_verdict_def)+
qed

end

text \<open>The reason that goes with a verdict: the parts of the f-string the code prints, in its order.\<close>

datatype reason =
    BadSignature pyerr
  | OutsideEU cbor
  | NotExamined cbor cbor cbor
  | FromEvidence cbor cbor cbor
  | NoBasisRef cbor cbor
  | NotResolvable bytes
  | TooDeep
  | Upstream cbor bytes verdict reason
  | NoBasis

text \<open>One message: decided at once, or resting on the result stored under a reference.\<close>

datatype appraisal = Decided verdict reason | RestsOn cbor cbor bytes

definition in_EU :: "cbor \<Rightarrow> bool res" where
  "in_EU cc = (if \<not> hashable cc then Err TypeError else Ok (\<exists>s \<in> EU. cc = CText s))"

definition appraise :: "codec \<Rightarrow> ed25519 \<Rightarrow> anchors \<Rightarrow> (bytes \<times> bytes) list \<Rightarrow> string \<Rightarrow> bytes \<Rightarrow> appraisal res" where
  "appraise K E anchors store policy mb = (case cose_open K E mb anchors of
     Inl e \<Rightarrow> Ok (Decided REJECT (BadSignature e))
   | Inr (kid, payload) \<Rightarrow>
     rbind (geo_of K payload) (\<lambda>(g, vid). rbind (get_int g L_COUNTRY) (\<lambda>cc. rbind (get_int g L_BASIS) (\<lambda>basis.
     rbind (in_EU cc) (\<lambda>eu.
       if \<not> eu then Ok (Decided REJECT (OutsideEU cc))
       else if policy = ''lenient'' then Ok (Decided ACCEPT (NotExamined cc vid basis))
       else if equals_int basis EVIDENCE \<or> equals_int basis ENDORSEMENT then Ok (Decided ACCEPT (FromEvidence cc basis vid))
       else if equals_int basis ATTESTATION_RESULT then
         rbind (get_int g L_BASIS_REF) (\<lambda>ref.
           if \<not> truth ref then Ok (Decided REJECT (NoBasisRef cc vid))
           else rbind (bytes_key store ref) (\<lambda>found. case found of
             None \<Rightarrow> rbind (uuid_value ref) (\<lambda>u. Ok (Decided REJECT (NotResolvable u)))
           | Some up \<Rightarrow> Ok (RestsOn cc ref up)))
       else Ok (Decided REJECT NoBasis))))))"

lemma rbind_cong [fundef_cong]:
  "m = m' \<Longrightarrow> (\<And>x. m' = Inr x \<Longrightarrow> f x = f' x) \<Longrightarrow> rbind m f = rbind m' f'"
  by (cases m') simp_all

function rp :: "codec \<Rightarrow> ed25519 \<Rightarrow> anchors \<Rightarrow> (bytes \<times> bytes) list \<Rightarrow> string \<Rightarrow> nat \<Rightarrow> bytes \<Rightarrow> (verdict \<times> reason) res" where
  "rp K E anchors store policy depth mb =
     rbind (appraise K E anchors store policy mb) (\<lambda>a. case a of
       Decided v why \<Rightarrow> Ok (v, why)
     | RestsOn cc ref up \<Rightarrow>
         if 4 < depth then Ok (REJECT, TooDeep)
         else rbind (rp K E anchors store policy (depth + 1) up) (\<lambda>(v, why).
           rbind (uuid_value ref) (\<lambda>u. Ok (if v = ACCEPT then ACCEPT else REJECT, Upstream cc u v why))))"
  by pat_completeness auto
termination
  by (relation "measure (\<lambda>(K, E, anchors, store, policy, depth, mb). 5 - depth)") auto

declare rp.simps [simp del]

section \<open>The run of trip_chain.py\<close>

record trip_report =
  tr_result :: geo_result
  tr_r2 :: cbor
  tr_r2n :: cbor
  tr_u2 :: bytes
  tr_ear_A :: bytes
  tr_ear_B :: bytes
  tr_ear_B_noref :: bytes
  tr_ear_rogue :: bytes
  tr_ear_snp :: bytes
  tr_ear_azure :: bytes
  tr_table :: "(string \<times> (verdict \<times> reason) \<times> (verdict \<times> reason)) list"

definition key_A :: bytes where "key_A = key_from (utf8 ''verifier-A-geographic'')"
definition key_B :: bytes where "key_B = key_from (utf8 ''verifier-B-workload'')"
definition key_X :: bytes where "key_X = key_from (utf8 ''nobody-trusts-this-key'')"

text \<open>\<open>nl\<close> is the dictionary of the Dutch results of the earlier run, family to payload bytes, which is read
  after B has made its results.\<close>

definition rp_row :: "codec \<Rightarrow> ed25519 \<Rightarrow> anchors \<Rightarrow> (bytes \<times> bytes) list \<Rightarrow> string \<times> bytes
    \<Rightarrow> (string \<times> (verdict \<times> reason) \<times> (verdict \<times> reason)) res" where
  "rp_row K E anchors store c = (case c of (n, m) \<Rightarrow>
     rbind (rp K E anchors store ''strict'' 0 m) (\<lambda>s. rbind (rp K E anchors store ''lenient'' 0 m) (\<lambda>l. Ok (n, s, l))))"

definition trip_run :: "codec \<Rightarrow> ed25519 \<Rightarrow> ('g, 'p) geography \<Rightarrow> bool \<Rightarrow> evidence \<Rightarrow> (string \<times> bytes) list res \<Rightarrow> trip_report res" where
  "trip_run K E G supplied ev nl =
     rbind (verifier_A K E G supplied ev) (\<lambda>o1. case o1 of Refused _ \<Rightarrow> Err AssertionError | Result r1 \<Rightarrow>
     let iat = ts (last (crumbs ev)) + 60;
         pub_A = ed_public E key_A;
         ear_A = cose_sign1 K E (dumps K (ear ''geoar-verifier-A'' (gr_ext r1) iat ''trip-device'')) key_A (utf8 ''A'') in
     rbind (verifier_B K E pub_A key_B iat ear_A True) (\<lambda>(r2, u2, ear_B).
     rbind (verifier_B K E pub_A key_B iat ear_A False) (\<lambda>(r2n, u2n, ear_B_noref).
     let ear_rogue = cose_sign1 K E (dumps K (ear ''geoar-verifier-A'' (gr_ext r1) iat ''trip-device'')) key_X (utf8 ''A'') in
     rbind nl (\<lambda>nl.
     rbind (of_option (KeyError ''SEV-SNP'') (map_of nl ''SEV-SNP'')) (\<lambda>snp.
     let ear_snp = cose_sign1 K E snp key_A (utf8 ''A'') in
     rbind (of_option (KeyError ''Azure'') (map_of nl ''Azure'')) (\<lambda>azure.
     let ear_azure = cose_sign1 K E azure key_A (utf8 ''A'');
         anchors = [(utf8 ''A'', pub_A), (utf8 ''B'', ed_public E key_B)];
         store = AList.update u2 ear_B [(gr_uuid r1, ear_A)];
         cases = [(''R1 EAR from A (evidence)'', ear_A), (''R2 EAR from B (attestation-result, basis-ref U1)'', ear_B),
           (''R2 without basis-ref'', ear_B_noref), (''forged EAR, kid A, untrusted key'', ear_rogue),
           (''26-run SEV-SNP NL (basis 2, no ref)'', ear_snp), (''26-run Azure NL (basis 1)'', ear_azure)] in
     rbind (rmap (rp_row K E anchors store) cases) (\<lambda>table.
     Ok \<lparr>tr_result = r1, tr_r2 = r2, tr_r2n = r2n, tr_u2 = u2, tr_ear_A = ear_A, tr_ear_B = ear_B, tr_ear_B_noref = ear_B_noref,
        tr_ear_rogue = ear_rogue, tr_ear_snp = ear_snp, tr_ear_azure = ear_azure, tr_table = table\<rparr>)))))))"

section \<open>trip_example.py\<close>

definition country_of :: "('g, 'p) geography \<Rightarrow> string \<Rightarrow> (string option \<times> string option) res" where
  "country_of G c = rbind (cell_centre G c) (\<lambda>p.
     Ok (case List.find (\<lambda>(code, name, g). covers G g p) (polys G) of
           Some (code, name, g) \<Rightarrow> (Some code, Some name) | None \<Rightarrow> (None, None)))"

datatype example_outcome = ExampleRefused refusal | ExampleResult cbor

text \<open>The refusal of this script lists the codes in the order found, without sorting them.\<close>

definition verify_and_conclude :: "codec \<Rightarrow> ed25519 \<Rightarrow> ('g, 'p) geography \<Rightarrow> evidence \<Rightarrow> example_outcome res" where
  "verify_and_conclude K E G ev =
     rbind (fromhex (device_pub ev)) (\<lambda>raw. rbind (ed_load_public E raw) (\<lambda>pk. let cs = crumbs ev in
     rbind (check_sigs K E pk cs) (\<lambda>failed. case failed of Some i \<Rightarrow> Ok (ExampleRefused (SignatureFailed i)) | None \<Rightarrow>
     if length cs \<noteq> N_CELLS then Ok (ExampleRefused WrongWindow)
     else if spacing_short cs then Ok (ExampleRefused SpacingTooShort)
     else rbind (rmap (\<lambda>c. country_of G (cell c)) cs) (\<lambda>cn.
       let found = group_all fst snd (zip (map fst cn) (map cell cs)) in
       case found of
         [(Some cc, _)] \<Rightarrow> rbind (name_of G cc) (\<lambda>nm. Ok (ExampleResult (CMap (core_map cc (claim_uuid ''trip-synthetic:'' cs)))))
       | _ \<Rightarrow> Ok (ExampleRefused (NoSingleCountry (map (str_opt \<circ> fst) found)))))))"

end
