(* ===== verification/TripProofs.thy ===== *)
theory TripProofs
  imports TripChain
begin

text \<open>
  What the chain of \<open>trip_chain.py\<close> guarantees: COSE messages open only under a trusted key,
  Verifier A's results are exactly those of an attested window inside one country, Verifier B
  adds one link, and the Relying Party's strict policy accepts exactly the messages with a chain of at
  most five links that ends in evidence or an endorsement (\<open>grounded\<close>).
\<close>

section \<open>What is assumed of the packages\<close>

text \<open>The values the scripts encode: text or integer keys without repetition, the COSE tag, and
  epoch times a date can hold.\<close>

fun plain :: "cbor \<Rightarrow> bool" where
  "plain (CList xs) = (\<forall>x \<in> set xs. plain x)"
| "plain (CMap m) = (distinct (map fst m) \<and> (\<forall>(k, v) \<in> set m. plain v \<and> (\<exists>n s. k = CInt n \<or> k = CText s)))"
| "plain (CTag t v) = (t = 18 \<and> plain v \<or> t = 1 \<and> (\<exists>n. v = CInt n \<and> 0 \<le> n \<and> n < 253402300800))"
| "plain (CFloat f) = False"
| "plain (CDate n) = False"
| "plain _ = True"

definition codec_ok :: "codec \<Rightarrow> bool" where
  "codec_ok K \<longleftrightarrow> (\<forall>v. plain v \<longrightarrow> round_trips K v)"

definition sign_ok :: "ed25519 \<Rightarrow> bool" where
  "sign_ok E \<longleftrightarrow> (\<forall>k m. ed_verify E (ed_public E k) (ed_sign E k m) m)"

lemma loads_dumps: "codec_ok K \<Longrightarrow> plain v \<Longrightarrow> loads K (dumps K v) = Ok (decoded v)"
  by (simp add: codec_ok_def round_trips_def)

section \<open>COSE\<close>

definition tbs :: "codec \<Rightarrow> bytes \<Rightarrow> bytes" where
  "tbs K payload = dumps K (sig_structure (CBytes (dumps K (CMap [(CInt 1, CInt (-8))]))) (CBytes payload))"

lemma hashable_bytes_key [simp]: "bytes_key d (CBytes b) = Ok (map_of d b)"
  by (simp add: bytes_key_def)

lemma bytes_key_Some [res_iff]: "bytes_key d k = Inr (Some v) \<longleftrightarrow> (\<exists>b. k = CBytes b \<and> map_of d b = Some v)"
  by (cases k) (auto simp: bytes_key_def)

lemma ed_check_iff [res_iff]: "ed_check E pub sg m = Inr u \<longleftrightarrow> (\<exists>s. sg = CBytes s \<and> ed_verify E pub s m)"
  by (cases sg) (auto simp: ed_check_def)

lemma cose_open_sign1:
  assumes "codec_ok K"
  shows "cose_open K E (cose_sign1 K E payload key kid) anchors = (case map_of anchors kid of
      None \<Rightarrow> Err (PermissionError ''signer not in trust anchors'')
    | Some pub \<Rightarrow> if ed_verify E pub (ed_sign E key (tbs K payload)) (tbs K payload)
        then Ok (CBytes kid, CBytes payload) else Err (Raised ''InvalidSignature'' []))"
  unfolding cose_sign1_def Let_def
  by (simp add: cose_open_def loads_dumps [OF assms] unpack4_def item_def ed_check_def tbs_def split: option.splits)

lemma cose_open_trusted:
  assumes "codec_ok K" "sign_ok E" "map_of anchors kid = Some (ed_public E key)"
  shows "cose_open K E (cose_sign1 K E payload key kid) anchors = Ok (CBytes kid, CBytes payload)"
  using assms by (simp add: cose_open_sign1 sign_ok_def)

lemma cose_open_Inr:
  assumes "cose_open K E mb anchors = Inr (kid, payload)"
  obtains k pub v prot unprot s where "kid = CBytes k" "map_of anchors k = Some pub"
    "loads K mb = Inr (CTag 18 v)" "unpack4 v = Inr (prot, unprot, payload, CBytes s)"
    "item unprot 4 = Inr kid" "ed_verify E pub s (dumps K (sig_structure prot payload))"
proof -
  from assms obtain t where t: "loads K mb = Inr t" by (auto simp: cose_open_def res_iff)
  with assms obtain tag v where v: "t = CTag tag v" by (cases t) (auto simp: cose_open_def)
  from assms [unfolded cose_open_def t v, simplified] that t v show ?thesis
    by (auto simp: res_iff split: option.splits)
qed

section \<open>Attestation results\<close>

lemma decoded_ear: "decoded (ear vid g iat sub) = ear vid (decoded g) iat sub"
  by (simp add: ear_def)

lemma plain_ear: "plain (ear vid g iat sub) \<longleftrightarrow> plain g"
  by (simp add: ear_def labels)

lemma geo_of_ear:
  assumes "codec_ok K" "plain g"
  shows "geo_of K (CBytes (dumps K (ear vid g iat sub))) = Ok (decoded g, CText vid)"
  using assms
  by (simp add: geo_of_def loads_value_def loads_dumps plain_ear decoded_ear)
    (simp add: ear_def item_def map_values_def contains_int_def labels)

section \<open>Grounded results\<close>

text \<open>\<open>states\<close>: a trusted signer states the geographic result \<open>g\<close>.\<close>

definition states :: "codec \<Rightarrow> ed25519 \<Rightarrow> anchors \<Rightarrow> bytes \<Rightarrow> cbor \<Rightarrow> bool" where
  "states K E anchors mb g \<longleftrightarrow>
     (\<exists>kid payload vid. cose_open K E mb anchors = Inr (kid, payload) \<and> geo_of K payload = Inr (g, vid))"

definition claims_EU :: "cbor \<Rightarrow> bool" where
  "claims_EU g \<longleftrightarrow> (\<exists>m c. g = CMap m \<and> lookup_int m L_COUNTRY = Some (CText c) \<and> c \<in> EU)"

definition has_basis :: "cbor \<Rightarrow> int \<Rightarrow> bool" where
  "has_basis g n \<longleftrightarrow> (\<exists>m b. g = CMap m \<and> lookup_int m L_BASIS = Some b \<and> equals_int b n)"

definition refers_to :: "cbor \<Rightarrow> bytes \<Rightarrow> bool" where
  "refers_to g u \<longleftrightarrow> (\<exists>m. g = CMap m \<and> lookup_int m L_BASIS_REF = Some (CBytes u) \<and> length u = 16)"

text \<open>A chain of at most \<open>n\<close> references down to a result that rests on evidence or an endorsement,
  every link signed by a trusted key and inside the EU.\<close>

inductive grounded :: "codec \<Rightarrow> ed25519 \<Rightarrow> anchors \<Rightarrow> (bytes \<times> bytes) list \<Rightarrow> nat \<Rightarrow> bytes \<Rightarrow> bool"
  for K E anchors store where
  own: "states K E anchors mb g \<Longrightarrow> claims_EU g \<Longrightarrow> has_basis g EVIDENCE \<or> has_basis g ENDORSEMENT \<Longrightarrow>
    grounded K E anchors store n mb"
| via: "states K E anchors mb g \<Longrightarrow> claims_EU g \<Longrightarrow> has_basis g ATTESTATION_RESULT \<Longrightarrow> refers_to g u \<Longrightarrow>
    map_of store u = Some up \<Longrightarrow> grounded K E anchors store n up \<Longrightarrow> grounded K E anchors store (Suc n) mb"

inductive_simps grounded_0: "grounded K E anchors store 0 mb"
inductive_simps grounded_Suc: "grounded K E anchors store (Suc n) mb"

lemma states_unique: "states K E anchors mb g \<Longrightarrow> states K E anchors mb g' \<Longrightarrow> g = g'"
  by (auto simp: states_def)

lemma equals_int_unique: "equals_int b i \<Longrightarrow> equals_int b j \<Longrightarrow> i = j"
  by (cases b) (auto simp: equals_int_def)

lemma has_basis_unique: "has_basis g i \<Longrightarrow> has_basis g j \<Longrightarrow> i = j"
  using equals_int_unique by (auto simp: has_basis_def)

lemma EU_text [res_iff]: "in_EU cc = Inr True \<longleftrightarrow> (\<exists>c \<in> EU. cc = CText c)"
  by (cases cc) (auto simp: in_EU_def)

text \<open>The two outcomes of one appraisal under the strict policy that can lead to acceptance.\<close>

lemma appraise_accepts:
  assumes "policy \<noteq> ''lenient''"
  shows "(\<exists>why. appraise K E anchors store policy mb = Inr (Decided ACCEPT why)) \<longleftrightarrow>
     (\<exists>g. states K E anchors mb g \<and> claims_EU g \<and> (has_basis g EVIDENCE \<or> has_basis g ENDORSEMENT))"
proof (cases "cose_open K E mb anchors")
  case (Inr p)
  obtain kid payload where p: "p = (kid, payload)" by (cases p)
  show ?thesis
  proof (cases "geo_of K payload")
    case geo: (Inr q)
    obtain g vid where q: "q = (g, vid)" by (cases q)
    have st: "states K E anchors mb h \<longleftrightarrow> h = g" for h
      using Inr geo by (auto simp: states_def p q)
    show ?thesis
    proof (cases "\<exists>m. g = CMap m")
      case True
      then obtain m where m: "g = CMap m" by blast
      show ?thesis
        using assms unfolding appraise_def
        by (auto simp: Inr p geo q st m get_int_def claims_EU_def has_basis_def labels equals_int_def res_iff
            split: option.splits if_splits cbor.splits)
    next
      case False
      then show ?thesis
        by (cases g) (auto simp: appraise_def Inr p geo q st get_int_def claims_EU_def)
    qed
  qed (auto simp: appraise_def Inr p states_def)
qed (auto simp: appraise_def states_def)

lemma uuid_value_iff [res_iff]: "uuid_value v = Inr u \<longleftrightarrow> v = CBytes u \<and> length u = 16"
  by (cases v) (auto simp: uuid_value_def)

lemma basis_not_both:
  "equals_int b ATTESTATION_RESULT \<Longrightarrow> \<not> equals_int b EVIDENCE \<and> \<not> equals_int b ENDORSEMENT"
  using equals_int_unique [of b 2 0] equals_int_unique [of b 2 1] by (auto simp: labels)

lemma appraise_rests:
  assumes "policy \<noteq> ''lenient''"
  shows "(\<exists>cc ref u. appraise K E anchors store policy mb = Inr (RestsOn cc ref up) \<and> uuid_value ref = Inr u) \<longleftrightarrow>
     (\<exists>g u. states K E anchors mb g \<and> claims_EU g \<and> has_basis g ATTESTATION_RESULT \<and> refers_to g u \<and> map_of store u = Some up)"
proof (cases "cose_open K E mb anchors")
  case (Inr p)
  obtain kid payload where p: "p = (kid, payload)" by (cases p)
  show ?thesis
  proof (cases "geo_of K payload")
    case geo: (Inr q)
    obtain g vid where q: "q = (g, vid)" by (cases q)
    have st: "states K E anchors mb h \<longleftrightarrow> h = g" for h
      using Inr geo by (auto simp: states_def p q)
    show ?thesis
    proof (cases "\<exists>m. g = CMap m")
      case True
      then obtain m where m: "g = CMap m" by blast
      show ?thesis
      proof (cases "lookup_int m L_BASIS")
        case None
        then show ?thesis
          by (auto simp: appraise_def Inr p geo q st m get_int_def has_basis_def equals_int_def res_iff split: if_splits)
      next
        case (Some b)
        show ?thesis
        proof (cases "equals_int b ATTESTATION_RESULT")
          case True
          note nb = basis_not_both [OF True]
          show ?thesis
            using assms True nb unfolding appraise_def
            by (cases "lookup_int m L_COUNTRY"; cases "lookup_int m L_BASIS_REF")
              (auto simp: Inr p geo q st m get_int_def claims_EU_def has_basis_def refers_to_def Some res_iff in_EU_def split: option.splits if_splits)
        next
          case False
          then show ?thesis
            using assms unfolding appraise_def
            by (auto simp: Inr p geo q st m get_int_def has_basis_def Some res_iff split: if_splits)
        qed
      qed
    next
      case False
      then show ?thesis
        by (cases g) (auto simp: appraise_def Inr p geo q st get_int_def claims_EU_def)
    qed
  qed (auto simp: appraise_def Inr p states_def)
qed (auto simp: appraise_def states_def)

lemma rp_accepts:
  "(\<exists>why. rp K E anchors store policy d mb = Inr (ACCEPT, why)) \<longleftrightarrow>
     (\<exists>why. appraise K E anchors store policy mb = Inr (Decided ACCEPT why))
     \<or> d \<le> 4 \<and> (\<exists>up. (\<exists>cc ref u. appraise K E anchors store policy mb = Inr (RestsOn cc ref up) \<and> uuid_value ref = Inr u)
          \<and> (\<exists>why. rp K E anchors store policy (d + 1) up = Inr (ACCEPT, why)))"
proof (cases "appraise K E anchors store policy mb")
  case (Inr a)
  show ?thesis
  proof (cases a)
    case (RestsOn cc ref up)
    then show ?thesis
      by (subst rp.simps) (auto simp: Inr rbind_Inr_iff)
  qed (subst rp.simps, auto simp: Inr)
qed (subst rp.simps, simp)

lemma rp_strict_iff:
  assumes "policy \<noteq> ''lenient''" "d \<le> 5"
  shows "(\<exists>why. rp K E anchors store policy d mb = Inr (ACCEPT, why)) \<longleftrightarrow> grounded K E anchors store (5 - d) mb"
  using assms(2)
proof (induction "5 - d" arbitrary: d mb)
  case 0
  then have "d = 5" by simp
  then show ?case
    unfolding rp_accepts [of K E anchors store policy d mb] appraise_accepts [OF assms(1)]
    by (auto simp: grounded_0)
next
  case (Suc k)
  then have d: "d \<le> 4" and k: "k = 5 - (d + 1)" "5 - d = Suc k" by simp_all
  have IH: "(\<exists>why. rp K E anchors store policy (d + 1) up = Inr (ACCEPT, why)) \<longleftrightarrow> grounded K E anchors store k up" for up
    using Suc.hyps(1) [OF k(1)] d k(1) by simp
  show ?case
    unfolding rp_accepts [of K E anchors store policy d mb] appraise_accepts [OF assms(1)] appraise_rests [OF assms(1)] IH k(2)
    using d unfolding grounded_Suc by blast
qed

lemma appraise_lenient:
  "(\<exists>why. appraise K E anchors store ''lenient'' mb = Inr (Decided ACCEPT why)) \<longleftrightarrow>
     (\<exists>g. states K E anchors mb g \<and> claims_EU g)"
proof (cases "cose_open K E mb anchors")
  case (Inr p)
  obtain kid payload where p: "p = (kid, payload)" by (cases p)
  show ?thesis
  proof (cases "geo_of K payload")
    case geo: (Inr q)
    obtain g vid where q: "q = (g, vid)" by (cases q)
    have st: "states K E anchors mb h \<longleftrightarrow> h = g" for h
      using Inr geo by (auto simp: states_def p q)
    show ?thesis
      by (cases g) (auto simp: appraise_def Inr p geo q st get_int_def claims_EU_def res_iff split: option.splits if_splits)
  qed (auto simp: appraise_def Inr p states_def)
qed (auto simp: appraise_def states_def)

lemma appraise_lenient_decides: "appraise K E anchors store ''lenient'' mb \<noteq> Inr (RestsOn cc ref up)"
  by (auto simp: appraise_def res_iff split: sum.splits if_splits)

lemma rp_lenient_iff:
  "(\<exists>why. rp K E anchors store ''lenient'' d mb = Inr (ACCEPT, why)) \<longleftrightarrow>
     (\<exists>g. states K E anchors mb g \<and> claims_EU g)"
  unfolding rp_accepts [of K E anchors store "''lenient''" d mb] appraise_lenient
  by (simp add: appraise_lenient_decides)

lemma grounded_states: "grounded K E anchors store n mb \<Longrightarrow> \<exists>g. states K E anchors mb g \<and> claims_EU g"
  by (induction rule: grounded.induct) auto

text \<open>A set of results each of which rests on another of the set.\<close>

definition circular :: "codec \<Rightarrow> ed25519 \<Rightarrow> anchors \<Rightarrow> (bytes \<times> bytes) list \<Rightarrow> bytes set \<Rightarrow> bool" where
  "circular K E anchors store M \<longleftrightarrow> (\<forall>m \<in> M. \<exists>cc u up.
     appraise K E anchors store ''strict'' m = Inr (RestsOn cc (CBytes u) up) \<and> length u = 16 \<and> up \<in> M)"

lemma circular_rejected:
  assumes "circular K E anchors store M" "mb \<in> M"
  shows "\<exists>why. rp K E anchors store ''strict'' d mb = Inr (REJECT, why)"
  using assms(2)
proof (induction "5 - d" arbitrary: d mb)
  case (0 d mb)
  then obtain cc u up where "appraise K E anchors store ''strict'' mb = Inr (RestsOn cc (CBytes u) up)"
    using assms(1) unfolding circular_def by blast
  with 0 show ?case by (subst rp.simps) simp
next
  case (Suc k d mb)
  then obtain cc u up where a: "appraise K E anchors store ''strict'' mb = Inr (RestsOn cc (CBytes u) up)"
    and u: "length u = 16" and up: "up \<in> M"
    using assms(1) unfolding circular_def by blast
  from Suc.hyps have k: "k = 5 - (d + 1)" "\<not> 4 < d" by simp_all
  obtain why where "rp K E anchors store ''strict'' (d + 1) up = Inr (REJECT, why)"
    using Suc.hyps(1) [OF k(1) up] by blast
  with a u k show ?case by (subst rp.simps) (simp add: uuid_value_def)
qed

section \<open>Verifier A\<close>

lemma check_sigs_None:
  "check_sigs K E pk cs = Inr None \<longleftrightarrow> (\<forall>c \<in> set cs. \<exists>s. fromhex (sig c) = Inr s \<and> ed_verify E pk s (msg K c))"
  by (induction cs) (auto simp: res_iff split: if_splits)

lemma spacing_ok: "\<not> spacing_short cs \<longleftrightarrow> (\<forall>i. Suc i < length cs \<longrightarrow> ts (cs ! i) + 900 \<le> ts (cs ! Suc i))"
proof -
  have "\<not> spacing_short cs \<longleftrightarrow> (\<forall>p \<in> set (zip cs (tl cs)). ts (fst p) + 900 \<le> ts (snd p))"
    by (auto simp: spacing_short_def list_ex_iff STEP_MIN_def not_less)
  also have "\<dots> \<longleftrightarrow> (\<forall>i < length (zip cs (tl cs)). ts (cs ! i) + 900 \<le> ts (cs ! Suc i))"
    by (simp add: all_set_conv_all_nth nth_tl)
  finally show ?thesis by (simp add: less_diff_conv)
qed

lemma group_all_single: "(\<exists>vs. group_all f g xs = [(k, vs)]) \<longleftrightarrow> xs \<noteq> [] \<and> f ` set xs = {k}"
proof
  assume "\<exists>vs. group_all f g xs = [(k, vs)]"
  then have "fst ` set (group_all f g xs) = {k}" by auto
  then have "f ` set xs = {k}" by (simp add: group_all_keys)
  then show "xs \<noteq> [] \<and> f ` set xs = {k}" by auto
next
  let ?d = "group_all f g xs"
  assume "xs \<noteq> [] \<and> f ` set xs = {k}"
  then have s: "set (map fst ?d) = {k}" by (simp add: group_all_keys)
  moreover have "length (map fst ?d) = card (set (map fst ?d))"
    using distinct_card [OF group_all_distinct [of f g xs]] by (rule sym)
  ultimately have "length (map fst ?d) = 1" by (simp only: card.insert finite.emptyI) simp
  then obtain p where "?d = [p]" by (auto simp: length_Suc_conv)
  with s show "\<exists>vs. ?d = [(k, vs)]" by (cases p) auto
qed

text \<open>What A attests: 64 crumbs signed by the device, at least 15 minutes apart, every cell in the
  first country polygon of the list that covers it, all of them of the code \<open>cc\<close>.\<close>

definition attested_window :: "codec \<Rightarrow> ed25519 \<Rightarrow> bytes \<Rightarrow> crumb list \<Rightarrow> bool" where
  "attested_window K E pk cs \<longleftrightarrow> length cs = 64
     \<and> (\<forall>c \<in> set cs. \<exists>s. fromhex (sig c) = Inr s \<and> ed_verify E pk s (msg K c))
     \<and> (\<forall>i. Suc i < length cs \<longrightarrow> ts (cs ! i) + 900 \<le> ts (cs ! Suc i))"

definition lies_in :: "('g, 'p) geography \<Rightarrow> string \<Rightarrow> string \<Rightarrow> bool" where
  "lies_in G cc c \<longleftrightarrow> (\<exists>poly i. cell_polygon G c = Inr poly \<and> i < length (polys G) \<and> fst (polys G ! i) = cc
     \<and> covers G (snd (snd (polys G ! i))) poly \<and> (\<forall>j < i. \<not> covers G (snd (snd (polys G ! j))) poly))"

definition one_country :: "('g, 'p) geography \<Rightarrow> string \<Rightarrow> crumb list \<Rightarrow> bool" where
  "one_country G cc cs \<longleftrightarrow> (\<forall>c \<in> set cs. lies_in G cc (cell c))"

lemma country_of_cell_iff: "(\<exists>nm. country_of_cell G c = Inr (Some cc, nm)) \<longleftrightarrow> lies_in G cc c"
proof (cases "cell_polygon G c")
  case (Inr poly)
  let ?found = "List.find (\<lambda>(code, name, g). covers G g poly) (polys G)"
  have "(\<exists>nm. country_of_cell G c = Inr (Some cc, nm)) \<longleftrightarrow> (\<exists>x. ?found = Some x \<and> fst x = cc)"
    by (cases ?found) (auto simp: country_of_cell_def Inr)
  also have "\<dots> \<longleftrightarrow> lies_in G cc c"
    unfolding find_Some_iff lies_in_def by (auto simp: Inr case_prod_beta simp del: split_paired_Ex)
  finally show ?thesis .
qed (simp add: country_of_cell_def lies_in_def)

lemma rmap_Inr_iff: "rmap f xs = Inr ys \<longleftrightarrow> list_all2 (\<lambda>x y. f x = Inr y) xs ys"
  by (induction xs arbitrary: ys) (auto simp: res_iff list_all2_Cons1)

text \<open>The dictionary of codes has the single key \<open>cc\<close> exactly when every cell lies in \<open>cc\<close>.\<close>

lemma countries_single:
  "(\<exists>cn. rmap (\<lambda>c. country_of_cell G (cell c)) cs = Inr cn
      \<and> (\<exists>vs. group_all fst snd (zip (map fst cn) (map cell cs)) = [(Some cc, vs)])) \<longleftrightarrow>
   cs \<noteq> [] \<and> one_country G cc cs"
proof -
  have img: "fst ` set (zip (map fst cn) (map cell cs)) = fst ` set cn" if "length cn = length cs" for cn
    using that by (simp add: set_map [symmetric] del: set_map)
  have one: "one_country G cc cs \<longleftrightarrow> (\<exists>cn. list_all2 (\<lambda>c y. country_of_cell G (cell c) = Inr y) cs cn \<and> (\<forall>y \<in> set cn. fst y = Some cc))"
    unfolding one_country_def country_of_cell_iff [symmetric]
  proof (induction cs)
    case (Cons c cs)
    show ?case by (simp add: list_all2_Cons1 Cons.IH) fastforce
  qed simp
  have keys: "(zip (map fst cn) (map cell cs) \<noteq> [] \<and> fst ` set (zip (map fst cn) (map cell cs)) = {Some cc}) \<longleftrightarrow>
      cs \<noteq> [] \<and> (\<forall>y \<in> set cn. fst y = Some cc)" if "length cn = length cs" for cn
    using that unfolding img [OF that] by (cases cn; cases cs) auto
  show ?thesis
  proof
    assume "\<exists>cn. rmap (\<lambda>c. country_of_cell G (cell c)) cs = Inr cn
      \<and> (\<exists>vs. group_all fst snd (zip (map fst cn) (map cell cs)) = [(Some cc, vs)])"
    then obtain cn where cn: "list_all2 (\<lambda>c y. country_of_cell G (cell c) = Inr y) cs cn"
      and k: "zip (map fst cn) (map cell cs) \<noteq> [] \<and> fst ` set (zip (map fst cn) (map cell cs)) = {Some cc}"
      unfolding rmap_Inr_iff group_all_single by blast
    from k have "cs \<noteq> [] \<and> (\<forall>y \<in> set cn. fst y = Some cc)"
      unfolding keys [OF list_all2_lengthD [OF cn, symmetric]] .
    with cn show "cs \<noteq> [] \<and> one_country G cc cs" unfolding one by blast
  next
    assume r: "cs \<noteq> [] \<and> one_country G cc cs"
    then obtain cn where cn: "list_all2 (\<lambda>c y. country_of_cell G (cell c) = Inr y) cs cn" "\<forall>y \<in> set cn. fst y = Some cc"
      unfolding one by blast
    with r have "zip (map fst cn) (map cell cs) \<noteq> [] \<and> fst ` set (zip (map fst cn) (map cell cs)) = {Some cc}"
      unfolding keys [OF list_all2_lengthD [OF cn(1), symmetric]] by blast
    with cn(1) show "\<exists>cn. rmap (\<lambda>c. country_of_cell G (cell c)) cs = Inr cn
      \<and> (\<exists>vs. group_all fst snd (zip (map fst cn) (map cell cs)) = [(Some cc, vs)])"
      unfolding rmap_Inr_iff group_all_single by blast
  qed
qed

lemma name_of_found: "lies_in G cc c \<Longrightarrow> \<exists>nm. name_of G cc = Inr nm"
proof -
  assume "lies_in G cc c"
  then obtain i where "i < length (polys G)" "fst (polys G ! i) = cc" by (auto simp: lies_in_def)
  then have "List.find (\<lambda>(i, n, g). i = cc) (polys G) \<noteq> None"
    unfolding find_None_iff case_prod_beta using nth_mem by blast
  then show ?thesis by (auto simp: name_of_def split: option.splits)
qed

definition A_result :: "bool \<Rightarrow> string \<Rightarrow> string \<Rightarrow> crumb list \<Rightarrow> geo_result" where
  "A_result supplied cc nm cs =
     (let u1 = claim_uuid (if supplied then ''trip-supplied:'' else ''trip-synthetic:'') cs in
      \<lparr>gr_core = CMap (core_map cc u1),
       gr_ext = CMap (core_map cc u1 @ [(CInt L_PROV, CText ''I-D.trip''), (CInt L_OBS_FROM, CTag 1 (CInt (ts (hd cs)))),
         (CInt L_OBS_UNTIL, CTag 1 (CInt (ts (last cs))))]),
       gr_uuid = u1, gr_country = cc, gr_name = nm\<rparr>)"

lemma A_tail_Result:
  "(case found of [(Some cc, x)] \<Rightarrow> rbind (name_of G cc) (\<lambda>nm. Ok (Result (R cc nm))) | _ \<Rightarrow> Ok (Refused q)) = Inr (Result r)
    \<longleftrightarrow> (\<exists>cc vs nm. found = [(Some cc, vs)] \<and> name_of G cc = Inr nm \<and> r = R cc nm)"
  by (auto simp: res_iff split: list.splits option.splits)

lemma attested_nonempty: "attested_window K E pk cs \<Longrightarrow> cs \<noteq> []"
  by (auto simp: attested_window_def)

lemma verifier_A_fold:
  "verifier_A K E G supplied ev =
     rbind (fromhex (device_pub ev)) (\<lambda>raw. rbind (ed_load_public E raw) (\<lambda>pk.
     rbind (check_sigs K E pk (crumbs ev)) (\<lambda>failed. case failed of Some i \<Rightarrow> Ok (Refused (SignatureFailed i)) | None \<Rightarrow>
     if length (crumbs ev) \<noteq> 64 then Ok (Refused WrongWindow)
     else if spacing_short (crumbs ev) then Ok (Refused SpacingTooShort)
     else rbind (rmap (\<lambda>c. country_of_cell G (cell c)) (crumbs ev)) (\<lambda>cn.
       case group_all fst snd (zip (map fst cn) (map cell (crumbs ev))) of
         [(Some cc, x)] \<Rightarrow> rbind (name_of G cc) (\<lambda>nm. Ok (Result (A_result supplied cc nm (crumbs ev))))
       | _ \<Rightarrow> Ok (Refused (NoSingleCountry (sort (map (str_opt \<circ> fst) (group_all fst snd (zip (map fst cn) (map cell (crumbs ev)))))))))))) "
  unfolding verifier_A_def A_result_def Let_def N_CELLS_def by (rule refl)

lemma verifier_A_Result:
  "verifier_A K E G supplied ev = Inr (Result r) \<longleftrightarrow> (\<exists>raw pk cc nm. fromhex (device_pub ev) = Inr raw \<and> ed_load_public E raw = Inr pk
     \<and> attested_window K E pk (crumbs ev) \<and> one_country G cc (crumbs ev) \<and> name_of G cc = Inr nm
     \<and> r = A_result supplied cc nm (crumbs ev))"
proof -
  let ?cs = "crumbs ev"
  let ?found = "\<lambda>cn. group_all fst snd (zip (map fst cn) (map cell ?cs))"
  have "verifier_A K E G supplied ev = Inr (Result r) \<longleftrightarrow> (\<exists>raw pk. fromhex (device_pub ev) = Inr raw \<and> ed_load_public E raw = Inr pk
     \<and> check_sigs K E pk ?cs = Inr None \<and> length ?cs = 64 \<and> \<not> spacing_short ?cs
     \<and> (\<exists>cn cc vs nm. rmap (\<lambda>c. country_of_cell G (cell c)) ?cs = Inr cn \<and> ?found cn = [(Some cc, vs)]
          \<and> name_of G cc = Inr nm \<and> r = A_result supplied cc nm ?cs))"
    unfolding verifier_A_fold rbind_Inr_iff
    by (auto simp: rbind_Inr_iff A_tail_Result split: option.splits if_splits)
  also have "\<dots> \<longleftrightarrow> (\<exists>raw pk. fromhex (device_pub ev) = Inr raw \<and> ed_load_public E raw = Inr pk
     \<and> attested_window K E pk ?cs \<and> (\<exists>cc nm. (?cs \<noteq> [] \<and> one_country G cc ?cs)
          \<and> name_of G cc = Inr nm \<and> r = A_result supplied cc nm ?cs))"
    unfolding check_sigs_None spacing_ok countries_single [symmetric] attested_window_def by blast
  finally show ?thesis using attested_nonempty by blast
qed

section \<open>UUIDs\<close>

lemma length_uuid5: "length (uuid5 ns nm) = 16"
  using sha1h.length_digest [of "ns @ utf8 nm"] by (simp add: uuid5_def Let_def sha1_alg_def)

lemma uuid5_version: "uuid5 ns nm ! 6 AND 0xf0 = 0x50" "uuid5 ns nm ! 8 AND 0xc0 = 0x80"
proof -
  have "length (take 16 (sha1 (ns @ utf8 nm))) = 16"
    using sha1h.length_digest [of "ns @ utf8 nm"] by (simp add: sha1_alg_def)
  then show "uuid5 ns nm ! 6 AND 0xf0 = 0x50" "uuid5 ns nm ! 8 AND 0xc0 = 0x80"
    by (simp_all add: uuid5_def Let_def bit.conj_disj_distrib2 and.assoc del: length_take)
qed

section \<open>Verifier B and the two results it can emit\<close>

definition B_map :: "string \<Rightarrow> bytes \<Rightarrow> int \<Rightarrow> int \<Rightarrow> bool \<Rightarrow> (cbor \<times> cbor) list" where
  "B_map cc u1 t0 tn ref =
     [(CInt L_COUNTRY, CText cc), (CInt L_UUID, CBytes (uuid5 UUID_NS (''hop2:'' @ hex u1))), (CInt L_BASIS, CInt ATTESTATION_RESULT)]
     @ (if ref then [(CInt L_BASIS_REF, CBytes u1)] else [])
     @ [(CInt L_OBS_FROM, CTag 1 (CInt t0)), (CInt L_OBS_UNTIL, CTag 1 (CInt tn))]"

definition A_map :: "string \<Rightarrow> bytes \<Rightarrow> int \<Rightarrow> int \<Rightarrow> (cbor \<times> cbor) list" where
  "A_map cc u1 t0 tn = core_map cc u1 @ [(CInt L_PROV, CText ''I-D.trip''), (CInt L_OBS_FROM, CTag 1 (CInt t0)),
     (CInt L_OBS_UNTIL, CTag 1 (CInt tn))]"

text \<open>Times a date can hold.\<close>

definition date_ok :: "int \<Rightarrow> bool" where
  "date_ok n \<longleftrightarrow> 0 \<le> n \<and> n < 253402300800"

lemma plain_A_map: "plain (CMap (A_map cc u1 t0 tn)) \<longleftrightarrow> date_ok t0 \<and> date_ok tn"
  by (auto simp: A_map_def core_map_def labels date_ok_def)

lemma plain_B_map: "plain (CMap (B_map cc u1 t0 tn ref)) \<longleftrightarrow> date_ok t0 \<and> date_ok tn"
  by (auto simp: B_map_def labels date_ok_def)

lemma decoded_A_map: "decoded (CMap (A_map cc u1 t0 tn)) = CMap (core_map cc u1 @
     [(CInt L_PROV, CText ''I-D.trip''), (CInt L_OBS_FROM, CDate t0), (CInt L_OBS_UNTIL, CDate tn)])"
  by (simp add: A_map_def core_map_def)

lemma states_signed:
  assumes "codec_ok K" "sign_ok E" "plain g" "map_of anchors kid = Some (ed_public E key)"
  shows "states K E anchors (cose_sign1 K E (dumps K (ear vid g iat sub)) key kid) h \<longleftrightarrow> h = decoded g"
  using assms by (auto simp: states_def cose_open_trusted geo_of_ear)

lemma states_untrusted:
  assumes "codec_ok K" "map_of anchors kid = Some pub" "\<not> ed_verify E pub (ed_sign E key (tbs K p)) (tbs K p)"
  shows "\<not> states K E anchors (cose_sign1 K E p key kid) h"
  using assms by (simp add: states_def cose_open_sign1)

lemma verifier_B_value:
  assumes "codec_ok K" "sign_ok E" "date_ok t0" "date_ok tn"
  shows "verifier_B K E (ed_public E keyA) keyB iat
      (cose_sign1 K E (dumps K (ear vid (CMap (A_map cc u1 t0 tn)) i sub)) keyA (utf8 ''A'')) ref
    = Ok (CMap (B_map cc u1 t0 tn ref), uuid5 UUID_NS (''hop2:'' @ hex u1),
        cose_sign1 K E (dumps K (ear ''workload-verifier-B'' (CMap (B_map cc u1 t0 tn ref)) (iat + 5) ''workload'')) keyB (utf8 ''B''))"
proof -
  have "plain (CMap (A_map cc u1 t0 tn))" using assms(3,4) unfolding plain_A_map by simp
  note g = geo_of_ear [OF assms(1) this, unfolded decoded_A_map]
  have "map_of [(utf8 ''A'', ed_public E keyA)] (utf8 ''A'') = Some (ed_public E keyA)" by simp
  note o = cose_open_trusted [OF assms(1,2) this]
  let ?d = "CMap (core_map cc u1 @ [(CInt L_PROV, CText ''I-D.trip''), (CInt L_OBS_FROM, CDate t0), (CInt L_OBS_UNTIL, CDate tn)])"
  have i: "item ?d L_UUID = Ok (CBytes u1)" "item ?d L_COUNTRY = Ok (CText cc)"
    by (simp_all add: item_def core_map_def labels)
  have t: "copy_times ?d [L_OBS_FROM, L_OBS_UNTIL] = Ok [(CInt L_OBS_FROM, CTag 1 (CInt t0)), (CInt L_OBS_UNTIL, CTag 1 (CInt tn))]"
    by (simp add: contains_int_def item_def core_map_def labels reencode_time_def)
  show ?thesis
    by (simp add: verifier_B_def o g i t hex_method_def B_map_def Let_def del: copy_times.simps)
qed

lemma claims_EU_maps:
  "claims_EU (decoded (CMap (A_map cc u1 t0 tn))) \<longleftrightarrow> cc \<in> EU"
  "claims_EU (decoded (CMap (B_map cc u1 t0 tn ref))) \<longleftrightarrow> cc \<in> EU"
  by (simp_all add: claims_EU_def A_map_def B_map_def core_map_def labels)

lemma basis_maps:
  "has_basis (decoded (CMap (A_map cc u1 t0 tn))) n \<longleftrightarrow> n = EVIDENCE"
  "has_basis (decoded (CMap (B_map cc u1 t0 tn ref))) n \<longleftrightarrow> n = ATTESTATION_RESULT"
  by (auto simp: has_basis_def A_map_def B_map_def core_map_def labels)

lemma refers_maps:
  "refers_to (decoded (CMap (B_map cc u1 t0 tn True))) u \<longleftrightarrow> u = u1 \<and> length u = 16"
  "\<not> refers_to (decoded (CMap (B_map cc u1 t0 tn False))) u"
  by (auto simp: refers_to_def B_map_def labels)

lemma utf8_A_B: "utf8 ''A'' \<noteq> utf8 ''B''"
  by (simp add: utf8_def utf8_char_def)

lemma signer_key:
  "map_of [(utf8 ''A'', pA), (utf8 ''B'', pB)] (utf8 ''A'') = Some pA"
  "map_of [(utf8 ''A'', pA), (utf8 ''B'', pB)] (utf8 ''B'') = Some pB"
  using utf8_A_B by auto

lemma row_verdicts:
  assumes "rp_row K E anchors store (n, m) = Inr (n', s, l)"
  shows "fst s = ACCEPT \<longleftrightarrow> grounded K E anchors store 5 m"
    and "fst l = ACCEPT \<longleftrightarrow> (\<exists>g. states K E anchors m g \<and> claims_EU g)"
proof -
  from assms have s: "rp K E anchors store ''strict'' 0 m = Inr s" and l: "rp K E anchors store ''lenient'' 0 m = Inr l"
    by (auto simp: rp_row_def res_iff)
  show "fst s = ACCEPT \<longleftrightarrow> grounded K E anchors store 5 m"
    using rp_strict_iff [of "''strict''" 0 K E anchors store m] s by (cases s) auto
  show "fst l = ACCEPT \<longleftrightarrow> (\<exists>g. states K E anchors m g \<and> claims_EU g)"
    using rp_lenient_iff [of K E anchors store 0 m] l by (cases l) auto
qed

text \<open>The four messages of the run that do not come from the earlier artifact, as the Relying
  Party sees them.\<close>

definition verdicts :: "string \<times> (verdict \<times> reason) \<times> (verdict \<times> reason) \<Rightarrow> verdict \<times> verdict" where
  "verdicts row = (case row of (n, s, l) \<Rightarrow> (fst s, fst l))"

lemma not_ACCEPT: "v \<noteq> ACCEPT \<longleftrightarrow> v = REJECT"
  by (cases v) simp_all

lemma row_value:
  assumes "rp_row K E anchors store (n, m) = Inr row"
    and "a \<longleftrightarrow> grounded K E anchors store 5 m" and "b \<longleftrightarrow> (\<exists>g. states K E anchors m g \<and> claims_EU g)"
  shows "verdicts row = (if a then ACCEPT else REJECT, if b then ACCEPT else REJECT)"
proof -
  obtain n' s l where row: "row = (n', s, l)" by (cases row)
  show ?thesis
    using row_verdicts [OF assms(1) [unfolded row]] assms(2,3) not_ACCEPT
    by (auto simp: row verdicts_def)
qed

lemma A_result_fields:
  "gr_ext (A_result supplied cc nm cs) = CMap (A_map cc (gr_uuid (A_result supplied cc nm cs)) (ts (hd cs)) (ts (last cs)))"
  "gr_country (A_result supplied cc nm cs) = cc" "length (gr_uuid (A_result supplied cc nm cs)) = 16"
  by (simp_all add: A_result_def A_map_def claim_uuid_def length_uuid5 Let_def)

lemma trip_run_parts:
  assumes "trip_run K E G supplied ev nl = Inr rep" "codec_ok K" "sign_ok E" "date_ok (ts (hd (crumbs ev)))" "date_ok (ts (last (crumbs ev)))"
  obtains cc nm r u1 u2 iat earA earB earN earX rows where
    "verifier_A K E G supplied ev = Inr (Result r)" "tr_result rep = r" "gr_uuid r = u1" "length u1 = 16" "gr_country r = cc"
    "u2 = uuid5 UUID_NS (''hop2:'' @ hex u1)" "iat = ts (last (crumbs ev)) + 60"
    "earA = cose_sign1 K E (dumps K (ear ''geoar-verifier-A'' (CMap (A_map cc u1 (ts (hd (crumbs ev))) (ts (last (crumbs ev))))) iat ''trip-device'')) key_A (utf8 ''A'')"
    "earX = cose_sign1 K E (dumps K (ear ''geoar-verifier-A'' (CMap (A_map cc u1 (ts (hd (crumbs ev))) (ts (last (crumbs ev))))) iat ''trip-device'')) key_X (utf8 ''A'')"
    "earB = cose_sign1 K E (dumps K (ear ''workload-verifier-B'' (CMap (B_map cc u1 (ts (hd (crumbs ev))) (ts (last (crumbs ev))) True)) (iat + 5) ''workload'')) key_B (utf8 ''B'')"
    "earN = cose_sign1 K E (dumps K (ear ''workload-verifier-B'' (CMap (B_map cc u1 (ts (hd (crumbs ev))) (ts (last (crumbs ev))) False)) (iat + 5) ''workload'')) key_B (utf8 ''B'')"
    "gr_ext r = CMap (A_map cc u1 (ts (hd (crumbs ev))) (ts (last (crumbs ev))))"
    "rmap (rp_row K E [(utf8 ''A'', ed_public E key_A), (utf8 ''B'', ed_public E key_B)] (AList.update u2 earB [(u1, earA)]))
       ([(''R1 EAR from A (evidence)'', earA), (''R2 EAR from B (attestation-result, basis-ref U1)'', earB),
         (''R2 without basis-ref'', earN), (''forged EAR, kid A, untrusted key'', earX)] @ rows) = Inr (tr_table rep)"
proof -
  from assms(1) obtain out where o: "verifier_A K E G supplied ev = Inr out"
    by (cases "verifier_A K E G supplied ev") (simp_all add: trip_run_def)
  with assms(1) obtain r where r: "out = Result r" by (cases out) (simp_all add: trip_run_def)
  from o [unfolded r verifier_A_Result] obtain cc nm where rv: "r = A_result supplied cc nm (crumbs ev)" by blast
  note f = A_result_fields [where supplied = supplied and cc = cc and nm = nm and cs = "crumbs ev", folded rv]
  note B = verifier_B_value [OF assms(2-5), where keyA = key_A and keyB = key_B and cc = cc and ?u1.0 = "gr_uuid r"
      and vid = "''geoar-verifier-A''" and sub = "''trip-device''" and i = "ts (last (crumbs ev)) + 60" and iat = "ts (last (crumbs ev)) + 60"]
  show ?thesis
    using assms(1) unfolding trip_run_def o r Let_def rbind_simps outcome.case f(1) B prod.case
    by (auto simp only: rbind_Inr_iff of_option_Inr_iff sum.inject trip_report.simps append.simps
        intro!: that [OF o [unfolded r] _ refl f(3) f(2) refl refl refl refl refl refl f(1)])
qed

section \<open>When the Relying Party reaches a verdict\<close>

text \<open>A geographic map whose country is text and whose reference, if any, is 16 bytes.\<close>

definition tame :: "cbor \<Rightarrow> bool" where
  "tame g \<longleftrightarrow> (\<exists>m. g = CMap m \<and> (\<exists>c. lookup_int m L_COUNTRY = Some (CText c))
     \<and> (lookup_int m L_BASIS_REF = None \<or> (\<exists>u. lookup_int m L_BASIS_REF = Some (CBytes u) \<and> length u = 16)))"

text \<open>Every message of the set that opens carries such a map.\<close>

definition well_behaved :: "codec \<Rightarrow> ed25519 \<Rightarrow> anchors \<Rightarrow> bytes set \<Rightarrow> bool" where
  "well_behaved K E anchors M \<longleftrightarrow> (\<forall>m \<in> M. \<forall>kid payload. cose_open K E m anchors = Inr (kid, payload) \<longrightarrow>
     (\<exists>g vid. geo_of K payload = Inr (g, vid) \<and> tame g))"

lemma appraise_returns:
  assumes "well_behaved K E anchors {mb}"
  shows "(\<exists>v why. appraise K E anchors store policy mb = Inr (Decided v why))
    \<or> (\<exists>cc u up. appraise K E anchors store policy mb = Inr (RestsOn cc (CBytes u) up) \<and> length u = 16 \<and> up \<in> snd ` set store)"
proof (cases "cose_open K E mb anchors")
  case (Inr p)
  obtain kid payload where p: "p = (kid, payload)" by (cases p)
  with Inr assms obtain g vid where g: "geo_of K payload = Inr (g, vid)" "tame g"
    by (auto simp: well_behaved_def)
  then obtain m c where m: "g = CMap m" "lookup_int m L_COUNTRY = Some (CText c)"
    "lookup_int m L_BASIS_REF = None \<or> (\<exists>u. lookup_int m L_BASIS_REF = Some (CBytes u) \<and> length u = 16)"
    by (auto simp: tame_def)
  have eu: "in_EU (CText c) = Ok (c \<in> EU)" by (simp add: in_EU_def)
  show ?thesis
    using m(3) unfolding appraise_def
    by (auto simp: Inr p g m(1,2) get_int_def eu uuid_value_def split: option.splits dest!: map_of_SomeD)
      force+
qed (simp add: appraise_def)

lemma rp_returns_aux:
  assumes "well_behaved K E anchors (insert mb (snd ` set store))"
  shows "\<exists>v why. rp K E anchors store policy d mb = Inr (v, why)"
  using assms
proof (induction "6 - d" arbitrary: d mb)
  case 0
  then have "well_behaved K E anchors {mb}" by (auto simp: well_behaved_def)
  from appraise_returns [OF this, of store policy] 0(1) show ?case
    by (subst rp.simps) (auto simp: uuid_value_def)
next
  case (Suc k)
  from Suc.prems have w: "well_behaved K E anchors {mb}" by (auto simp: well_behaved_def)
  show ?case
  proof (cases "\<exists>v why. appraise K E anchors store policy mb = Inr (Decided v why)")
    case True
    then show ?thesis by (subst rp.simps) auto
  next
    case False
    with appraise_returns [OF w, of store policy] obtain cc u up where
        a: "appraise K E anchors store policy mb = Inr (RestsOn cc (CBytes u) up)" "length u = 16" "up \<in> snd ` set store"
      by blast
    show ?thesis
    proof (cases "4 < d")
      case True
      with a show ?thesis by (subst rp.simps) simp
    next
      case False
      have "well_behaved K E anchors (insert up (snd ` set store))"
        using Suc.prems a(3) by (auto simp: well_behaved_def)
      moreover have "k = 6 - (d + 1)" using Suc.hyps(2) by simp
      ultimately obtain v why where "rp K E anchors store policy (d + 1) up = Inr (v, why)"
        using Suc.hyps(1) by blast
      with a False show ?thesis by (subst rp.simps) (simp add: uuid_value_def)
    qed
  qed
qed

end
