(* ===== verification/TripProps.thy ===== *)
theory TripProps
  imports TripProofs
begin

text \<open>
  The properties of the chain of \<open>trip_chain.py\<close> and \<open>trip_example.py\<close>, with a concrete world (a
  codec, keys, one country, 64 crumbs) in which their hypotheses hold.
\<close>

section \<open>A concrete world\<close>

text \<open>Keys sign by prefixing themselves; every cell lies in the only country of the list.\<close>

definition demo_ed :: ed25519 where
  "demo_ed = \<lparr>ed_load_public = (\<lambda>b. Ok b), ed_public = (\<lambda>k. k), ed_sign = (\<lambda>k m. k @ m), ed_verify = (\<lambda>p s m. s = p @ m)\<rparr>"

definition demo_geo :: "(unit, string) geography" where
  "demo_geo = \<lparr>polys = [(''NL'', ''Netherlands'', ())], covers = (\<lambda>g p. True), cell_polygon = (\<lambda>c. Ok c), cell_centre = (\<lambda>c. Ok c)\<rparr>"

definition demo_crumb :: "nat \<Rightarrow> crumb" where
  "demo_crumb i = (let c = \<lparr>seq = int i, ts = 900 * int i, cell = ''8a1969'', sig = []\<rparr> in c\<lparr>sig := hex ([9] @ msg demo_codec c)\<rparr>)"

definition demo_evidence :: evidence where
  "demo_evidence = \<lparr>device_pub = hex [9], crumbs = map demo_crumb [0..<64]\<rparr>"

lemma demo_codec_ok: "codec_ok demo_codec"
  by (simp add: codec_ok_def demo_codec_round_trips)

lemma demo_sign_ok: "sign_ok demo_ed"
  by (simp add: sign_ok_def demo_ed_def)

lemma demo_attested: "attested_window demo_codec demo_ed [9] (crumbs demo_evidence)"
  by (auto simp: attested_window_def demo_evidence_def demo_crumb_def demo_ed_def msg_def Let_def nth_append)

lemma demo_one_country: "one_country demo_geo ''NL'' (crumbs demo_evidence)"
  by (auto simp: one_country_def lies_in_def demo_geo_def)

lemma demo_A: "verifier_A demo_codec demo_ed demo_geo s demo_evidence
    = Inr (Result (A_result s ''NL'' ''Netherlands'' (crumbs demo_evidence)))"
  unfolding verifier_A_Result
  using demo_attested demo_one_country
  by (auto simp: demo_evidence_def demo_ed_def demo_geo_def name_of_def)

lemma demo_dates: "date_ok (ts (hd (crumbs demo_evidence)))" "date_ok (ts (last (crumbs demo_evidence)))"
proof -
  have "[0..<64] = 0 # [1..<63] @ [63 :: nat]" by (simp add: upt_rec numeral_eq_Suc)
  then show "date_ok (ts (hd (crumbs demo_evidence)))" "date_ok (ts (last (crumbs demo_evidence)))"
    by (simp_all add: demo_evidence_def demo_crumb_def Let_def date_ok_def)
qed

text \<open>Messages signed by the two keys, and their good behaviour.\<close>

lemma well_behaved_signed:
  assumes "codec_ok K" "plain g" "tame (decoded g)"
  shows "well_behaved K E anchors {cose_sign1 K E (dumps K (ear vid g iat sub)) key kid}"
  using assms by (auto simp: well_behaved_def cose_open_sign1 geo_of_ear split: option.splits if_splits)

lemma well_behaved_union: "well_behaved K E anchors {m} \<Longrightarrow> well_behaved K E anchors M \<Longrightarrow> well_behaved K E anchors (insert m M)"
  by (auto simp: well_behaved_def)

lemma well_behaved_subset: "well_behaved K E anchors M \<Longrightarrow> M' \<subseteq> M \<Longrightarrow> well_behaved K E anchors M'"
  by (auto simp: well_behaved_def)

lemma tame_maps:
  "length u1 = 16 \<Longrightarrow> tame (decoded (CMap (A_map cc u1 t0 tn)))"
  "length u1 = 16 \<Longrightarrow> tame (decoded (CMap (B_map cc u1 t0 tn ref)))"
  by (auto simp: tame_def A_map_def B_map_def core_map_def labels)

lemma rp_row_returns:
  assumes "well_behaved K E anchors (insert m (snd ` set store))"
  shows "\<exists>row. rp_row K E anchors store (n, m) = Inr row"
  using rp_returns_aux [OF assms, of "''strict''" 0] rp_returns_aux [OF assms, of "''lenient''" 0]
  by (auto simp: rp_row_def)

lemma six_rows:
  assumes w: "well_behaved K E an (snd ` set st)"
    and m: "well_behaved K E an {m1}" "well_behaved K E an {m2}" "well_behaved K E an {m3}"
      "well_behaved K E an {m4}" "well_behaved K E an {m5}" "well_behaved K E an {m6}"
  shows "\<exists>t. rmap (rp_row K E an st) [(n1, m1), (n2, m2), (n3, m3), (n4, m4), (n5, m5), (n6, m6)] = Inr t"
proof -
  have row: "\<exists>y. rp_row K E an st (n, x) = Inr y" if "well_behaved K E an {x}" for n x
    by (rule rp_row_returns [OF well_behaved_union [OF that w]])
  obtain y1 where y1: "rp_row K E an st (n1, m1) = Inr y1" using row [OF m(1)] by blast
  obtain y2 where y2: "rp_row K E an st (n2, m2) = Inr y2" using row [OF m(2)] by blast
  obtain y3 where y3: "rp_row K E an st (n3, m3) = Inr y3" using row [OF m(3)] by blast
  obtain y4 where y4: "rp_row K E an st (n4, m4) = Inr y4" using row [OF m(4)] by blast
  obtain y5 where y5: "rp_row K E an st (n5, m5) = Inr y5" using row [OF m(5)] by blast
  obtain y6 where y6: "rp_row K E an st (n6, m6) = Inr y6" using row [OF m(6)] by blast
  show ?thesis by (simp add: y1 y2 y3 y4 y5 y6)
qed

lemma trip_run_returns:
  assumes "codec_ok K" "sign_ok E" "date_ok (ts (hd (crumbs ev)))" "date_ok (ts (last (crumbs ev)))"
    and A: "verifier_A K E G supplied ev = Inr (Result r)"
    and snp: "map_of nl ''SEV-SNP'' = Some p1" "geo_of K (CBytes p1) = Inr (g1, v1)" "tame g1"
    and azure: "map_of nl ''Azure'' = Some p2" "geo_of K (CBytes p2) = Inr (g2, v2)" "tame g2"
  shows "\<exists>rep. trip_run K E G supplied ev (Ok nl) = Inr rep \<and> tr_result rep = r"
proof -
  from A [unfolded verifier_A_Result] obtain cc nm where rv: "r = A_result supplied cc nm (crumbs ev)" by blast
  let ?t0 = "ts (hd (crumbs ev))" and ?tn = "ts (last (crumbs ev))"
  let ?an = "[(utf8 ''A'', ed_public E key_A), (utf8 ''B'', ed_public E key_B)]"
  let ?A = "\<lambda>key. cose_sign1 K E (dumps K (ear ''geoar-verifier-A'' (CMap (A_map cc (gr_uuid r) ?t0 ?tn)) (?tn + 60) ''trip-device'')) key (utf8 ''A'')"
  let ?B = "\<lambda>ref. cose_sign1 K E (dumps K (ear ''workload-verifier-B'' (CMap (B_map cc (gr_uuid r) ?t0 ?tn ref)) (?tn + 60 + 5) ''workload'')) key_B (utf8 ''B'')"
  let ?S = "\<lambda>p. cose_sign1 K E p key_A (utf8 ''A'')"
  let ?st = "AList.update (uuid5 UUID_NS (''hop2:'' @ hex (gr_uuid r))) (?B True) [(gr_uuid r, ?A key_A)]"
  note f = A_result_fields [where supplied = supplied and cc = cc and nm = nm and cs = "crumbs ev", folded rv]
  have plain: "plain (CMap (A_map cc (gr_uuid r) ?t0 ?tn))" "plain (CMap (B_map cc (gr_uuid r) ?t0 ?tn b))" for b
    unfolding plain_A_map plain_B_map using assms(3,4) by simp_all
  have wA: "well_behaved K E ?an {?A key}" for key
    by (rule well_behaved_signed [OF assms(1) plain(1) tame_maps(1) [OF f(3)]])
  have wB: "well_behaved K E ?an {?B ref}" for ref
    by (rule well_behaved_signed [OF assms(1) plain(2) tame_maps(2) [OF f(3)]])
  have wS: "well_behaved K E ?an {?S p1}" "well_behaved K E ?an {?S p2}"
    using snp azure by (auto simp: well_behaved_def cose_open_sign1 [OF assms(1)] split: option.splits if_splits)
  have "well_behaved K E ?an (snd ` set ?st)"
    by (rule well_behaved_subset [OF well_behaved_union [OF wA [of key_A] wB [of True]]]) auto
  from six_rows [OF this wA [of key_A] wB [of True] wB [of False] wA [of key_X] wS]
  have "\<exists>t. rmap (rp_row K E ?an ?st) [(''R1 EAR from A (evidence)'', ?A key_A), (''R2 EAR from B (attestation-result, basis-ref U1)'', ?B True),
         (''R2 without basis-ref'', ?B False), (''forged EAR, kid A, untrusted key'', ?A key_X),
         (''26-run SEV-SNP NL (basis 2, no ref)'', ?S p1), (''26-run Azure NL (basis 1)'', ?S p2)] = Inr t"
    by blast
  then obtain t where t: "rmap (rp_row K E ?an ?st) [(''R1 EAR from A (evidence)'', ?A key_A), (''R2 EAR from B (attestation-result, basis-ref U1)'', ?B True),
         (''R2 without basis-ref'', ?B False), (''forged EAR, kid A, untrusted key'', ?A key_X),
         (''26-run SEV-SNP NL (basis 2, no ref)'', ?S p1), (''26-run Azure NL (basis 1)'', ?S p2)] = Inr t" by blast
  note B = verifier_B_value [OF assms(1-4), where keyA = key_A and keyB = key_B and cc = cc and ?u1.0 = "gr_uuid r"
      and vid = "''geoar-verifier-A''" and sub = "''trip-device''" and i = "?tn + 60" and iat = "?tn + 60"]
  show ?thesis
    unfolding trip_run_def A Let_def rbind_simps outcome.case f(1) B prod.case snp(1) azure(1) of_option_simps t
    by simp
qed

lemma demo_run:
  obtains rep where "trip_run demo_codec demo_ed demo_geo False demo_evidence
      (Ok [(''SEV-SNP'', dumps demo_codec (ear ''r'' (CMap [(CInt 0, CText ''US'')]) 0 ''s'')),
       (''Azure'', dumps demo_codec (ear ''r'' (CMap [(CInt 0, CText ''US'')]) 0 ''s''))]) = Inr rep"
    "tr_result rep = A_result False ''NL'' ''Netherlands'' (crumbs demo_evidence)"
proof -
  let ?g = "CMap [(CInt 0, CText ''US'')]"
  have "plain ?g" by simp
  note g = geo_of_ear [OF demo_codec_ok this]
  have "tame (decoded ?g)" by (simp add: tame_def labels)
  note r = trip_run_returns [OF demo_codec_ok demo_sign_ok demo_dates demo_A _ g this _ g this]
  have "\<exists>rep. trip_run demo_codec demo_ed demo_geo False demo_evidence
      (Ok [(''SEV-SNP'', dumps demo_codec (ear ''r'' ?g 0 ''s'')), (''Azure'', dumps demo_codec (ear ''r'' ?g 0 ''s''))]) = Inr rep
      \<and> tr_result rep = A_result False ''NL'' ''Netherlands'' (crumbs demo_evidence)"
    by (rule r) simp_all
  then show ?thesis using that by blast
qed

section \<open>Properties\<close>

text \<open>C1: The strict policy accepts exactly the grounded messages: a chain of at most five references,
  every link opened under a trusted key, inside the EU and resolvable in the store, down to a result
  whose basis is evidence or an endorsement.\<close>

theorem strict_accepts_iff_grounded:
  "(\<exists>why. rp K E anchors store ''strict'' 0 mb = Inr (ACCEPT, why)) \<longleftrightarrow> grounded K E anchors store 5 mb"
  using rp_strict_iff [of "''strict''" 0 K E anchors store mb] by simp

text \<open>The lenient policy accepts exactly the messages in which a trusted signer states a country of
  the EU; no reference and no basis counts.\<close>

theorem lenient_accepts_iff:
  "(\<exists>why. rp K E anchors store ''lenient'' d mb = Inr (ACCEPT, why)) \<longleftrightarrow> (\<exists>g. states K E anchors mb g \<and> claims_EU g)"
  by (rule rp_lenient_iff)

text \<open>A set of results that rest on one another and on nothing else is rejected, from any depth: the
  walk over the references ends and never turns a circle into acceptance.\<close>

theorem circular_results_rejected:
  assumes "circular K E anchors store M" and "mb \<in> M"
  shows "\<exists>why. rp K E anchors store ''strict'' d mb = Inr (REJECT, why)"
  using assms by (rule circular_rejected)

text \<open>A result that refers to itself: B signs it, and the store files it under its own reference.\<close>

definition self_message :: bytes where
  "self_message = cose_sign1 demo_codec demo_ed (dumps demo_codec (ear ''B'' (CMap (B_map ''NL'' (zeros 16) 0 0 True)) 0 ''s'')) [7] [66]"

lemma self_circular: "circular demo_codec demo_ed [([66], [7])] [(zeros 16, self_message)] {self_message}"
proof -
  have o: "cose_open demo_codec demo_ed self_message [([66], [7])]
      = Ok (CBytes [66], CBytes (dumps demo_codec (ear ''B'' (CMap (B_map ''NL'' (zeros 16) 0 0 True)) 0 ''s'')))"
    unfolding self_message_def by (rule cose_open_trusted [OF demo_codec_ok demo_sign_ok]) (simp add: demo_ed_def)
  have "plain (CMap (B_map ''NL'' (zeros 16) 0 0 True))" unfolding plain_B_map by (simp add: date_ok_def)
  note g = geo_of_ear [OF demo_codec_ok this]
  have eu: "in_EU (CText ''NL'') = Ok True"
  proof -
    have "''NL'' \<in> EU" by (simp add: EU_def split_ws.simps is_space_def)
    then show ?thesis by (simp add: in_EU_def)
  qed
  have "appraise demo_codec demo_ed [([66], [7])] [(zeros 16, self_message)] ''strict'' self_message
      = Ok (RestsOn (CText ''NL'') (CBytes (zeros 16)) self_message)"
    unfolding appraise_def o
    by (simp only: g sum.case prod.case rbind_simps)
      (simp add: B_map_def labels get_int_def eu, simp add: zeros_def)
  then show ?thesis by (simp add: circular_def)
qed

theorem circular_results_rejected_witness:
  "\<exists>why. rp demo_codec demo_ed [([66], [7])] [(zeros 16, self_message)] ''strict'' 0 self_message = Inr (REJECT, why)"
  by (rule circular_results_rejected [OF self_circular]) simp

text \<open>C2: Verifier A emits a result for a country exactly when the device key loads, the window is
  attested (64 crumbs, every signature valid, at least 15 minutes between neighbours) and every cell
  lies in that country, by the first polygon of the list that covers the whole cell.\<close>

theorem verifier_A_iff:
  "(\<exists>r. verifier_A K E G supplied ev = Inr (Result r) \<and> gr_country r = cc) \<longleftrightarrow>
     (\<exists>raw pk. fromhex (device_pub ev) = Inr raw \<and> ed_load_public E raw = Inr pk
        \<and> attested_window K E pk (crumbs ev) \<and> one_country G cc (crumbs ev))"
proof
  assume "\<exists>r. verifier_A K E G supplied ev = Inr (Result r) \<and> gr_country r = cc"
  then show "\<exists>raw pk. fromhex (device_pub ev) = Inr raw \<and> ed_load_public E raw = Inr pk
        \<and> attested_window K E pk (crumbs ev) \<and> one_country G cc (crumbs ev)"
    unfolding verifier_A_Result by (auto simp: A_result_fields)
next
  assume "\<exists>raw pk. fromhex (device_pub ev) = Inr raw \<and> ed_load_public E raw = Inr pk
        \<and> attested_window K E pk (crumbs ev) \<and> one_country G cc (crumbs ev)"
  then obtain raw pk where a: "fromhex (device_pub ev) = Inr raw" "ed_load_public E raw = Inr pk"
    "attested_window K E pk (crumbs ev)" "one_country G cc (crumbs ev)" by blast
  then obtain c where "c \<in> set (crumbs ev)" using attested_nonempty [OF a(3)] by (cases "crumbs ev") auto
  with a(4) obtain nm where "name_of G cc = Inr nm"
    unfolding one_country_def using name_of_found by blast
  with a have "verifier_A K E G supplied ev = Inr (Result (A_result supplied cc nm (crumbs ev)))"
    unfolding verifier_A_Result by blast
  then show "\<exists>r. verifier_A K E G supplied ev = Inr (Result r) \<and> gr_country r = cc"
    by (auto simp: A_result_fields)
qed

text \<open>Verifier B adds one link: when it returns, A's key signed a message that states some result,
  and B's own map repeats that result's country, has basis attestation-result, a version 5 UUID of its
  own, and refers to A's UUID exactly when it is asked to.\<close>

theorem verifier_B_sound:
  assumes "verifier_B K E pub key iat earA ref = Inr (m, u2, earB)"
  shows "\<exists>g u1 cc rest. states K E [(utf8 ''A'', pub)] earA g \<and> item g L_UUID = Inr u1 \<and> item g L_COUNTRY = Inr cc
    \<and> m = CMap ([(CInt L_COUNTRY, cc), (CInt L_UUID, CBytes u2), (CInt L_BASIS, CInt ATTESTATION_RESULT)]
         @ (if ref then [(CInt L_BASIS_REF, u1)] else []) @ rest)
    \<and> length u2 = 16 \<and> earB = cose_sign1 K E (dumps K (ear ''workload-verifier-B'' m (iat + 5) ''workload'')) key (utf8 ''B'')"
proof -
  from assms obtain kid payload g vid u1 h cc times where
      o: "cose_open K E earA [(utf8 ''A'', pub)] = Inr (kid, payload)" "geo_of K payload = Inr (g, vid)"
    and i: "item g L_UUID = Inr u1" "item g L_COUNTRY = Inr cc" "copy_times g [L_OBS_FROM, L_OBS_UNTIL] = Inr times"
    and v: "u2 = uuid5 UUID_NS (''hop2:'' @ h)"
      "m = CMap (([(CInt L_COUNTRY, cc), (CInt L_UUID, CBytes u2), (CInt L_BASIS, CInt ATTESTATION_RESULT)]
         @ (if ref then [(CInt L_BASIS_REF, u1)] else [])) @ times)"
      "earB = cose_sign1 K E (dumps K (ear ''workload-verifier-B'' m (iat + 5) ''workload'')) key (utf8 ''B'')"
    unfolding verifier_B_def Let_def
    by (clarsimp simp only: rbind_Inr_iff prod.case split_paired_Ex sum.inject prod.inject)
  from o have "states K E [(utf8 ''A'', pub)] earA g" by (auto simp: states_def)
  moreover have "length u2 = 16" by (simp add: v(1) length_uuid5)
  ultimately show ?thesis using i v(2,3) by (simp only: append_assoc) blast
qed

theorem verifier_B_sound_witness:
  "\<exists>m u2 earB g. verifier_B demo_codec demo_ed [7] [8] 60
      (cose_sign1 demo_codec demo_ed (dumps demo_codec (ear ''v'' (CMap (A_map ''NL'' (zeros 16) 0 900)) 0 ''s'')) [7] (utf8 ''A'')) True
      = Inr (m, u2, earB) \<and> length u2 = 16
    \<and> states demo_codec demo_ed [(utf8 ''A'', [7])]
        (cose_sign1 demo_codec demo_ed (dumps demo_codec (ear ''v'' (CMap (A_map ''NL'' (zeros 16) 0 900)) 0 ''s'')) [7] (utf8 ''A'')) g"
proof -
  have d: "date_ok 0" "date_ok 900" by (simp_all add: date_ok_def)
  have pub: "ed_public demo_ed k = k" for k by (simp add: demo_ed_def)
  note v = verifier_B_value [OF demo_codec_ok demo_sign_ok d, where keyA = "[7]" and keyB = "[8]" and iat = 60
      and vid = "''v''" and cc = "''NL''" and ?u1.0 = "zeros 16" and i = 0 and sub = "''s''" and ref = True, unfolded pub]
  show ?thesis using verifier_B_sound [OF v] v by blast
qed

text \<open>The forged message of the run verifies under A's key.\<close>

definition forgery :: "codec \<Rightarrow> ed25519 \<Rightarrow> cbor \<Rightarrow> int \<Rightarrow> bool" where
  "forgery K E geo iat \<longleftrightarrow> (let m = tbs K (dumps K (ear ''geoar-verifier-A'' geo iat ''trip-device'')) in
     ed_verify E (ed_public E key_A) (ed_sign E key_X m) m)"

lemma rmap4: "rmap f ([w, x, y, z] @ rows) = Inr t \<Longrightarrow>
    \<exists>a b c d more. t = a # b # c # d # more \<and> f w = Inr a \<and> f x = Inr b \<and> f y = Inr c \<and> f z = Inr d"
  by (auto simp: res_iff)

text \<open>What the Relying Party finds in the four messages that A, B and the forger made.\<close>

lemma four_messages:
  fixes K E cc u1 u2 t0 tn
  defines "an \<equiv> [(utf8 ''A'', ed_public E key_A), (utf8 ''B'', ed_public E key_B)]"
    and "byA \<equiv> \<lambda>key. cose_sign1 K E (dumps K (ear ''geoar-verifier-A'' (CMap (A_map cc u1 t0 tn)) (tn + 60) ''trip-device'')) key (utf8 ''A'')"
    and "byB \<equiv> \<lambda>ref. cose_sign1 K E (dumps K (ear ''workload-verifier-B'' (CMap (B_map cc u1 t0 tn ref)) (tn + 60 + 5) ''workload'')) key_B (utf8 ''B'')"
  defines "st \<equiv> AList.update u2 (byB True) [(u1, byA key_A)]"
  assumes ok: "codec_ok K" "sign_ok E" "date_ok t0" "date_ok tn" "cc \<in> EU" "length u1 = 16" "u2 \<noteq> u1"
    and no: "\<not> forgery K E (CMap (A_map cc u1 t0 tn)) (tn + 60)"
  shows "grounded K E an st 5 (byA key_A)" "grounded K E an st 5 (byB True)" "\<not> grounded K E an st 5 (byB False)" "\<not> grounded K E an st 5 (byA key_X)"
    and "\<exists>g. states K E an (byA key_A) g \<and> claims_EU g" "\<exists>g. states K E an (byB ref) g \<and> claims_EU g" "\<not> states K E an (byA key_X) h"
proof -
  have plain: "plain (CMap (A_map cc u1 t0 tn))" "plain (CMap (B_map cc u1 t0 tn b))" for b
    unfolding plain_A_map plain_B_map using ok(3,4) by simp_all
  have st: "states K E an (byA key_A) h \<longleftrightarrow> h = decoded (CMap (A_map cc u1 t0 tn))"
    "states K E an (byB b) h \<longleftrightarrow> h = decoded (CMap (B_map cc u1 t0 tn b))" for b h
    unfolding byA_def byB_def an_def
    by (rule states_signed [OF ok(1,2) plain(1) signer_key(1)] states_signed [OF ok(1,2) plain(2) signer_key(2)])+
  have gA: "grounded K E an st n (byA key_A)" for n
    using st(1) claims_EU_maps(1) basis_maps(1) ok(5) by (intro grounded.own) blast+
  have look: "map_of st u1 = Some (byA key_A)" using ok(7) by (auto simp: update_conv' st_def)
  show sX: "\<not> states K E an (byA key_X) h" for h
    unfolding byA_def an_def by (rule states_untrusted [OF ok(1) signer_key(1)]) (use no in \<open>simp add: forgery_def Let_def\<close>)
  show "grounded K E an st 5 (byA key_A)" by (rule gA)
  show "grounded K E an st 5 (byB True)"
    using st(2) [of True] claims_EU_maps(2) basis_maps(2) refers_maps(1) ok(5,6) look gA [of 4]
    unfolding numeral_eq_Suc by (intro grounded.via) (auto simp: numeral_eq_Suc)
  show "\<not> grounded K E an st 5 (byB False)"
    using st(2) [of False] basis_maps(2) refers_maps(2) by (auto simp: numeral_eq_Suc grounded_Suc labels)
  show "\<not> grounded K E an st 5 (byA key_X)" using sX grounded_states by blast
  show "\<exists>g. states K E an (byA key_A) g \<and> claims_EU g" "\<exists>g. states K E an (byB ref) g \<and> claims_EU g"
    unfolding st using claims_EU_maps ok(5) by (simp_all del: decoded.simps)
qed

lemma relying_party_table_of:
  assumes "trip_run K E G supplied ev nl = Inr rep" and "codec_ok K" and "sign_ok E"
    and "date_ok (ts (hd (crumbs ev)))" and "date_ok (ts (last (crumbs ev)))"
    and "gr_country (tr_result rep) \<in> EU"
  shows "take 4 (map verdicts (tr_table rep)) = [(ACCEPT, ACCEPT), (ACCEPT, ACCEPT), (REJECT, ACCEPT), (REJECT, REJECT)]
    \<or> uuid5 UUID_NS (''hop2:'' @ hex (gr_uuid (tr_result rep))) = gr_uuid (tr_result rep)
    \<or> forgery K E (gr_ext (tr_result rep)) (ts (last (crumbs ev)) + 60)"
proof (rule trip_run_parts [OF assms(1-5)])
  let ?t0 = "ts (hd (crumbs ev))" and ?tn = "ts (last (crumbs ev))"
  fix cc nm r u1 u2 iat earA earB earN earX rows
  assume p: "tr_result rep = r" "gr_uuid r = u1" "length u1 = 16" "gr_country r = cc" "u2 = uuid5 UUID_NS (''hop2:'' @ hex u1)" "iat = ?tn + 60"
      "gr_ext r = CMap (A_map cc u1 ?t0 ?tn)"
    and e: "earA = cose_sign1 K E (dumps K (ear ''geoar-verifier-A'' (CMap (A_map cc u1 ?t0 ?tn)) iat ''trip-device'')) key_A (utf8 ''A'')"
      "earX = cose_sign1 K E (dumps K (ear ''geoar-verifier-A'' (CMap (A_map cc u1 ?t0 ?tn)) iat ''trip-device'')) key_X (utf8 ''A'')"
      "earB = cose_sign1 K E (dumps K (ear ''workload-verifier-B'' (CMap (B_map cc u1 ?t0 ?tn True)) (iat + 5) ''workload'')) key_B (utf8 ''B'')"
      "earN = cose_sign1 K E (dumps K (ear ''workload-verifier-B'' (CMap (B_map cc u1 ?t0 ?tn False)) (iat + 5) ''workload'')) key_B (utf8 ''B'')"
    and t: "rmap (rp_row K E [(utf8 ''A'', ed_public E key_A), (utf8 ''B'', ed_public E key_B)] (AList.update u2 earB [(u1, earA)]))
       ([(''R1 EAR from A (evidence)'', earA), (''R2 EAR from B (attestation-result, basis-ref U1)'', earB),
         (''R2 without basis-ref'', earN), (''forged EAR, kid A, untrusted key'', earX)] @ rows) = Inr (tr_table rep)"
  show ?thesis
  proof (rule ccontr)
    assume "\<not> ?thesis"
    then have no: "u2 \<noteq> u1" "\<not> forgery K E (CMap (A_map cc u1 ?t0 ?tn)) (?tn + 60)" and bad: "take 4 (map verdicts (tr_table rep)) \<noteq>
        [(ACCEPT, ACCEPT), (ACCEPT, ACCEPT), (REJECT, ACCEPT), (REJECT, REJECT)]" by (auto simp: p)
    have "cc \<in> EU" using assms(6) p by simp
    note f = four_messages [OF assms(2-5) this p(3) no, folded p(6), folded e]
    from rmap4 [OF t] obtain a b c d more where rows: "tr_table rep = a # b # c # d # more"
      and r: "rp_row K E [(utf8 ''A'', ed_public E key_A), (utf8 ''B'', ed_public E key_B)] (AList.update u2 earB [(u1, earA)]) (''R1 EAR from A (evidence)'', earA) = Inr a"
        "rp_row K E [(utf8 ''A'', ed_public E key_A), (utf8 ''B'', ed_public E key_B)] (AList.update u2 earB [(u1, earA)]) (''R2 EAR from B (attestation-result, basis-ref U1)'', earB) = Inr b"
        "rp_row K E [(utf8 ''A'', ed_public E key_A), (utf8 ''B'', ed_public E key_B)] (AList.update u2 earB [(u1, earA)]) (''R2 without basis-ref'', earN) = Inr c"
        "rp_row K E [(utf8 ''A'', ed_public E key_A), (utf8 ''B'', ed_public E key_B)] (AList.update u2 earB [(u1, earA)]) (''forged EAR, kid A, untrusted key'', earX) = Inr d"
      by blast
    show False using bad
        row_value [OF r(1), of True True] row_value [OF r(2), of True True] row_value [OF r(3), of False True] row_value [OF r(4), of False False]
        f(1-5) f(6) [of True, folded e] f(6) [of False, folded e] f(7)
      by (simp add: rows)
  qed
qed

text \<open>C3: The table of the run. When the country is in the EU, the Relying Party accepts A's result and
  B's result with the reference under both policies, rejects B's result without the reference under the
  strict policy only, and rejects the forgery under both; the exceptions are a UUID of B that equals the
  one of A it is derived from, and a forged signature that verifies.\<close>

theorem relying_party_table:
  assumes "trip_run K E G supplied ev nl = Inr rep" and "codec_ok K" and "sign_ok E"
    and "date_ok (ts (hd (crumbs ev)))" and "date_ok (ts (last (crumbs ev)))"
    and "gr_country (tr_result rep) \<in> EU"
  shows "take 4 (map verdicts (tr_table rep)) = [(ACCEPT, ACCEPT), (ACCEPT, ACCEPT), (REJECT, ACCEPT), (REJECT, REJECT)]
    \<or> uuid5 UUID_NS (''hop2:'' @ hex (gr_uuid (tr_result rep))) = gr_uuid (tr_result rep)
    \<or> forgery K E (gr_ext (tr_result rep)) (ts (last (crumbs ev)) + 60)"
  by (rule relying_party_table_of [OF assms])

theorem relying_party_table_witness:
  "\<exists>nl rep. trip_run demo_codec demo_ed demo_geo False demo_evidence nl = Inr rep \<and> gr_country (tr_result rep) = ''NL''
    \<and> (take 4 (map verdicts (tr_table rep)) = [(ACCEPT, ACCEPT), (ACCEPT, ACCEPT), (REJECT, ACCEPT), (REJECT, REJECT)]
      \<or> uuid5 UUID_NS (''hop2:'' @ hex (gr_uuid (tr_result rep))) = gr_uuid (tr_result rep)
      \<or> forgery demo_codec demo_ed (gr_ext (tr_result rep)) (ts (last (crumbs demo_evidence)) + 60))"
proof -
  obtain nl rep where r: "trip_run demo_codec demo_ed demo_geo False demo_evidence nl = Inr rep"
    "tr_result rep = A_result False ''NL'' ''Netherlands'' (crumbs demo_evidence)"
    using demo_run by blast
  have "''NL'' \<in> EU" by (simp add: EU_def split_ws.simps is_space_def)
  then have "gr_country (tr_result rep) \<in> EU" by (simp add: r(2) A_result_fields)
  moreover have "gr_country (tr_result rep) = ''NL''" by (simp add: r(2) A_result_fields)
  ultimately show ?thesis
    using relying_party_table [OF r(1) demo_codec_ok demo_sign_ok demo_dates] r(1) by blast
qed

text \<open>C32: The Relying Party reaches a verdict on every message whose trusted signers are well behaved,
  under either policy: when every message that opens (the one it is given and those of the store)
  carries a text country and a 16-byte reference or none, \<open>rp\<close> returns.\<close>

theorem rp_returns:
  assumes "well_behaved K E anchors (insert mb (snd ` set store))"
  shows "\<exists>v why. rp K E anchors store policy d mb = Inr (v, why)"
  using assms by (rule rp_returns_aux)

theorem rp_returns_witness:
  "\<exists>v why. rp demo_codec demo_ed [([66], [7])] [(zeros 16, self_message)] ''lenient'' 0 self_message = Inr (v, why)"
proof -
  have p: "plain (CMap (B_map ''NL'' (zeros 16) 0 0 True))" unfolding plain_B_map by (simp add: date_ok_def)
  have "tame (decoded (CMap (B_map ''NL'' (zeros 16) 0 0 True)))" by (rule tame_maps) simp
  then have "well_behaved demo_codec demo_ed [([66], [7])] {self_message}"
    unfolding self_message_def by (rule well_behaved_signed [OF demo_codec_ok p])
  then show ?thesis using rp_returns [of demo_codec demo_ed "[([66], [7])]" self_message "[(zeros 16, self_message)]"] by simp
qed

text \<open>C34: The guard of \<open>rp\<close> covers the signature only. Take any message that a trusted signer signed. If its payload
  is no EAR, that is, if \<open>geo_of\<close> raises, then so does \<open>rp\<close>, under either policy and at any depth; in
  particular it raises \<open>StopIteration\<close> when no submodule carries the geographic label. And a result of an EU
  country that rests on an attestation result under a reference that is not 16 bytes and not in the store
  raises \<open>ValueError\<close> under the strict policy, where the code is about to print the reference. The same
  payload from a signer without a key in the anchors is rejected.\<close>

theorem rp_raises_on_malformed_result:
  assumes "codec_ok K" "sign_ok E" "map_of anchors kid = Some (ed_public E key)" "map_of anchors stranger = None"
  shows "(\<forall>e. geo_of K (CBytes payload) = Err e \<longrightarrow> rp K E anchors store policy d (cose_sign1 K E payload key kid) = Err e)
    \<and> (\<forall>p subs. loads K payload = Ok p \<and> item p EAT_SUBMODS = Ok (CMap subs) \<and> (\<forall>(k, sm) \<in> set subs. contains_int sm GEO_LABEL = Ok False)
        \<longrightarrow> rp K E anchors store policy d (cose_sign1 K E payload key kid) = Err StopIteration)
    \<and> (\<forall>m vid cc u. geo_of K (CBytes payload) = Ok (CMap m, vid) \<and> lookup_int m L_COUNTRY = Some (CText cc) \<and> cc \<in> EU
        \<and> lookup_int m L_BASIS = Some (CInt ATTESTATION_RESULT) \<and> lookup_int m L_BASIS_REF = Some (CBytes u)
        \<and> u \<noteq> [] \<and> length u \<noteq> 16 \<and> map_of store u = None
        \<longrightarrow> rp K E anchors store ''strict'' d (cose_sign1 K E payload key kid) = Err ValueError)
    \<and> (\<exists>why. rp K E anchors store policy d (cose_sign1 K E payload key' stranger) = Ok (REJECT, why))"
proof (intro conjI allI impI)
  note o = cose_open_trusted [OF assms(1-3), where payload = payload]
  show geo: "rp K E anchors store policy d (cose_sign1 K E payload key kid) = Err e" if "geo_of K (CBytes payload) = Err e" for e
    by (subst rp.simps) (simp add: appraise_def o that)
  have first: "first_geo vs = Err StopIteration" if "\<forall>v \<in> set vs. contains_int v GEO_LABEL = Ok False" for vs
    using that by (induction vs) simp_all
  show "rp K E anchors store policy d (cose_sign1 K E payload key kid) = Err StopIteration"
    if "loads K payload = Ok p \<and> item p EAT_SUBMODS = Ok (CMap subs) \<and> (\<forall>(k, sm) \<in> set subs. contains_int sm GEO_LABEL = Ok False)" for p subs
  proof (rule geo)
    have "first_geo (map snd subs) = Err StopIteration" by (rule first) (use that in auto)
    then show "geo_of K (CBytes payload) = Err StopIteration" using that by (simp add: geo_of_def loads_value_def map_values_def)
  qed
  show "rp K E anchors store ''strict'' d (cose_sign1 K E payload key kid) = Err ValueError"
    if "geo_of K (CBytes payload) = Ok (CMap m, vid) \<and> lookup_int m L_COUNTRY = Some (CText cc) \<and> cc \<in> EU
        \<and> lookup_int m L_BASIS = Some (CInt ATTESTATION_RESULT) \<and> lookup_int m L_BASIS_REF = Some (CBytes u)
        \<and> u \<noteq> [] \<and> length u \<noteq> 16 \<and> map_of store u = None" for m vid cc u
  proof -
    have "in_EU (CText cc) = Ok True" using that by (simp add: in_EU_def)
    then show ?thesis using that
      by (subst rp.simps) (simp add: appraise_def o get_int_def equals_int_def uuid_value_def labels)
  qed
  show "\<exists>why. rp K E anchors store policy d (cose_sign1 K E payload key' stranger) = Ok (REJECT, why)"
    by (subst rp.simps) (simp add: appraise_def cose_open_sign1 [OF assms(1)] assms(4))
qed

theorem rp_raises_on_malformed_result_witness:
  "\<exists>empty short. rp demo_codec demo_ed [([66], [7])] [] ''lenient'' 0 (cose_sign1 demo_codec demo_ed empty [7] [66]) = Err StopIteration
    \<and> rp demo_codec demo_ed [([66], [7])] [] ''strict'' 3 (cose_sign1 demo_codec demo_ed short [7] [66]) = Err ValueError
    \<and> (\<exists>why. rp demo_codec demo_ed [([66], [7])] [] ''strict'' 3 (cose_sign1 demo_codec demo_ed short [8] [67]) = Ok (REJECT, why))"
proof -
  have k: "map_of [([66], [7])] [66] = Some (ed_public demo_ed [7])" "map_of [([66], [7 :: byte])] ([67] :: bytes) = None" by (simp_all add: demo_ed_def)
  let ?e = "CMap [(CInt 266, CMap [(CText ''x'', CMap [])])]" and ?g = "CMap [(CInt 0, CText ''NL''), (CInt 14, CInt 2), (CInt 16, CBytes [1])]"
  have e: "loads demo_codec (dumps demo_codec ?e) = Ok ?e \<and> item ?e EAT_SUBMODS = Ok (CMap [(CText ''x'', CMap [])])
      \<and> (\<forall>(k, sm) \<in> set [(CText ''x'', CMap [])]. contains_int sm GEO_LABEL = Ok False)"
    using loads_dumps [OF demo_codec_ok, of ?e] by (simp add: item_def contains_int_def lookup_int_def equals_int_def labels)
  have "''NL'' \<in> EU" by (simp add: EU_def split_ws.simps is_space_def)
  then have g: "geo_of demo_codec (CBytes (dumps demo_codec (ear ''B'' ?g 0 ''s''))) = Ok (?g, CText ''B'')
      \<and> lookup_int [(CInt 0, CText ''NL''), (CInt 14, CInt 2), (CInt 16, CBytes [1])] L_COUNTRY = Some (CText ''NL'') \<and> ''NL'' \<in> EU
      \<and> lookup_int [(CInt 0, CText ''NL''), (CInt 14, CInt 2), (CInt 16, CBytes [1])] L_BASIS = Some (CInt ATTESTATION_RESULT)
      \<and> lookup_int [(CInt 0, CText ''NL''), (CInt 14, CInt 2), (CInt 16, CBytes [1])] L_BASIS_REF = Some (CBytes [1])
      \<and> ([1] :: bytes) \<noteq> [] \<and> length ([1] :: bytes) \<noteq> 16 \<and> map_of [] ([1] :: bytes) = None"
    using geo_of_ear [OF demo_codec_ok, of ?g "''B''" 0 "''s''"] by (simp add: lookup_int_def equals_int_def labels)
  note r = rp_raises_on_malformed_result [OF demo_codec_ok demo_sign_ok k]
  show ?thesis
    using r [where payload = "dumps demo_codec ?e" and policy = "''lenient''" and d = 0 and store = "[]"] e
      r [where payload = "dumps demo_codec (ear ''B'' ?g 0 ''s'')" and policy = "''strict''" and d = 3 and store = "[]" and key' = "[8]"] g
    by blast
qed

text \<open>The earlier script \<open>trip_example.py\<close>, which resolves the centre of a cell, reaches A's core
  result (built-in window) whenever the centre of every cell resolves as the whole cell does.\<close>

theorem example_agrees:
  assumes "verifier_A K E G False ev = Inr (Result r)"
    and "\<forall>c \<in> set (crumbs ev). country_of G (cell c) = country_of_cell G (cell c)"
  shows "verify_and_conclude K E G ev = Inr (ExampleResult (gr_core r))"
proof -
  from assms(1) obtain raw pk cc nm where a: "fromhex (device_pub ev) = Inr raw" "ed_load_public E raw = Inr pk"
    "attested_window K E pk (crumbs ev)" "one_country G cc (crumbs ev)" "name_of G cc = Inr nm"
    and r: "r = A_result False cc nm (crumbs ev)"
    unfolding verifier_A_Result by blast
  obtain cn vs where c: "rmap (\<lambda>c. country_of_cell G (cell c)) (crumbs ev) = Inr cn"
    "group_all fst snd (zip (map fst cn) (map cell (crumbs ev))) = [(Some cc, vs)]"
    using countries_single [of G "crumbs ev" cc] attested_nonempty [OF a(3)] a(4) by blast
  have "rmap (\<lambda>c. country_of G (cell c)) (crumbs ev) = Inr cn"
    using c(1) assms(2) unfolding rmap_Inr_iff by (auto simp: list_all2_conv_all_nth)
  moreover have "check_sigs K E pk (crumbs ev) = Inr None" "length (crumbs ev) = N_CELLS" "\<not> spacing_short (crumbs ev)"
    using a(3) unfolding check_sigs_None spacing_ok attested_window_def N_CELLS_def by blast+
  ultimately show ?thesis
    by (simp add: verify_and_conclude_def a c(2) r A_result_def Let_def)
qed

theorem example_agrees_witness:
  "\<exists>r :: geo_result. verify_and_conclude demo_codec demo_ed demo_geo demo_evidence = Inr (ExampleResult (gr_core r)) \<and> gr_country r = ''NL''"
proof -
  have "\<forall>c \<in> set (crumbs demo_evidence). country_of demo_geo (cell c) = country_of_cell demo_geo (cell c)"
    by (simp add: country_of_def country_of_cell_def demo_geo_def)
  note e = example_agrees [OF demo_A this]
  have "gr_country (A_result False ''NL'' ''Netherlands'' (crumbs demo_evidence)) = ''NL''" by (rule A_result_fields)
  with e show ?thesis by blast
qed

text \<open>A's refusal on a bad signature is exact: when every signature is hexadecimal, A names the
  sequence number of the first crumb whose signature does not verify, whatever else is wrong with
  the window.\<close>

theorem first_bad_signature_named:
  assumes "fromhex (device_pub ev) = Inr raw" and "ed_load_public E raw = Inr pk"
    and "crumbs ev = before @ c # after"
    and "\<forall>b \<in> set before. \<exists>s. fromhex (sig b) = Inr s \<and> ed_verify E pk s (msg K b)"
    and "fromhex (sig c) = Inr s" and "\<not> ed_verify E pk s (msg K c)"
  shows "verifier_A K E G supplied ev = Inr (Refused (SignatureFailed (seq c)))"
proof -
  have "check_sigs K E pk (before @ c # after) = Inr (Some (seq c))"
    using assms(4-6) by (induction before) auto
  then show ?thesis using assms(1-3) by (simp add: verifier_A_def Let_def)
qed

theorem first_bad_signature_named_witness:
  "verifier_A demo_codec demo_ed demo_geo True
     \<lparr>device_pub = hex [9], crumbs = [demo_crumb 0, (demo_crumb 1)\<lparr>cell := ''8a1fb4''\<rparr>]\<rparr>
   = Inr (Refused (SignatureFailed 1))"
proof -
  let ?c = "(demo_crumb 1)\<lparr>cell := ''8a1fb4''\<rparr>"
  let ?v = "\<lambda>c. CList [CInt (seq c), CInt (ts c), CText (cell c)]"
  have v: "msg demo_codec ?c = enc (?v ?c)" "msg demo_codec (demo_crumb 1) = enc (?v (demo_crumb 1))"
    by (simp_all add: msg_def demo_codec_def)
  have "?v ?c \<noteq> ?v (demo_crumb 1)" by (simp add: demo_crumb_def Let_def)
  then have ne: "msg demo_codec ?c \<noteq> msg demo_codec (demo_crumb 1)"
    unfolding v using enc_inj by blast
  have s: "fromhex (sig (demo_crumb i)) = Ok ([9] @ msg demo_codec (demo_crumb i))" for i
    by (simp only: fromhex_hex demo_crumb_def Let_def crumb.simps) (simp add: msg_def)
  have "verifier_A demo_codec demo_ed demo_geo True \<lparr>device_pub = hex [9], crumbs = [demo_crumb 0, ?c]\<rparr>
      = Inr (Refused (SignatureFailed (seq ?c)))"
  proof (rule first_bad_signature_named)
    show "fromhex (device_pub \<lparr>device_pub = hex [9], crumbs = [demo_crumb 0, ?c]\<rparr>) = Inr [9]" by simp
    show "ed_load_public demo_ed [9] = Inr [9]" by (simp add: demo_ed_def)
    show "crumbs \<lparr>device_pub = hex [9], crumbs = [demo_crumb 0, ?c]\<rparr> = [demo_crumb 0] @ ?c # []" by simp
    show "\<forall>b \<in> set [demo_crumb 0]. \<exists>s. fromhex (sig b) = Inr s \<and> ed_verify demo_ed [9] s (msg demo_codec b)"
      using s [of 0] by (simp add: demo_ed_def)
    show "fromhex (sig ?c) = Inr ([9] @ msg demo_codec (demo_crumb 1))" using s [of 1] by simp
    show "\<not> ed_verify demo_ed [9] ([9] @ msg demo_codec (demo_crumb 1)) (msg demo_codec ?c)"
      using ne by (simp add: demo_ed_def)
  qed
  then show ?thesis by (simp add: demo_crumb_def Let_def)
qed

end
