(* ===== verification/TripDevice.thy ===== *)
theory TripDevice
  imports TripProps Json
begin

text \<open>
  The attester of \<open>trip_chain.py\<close> and of \<open>trip_example.py\<close>: 64 cells, either from a file or from the walk the
  scripts make themselves, each signed by the device. The floating-point numbers of the machine, the random
  generator and the cells of H3 are parameters; everything else of the walk is written as in the code.
  At the end, that the claim UUID of Verifier A names the window it was made for.
\<close>

section \<open>The device\<close>

definition DEV_KEY :: bytes where
  "DEV_KEY = key_from (utf8 ''trip-synthetic-device-2026-09-10'')"

text \<open>The seconds since the epoch of a UTC date, by the day count of the proleptic Gregorian calendar that
  \<open>datetime\<close> uses.\<close>

definition is_leap :: "int \<Rightarrow> bool" where
  "is_leap y \<longleftrightarrow> y mod 4 = 0 \<and> (y mod 100 \<noteq> 0 \<or> y mod 400 = 0)"

definition days_in_month :: "int \<Rightarrow> nat \<Rightarrow> int" where
  "days_in_month y m = (if m = 2 \<and> is_leap y then 29 else [31, 28, 31, 30, 31, 30, 31, 31, 30, 31, 30, 31] ! (m - 1))"

definition day_number :: "int \<Rightarrow> nat \<Rightarrow> int \<Rightarrow> int" where
  "day_number y m d = (let p = y - 1 in
     365 * p + p div 4 - p div 100 + p div 400 + sum_list (map (days_in_month y) [1..<m]) + d)"

definition utc_seconds :: "int \<Rightarrow> nat \<Rightarrow> int \<Rightarrow> int \<Rightarrow> int \<Rightarrow> int" where
  "utc_seconds y m d h mi = (day_number y m d - day_number 1970 1 1) * 86400 + h * 3600 + mi * 60"

definition T0 :: int where "T0 = utc_seconds 2026 9 9 6 0"

lemma T0_value: "T0 = 1788933600"
  by code_simp

definition walk_crumb :: "nat \<Rightarrow> string \<Rightarrow> crumb" where
  "walk_crumb i c = \<lparr>seq = int i, ts = T0 + STEP_MIN * 60 * int i, cell = c, sig = ''''\<rparr>"

definition sign_crumb :: "codec \<Rightarrow> ed25519 \<Rightarrow> crumb \<Rightarrow> crumb" where
  "sign_crumb K E c = c\<lparr>sig := hex (ed_sign E DEV_KEY (msg K c))\<rparr>"

definition walk_crumbs :: "codec \<Rightarrow> ed25519 \<Rightarrow> string list \<Rightarrow> crumb list" where
  "walk_crumbs K E walk = map (\<lambda>(i, c). sign_crumb K E (walk_crumb i c)) (enumerate 0 walk)"

definition evidence_of :: "ed25519 \<Rightarrow> crumb list \<Rightarrow> evidence" where
  "evidence_of E cs = \<lparr>device_pub = hex (ed_public E DEV_KEY), crumbs = cs\<rparr>"

section \<open>The walk\<close>

text \<open>Python's floating-point numbers and its random generator. \<open>f_lit\<close> reads a number of the source,
  \<open>f_div\<close> raises when the divisor is zero, \<open>f_int\<close> is \<open>int(float(t))\<close> of a JSON number \<open>t\<close>, \<open>rng\<close> seeds a
  generator and \<open>uniform\<close> draws from one.\<close>

record ('f, 'r) floats =
  f_lit :: "string \<Rightarrow> 'f"
  f_add :: "'f \<Rightarrow> 'f \<Rightarrow> 'f"
  f_mul :: "'f \<Rightarrow> 'f \<Rightarrow> 'f"
  f_div :: "'f \<Rightarrow> 'f \<Rightarrow> 'f res"
  f_cos :: "'f \<Rightarrow> 'f"
  f_sin :: "'f \<Rightarrow> 'f"
  f_radians :: "'f \<Rightarrow> 'f"
  f_pi :: 'f
  f_int :: "string \<Rightarrow> int res"
  rng :: "int \<Rightarrow> 'r"
  uniform :: "'r \<Rightarrow> 'f \<Rightarrow> 'f \<Rightarrow> 'f \<times> 'r"

text \<open>The two functions of H3: \<open>latlng_to_cell(lat, lng, RES)\<close> and \<open>get_resolution(c)\<close>.\<close>

record 'f h3 =
  cell_at :: "'f \<Rightarrow> 'f \<Rightarrow> int \<Rightarrow> string res"
  get_resolution :: "string \<Rightarrow> int res"

definition RES :: int where "RES = 10"

text \<open>One move of 40 to 120 metres in any direction; the longitude uses the new latitude.\<close>

definition walk_move :: "('f, 'r) floats \<Rightarrow> 'f \<Rightarrow> 'f \<Rightarrow> 'f \<Rightarrow> 'f \<Rightarrow> ('f \<times> 'f) res" where
  "walk_move F lat lng d ang =
     rbind (f_div F (f_mul F d (f_cos F ang)) (f_lit F ''111320'')) (\<lambda>dlat. let lat' = f_add F lat dlat in
     rbind (f_div F (f_mul F d (f_sin F ang)) (f_mul F (f_lit F ''111320'') (f_cos F (f_radians F lat')))) (\<lambda>dlng.
     Ok (lat', f_add F lng dlng)))"

fun walk_cells :: "('f, 'r) floats \<Rightarrow> 'f h3 \<Rightarrow> nat \<Rightarrow> 'r \<Rightarrow> 'f \<Rightarrow> 'f \<Rightarrow> string list res" where
  "walk_cells F H 0 r lat lng = Ok []"
| "walk_cells F H (Suc n) r lat lng = (case uniform F r (f_lit F ''40'') (f_lit F ''120'') of (d, r1) \<Rightarrow>
     case uniform F r1 (f_lit F ''0'') (f_mul F (f_lit F ''2'') (f_pi F)) of (ang, r2) \<Rightarrow>
     rbind (walk_move F lat lng d ang) (\<lambda>(lat', lng'). rbind (cell_at H lat' lng' RES) (\<lambda>c.
     rbind (walk_cells F H n r2 lat' lng') (\<lambda>cs. Ok (c # cs)))))"

definition amsterdam_walk :: "('f, 'r) floats \<Rightarrow> 'f h3 \<Rightarrow> string list res" where
  "amsterdam_walk F H = walk_cells F H N_CELLS (rng F 20260910) (f_lit F ''52.3731'') (f_lit F ''4.8922'')"

section \<open>The supplied set\<close>

text \<open>\<open>len(v)\<close>, \<open>v[i]\<close> for a number \<open>i\<close> and \<open>int(v)\<close> of a JSON value.\<close>

definition jlen :: "json \<Rightarrow> nat res" where
  "jlen v = (case v of JList xs \<Rightarrow> Ok (length xs) | JObj m \<Rightarrow> Ok (length m) | JStr s \<Rightarrow> Ok (length s) | _ \<Rightarrow> Err TypeError)"

definition jindex :: "json \<Rightarrow> nat \<Rightarrow> json res" where
  "jindex v i = (case v of JList xs \<Rightarrow> if i < length xs then Ok (xs ! i) else Err IndexError
     | JStr s \<Rightarrow> if i < length s then Ok (JStr [s ! i]) else Err IndexError
     | JObj m \<Rightarrow> Err (KeyError (dec (int i))) | _ \<Rightarrow> Err TypeError)"

definition is_int_text :: "string \<Rightarrow> bool" where
  "is_int_text t \<longleftrightarrow> list_all (\<lambda>c. c = CHR ''-'' \<or> is_digit c) t"

definition jint :: "(string \<Rightarrow> int res) \<Rightarrow> json \<Rightarrow> int res" where
  "jint fi v = (case v of JNum t \<Rightarrow> if is_int_text t then py_int t else fi t | JStr s \<Rightarrow> py_int s
     | JBool b \<Rightarrow> Ok (if b then 1 else 0) | _ \<Rightarrow> Err TypeError)"

text \<open>\<open>all(h3.get_resolution(c) == RES for c in cells)\<close>, which stops at the first other resolution.\<close>

fun all_at_RES :: "'f h3 \<Rightarrow> json list \<Rightarrow> bool res" where
  "all_at_RES H [] = Ok True"
| "all_at_RES H (c # cs) = rbind (jstr TypeError c) (\<lambda>s. rbind (get_resolution H s) (\<lambda>r.
     if r = RES then all_at_RES H cs else Ok False))"

text \<open>\<open>len(cells) == len(moments) == N and all(...)\<close>.\<close>

definition is_window :: "'f h3 \<Rightarrow> json \<Rightarrow> json \<Rightarrow> bool res" where
  "is_window H cells moments = rbind (jlen cells) (\<lambda>n. rbind (jlen moments) (\<lambda>k.
     if n = k \<and> k = N_CELLS then rbind (jiter cells) (all_at_RES H) else Ok False))"

definition supplied_crumb :: "(string \<Rightarrow> int res) \<Rightarrow> json \<Rightarrow> json \<Rightarrow> nat \<Rightarrow> crumb res" where
  "supplied_crumb fi cells moments i = rbind (jindex moments i) (\<lambda>t. rbind (jint fi t) (\<lambda>n.
     rbind (jindex cells i) (\<lambda>c. rbind (jstr TypeError c) (\<lambda>s.
     Ok \<lparr>seq = int i, ts = n, cell = s, sig = ''''\<rparr>))))"

definition supplied_crumbs :: "('f, 'r) floats \<Rightarrow> 'f h3 \<Rightarrow> string \<Rightarrow> crumb list res" where
  "supplied_crumbs F H text = rbind (json_loads text) (\<lambda>src. rbind (jitem src ''h3_cells'') (\<lambda>cells.
     rbind (jitem src ''collection_times_unix_s'') (\<lambda>moments. rbind (is_window H cells moments) (\<lambda>ok.
     rbind (rassert ok AssertionError) (\<lambda>_. rmap (supplied_crumb (f_int F) cells moments) [0..<N_CELLS])))))"

section \<open>Evidence\<close>

definition chain_crumbs :: "('f, 'r) floats \<Rightarrow> 'f h3 \<Rightarrow> string option \<Rightarrow> crumb list res" where
  "chain_crumbs F H supplied = (case supplied of
     Some text \<Rightarrow> supplied_crumbs F H text
   | None \<Rightarrow> rbind (amsterdam_walk F H) (\<lambda>walk. Ok (map (\<lambda>(i, c). walk_crumb i c) (enumerate 0 walk))))"

definition chain_evidence :: "codec \<Rightarrow> ed25519 \<Rightarrow> ('f, 'r) floats \<Rightarrow> 'f h3 \<Rightarrow> string option \<Rightarrow> evidence res" where
  "chain_evidence K E F H supplied = rbind (chain_crumbs F H supplied) (\<lambda>cs.
     Ok (evidence_of E (map (sign_crumb K E) cs)))"

section \<open>Signed windows\<close>

lemma msg_sig [simp]: "msg K (c\<lparr>sig := s\<rparr>) = msg K c"
  by (simp add: msg_def)

lemma sign_crumb_simps [simp]:
  "seq (sign_crumb K E c) = seq c" "ts (sign_crumb K E c) = ts c" "cell (sign_crumb K E c) = cell c"
  "msg K (sign_crumb K E c) = msg K c" "sig (sign_crumb K E c) = hex (ed_sign E DEV_KEY (msg K c))"
  by (simp_all add: sign_crumb_def)

text \<open>A crumb as the device signs it.\<close>

definition signed :: "codec \<Rightarrow> ed25519 \<Rightarrow> crumb \<Rightarrow> bool" where
  "signed K E c \<longleftrightarrow> sig c = hex (ed_sign E DEV_KEY (msg K c))"

lemma signed_sign [simp]: "signed K E (sign_crumb K E c)"
  by (simp add: signed_def)

lemma check_signed:
  assumes "sign_ok E" "\<forall>c \<in> set cs. signed K E c"
  shows "check_sigs K E (ed_public E DEV_KEY) cs = Ok None"
  using assms(2) by (induction cs) (use assms(1) in \<open>auto simp: signed_def sign_ok_def\<close>)

lemma check_signed_prefix:
  assumes "sign_ok E" "\<forall>c \<in> set cs. signed K E c"
  shows "check_sigs K E (ed_public E DEV_KEY) (cs @ r) = check_sigs K E (ed_public E DEV_KEY) r"
  using assms(2) by (induction cs) (use assms(1) in \<open>auto simp: signed_def sign_ok_def\<close>)

lemma walk_nth:
  "length (walk_crumbs K E walk) = length walk"
  "j < length walk \<Longrightarrow> walk_crumbs K E walk ! j = sign_crumb K E (walk_crumb j (walk ! j))"
  by (simp_all add: walk_crumbs_def nth_enumerate_eq)

lemma length_walk: "walk_cells F H n r lat lng = Ok cs \<Longrightarrow> length cs = n"
  by (induction n arbitrary: r lat lng cs) (auto simp: res_iff split: prod.splits)

lemma amsterdam_length: "amsterdam_walk F H = Ok walk \<Longrightarrow> length walk = 64"
  by (auto simp: amsterdam_walk_def N_CELLS_def dest: length_walk)

lemma chain_evidence_walk:
  "chain_evidence K E F H None = rbind (amsterdam_walk F H) (\<lambda>walk. Ok (evidence_of E (walk_crumbs K E walk)))"
proof -
  have "map (sign_crumb K E) (map (\<lambda>(i, c). walk_crumb i c) xs) = map (\<lambda>(i, c). sign_crumb K E (walk_crumb i c)) xs" for xs
    by (induction xs) auto
  then show ?thesis by (cases "amsterdam_walk F H") (simp_all add: chain_evidence_def chain_crumbs_def walk_crumbs_def del: map_map)
qed

text \<open>The window of the built-in walk: 64 crumbs the device signed, 15 minutes apart, the first at 06:00.\<close>

lemma walk_window:
  assumes "length walk = 64"
  shows "length (walk_crumbs K E walk) = 64" "\<forall>c \<in> set (walk_crumbs K E walk). signed K E c"
    "j < 64 \<Longrightarrow> ts (walk_crumbs K E walk ! j) = T0 + 900 * int j" "j < 64 \<Longrightarrow> cell (walk_crumbs K E walk ! j) = walk ! j"
    "\<forall>i. Suc i < length (walk_crumbs K E walk) \<longrightarrow> ts (walk_crumbs K E walk ! i) + 900 \<le> ts (walk_crumbs K E walk ! Suc i)"
proof -
  show l: "length (walk_crumbs K E walk) = 64" by (simp add: walk_nth assms)
  show "\<forall>c \<in> set (walk_crumbs K E walk). signed K E c" by (auto simp: in_set_conv_nth walk_nth)
  have t: "ts (walk_crumbs K E walk ! j) = T0 + 900 * int j" if "j < 64" for j
    using that by (simp add: walk_nth assms walk_crumb_def STEP_MIN_def)
  show "j < 64 \<Longrightarrow> ts (walk_crumbs K E walk ! j) = T0 + 900 * int j" by (rule t)
  show "j < 64 \<Longrightarrow> cell (walk_crumbs K E walk ! j) = walk ! j" by (simp add: walk_nth assms walk_crumb_def)
  show "\<forall>i. Suc i < length (walk_crumbs K E walk) \<longrightarrow> ts (walk_crumbs K E walk ! i) + 900 \<le> ts (walk_crumbs K E walk ! Suc i)"
    using t by (auto simp: l)
qed

lemma walk_ends:
  assumes "length walk = 64"
  shows "ts (hd (walk_crumbs K E walk)) = T0" "ts (last (walk_crumbs K E walk)) = T0 + 63 * 900"
proof -
  have "walk_crumbs K E walk \<noteq> []" using walk_window(1) [OF assms, where K = K and E = E] by auto
  then show "ts (hd (walk_crumbs K E walk)) = T0" "ts (last (walk_crumbs K E walk)) = T0 + 63 * 900"
    using walk_window(1) [OF assms, where K = K and E = E] walk_window(3) [OF assms, where j = 0 and K = K and E = E] walk_window(3) [OF assms, where j = 63 and K = K and E = E]
    by (simp_all add: hd_conv_nth last_conv_nth)
qed

lemma walk_attested:
  assumes "sign_ok E" "length walk = 64"
  shows "attested_window K E (ed_public E DEV_KEY) (walk_crumbs K E walk)"
  using walk_window [OF assms(2), where K = K and E = E] assms(1)
  unfolding attested_window_def signed_def sign_ok_def by (metis fromhex_hex)

section \<open>The claim UUID\<close>

text \<open>The text that the claim UUID digests is what \<open>json.dumps\<close> writes for the crumbs.\<close>

definition crumb_value :: "crumb \<Rightarrow> json" where
  "crumb_value c = JObj [(''cell'', JStr (cell c)), (''seq'', JNum (dec (seq c))), (''sig'', JStr (sig c)), (''ts'', JNum (dec (ts c)))]"

lemma json_string_quoted: "json_string s = quoted s"
proof -
  have "json_char c = escape_char c" for c
  proof -
    have q: "of_char c = (34 :: nat) \<longleftrightarrow> c = QUOTE" "of_char c = (92 :: nat) \<longleftrightarrow> c = BACKSLASH"
      using of_char_eq_iff [of c QUOTE, where 'a = nat] of_char_eq_iff [of c BACKSLASH, where 'a = nat] by (simp_all add: QUOTE_def BACKSLASH_def)
    have "unat (char_byte c) = of_char c" by (simp add: char_byte_def unat_of_nat)
    then show ?thesis by (simp add: json_char_def escape_char_def Let_def q hex_byte_def) (simp add: BACKSLASH_def)
  qed
  then have "json_char = escape_char" by (rule ext)
  then show ?thesis by (simp add: json_string_def quoted_def QUOTE_def)
qed

lemma crumbs_json_dumps: "crumbs_json cs = json_dumps (JList (map crumb_value cs))"
proof -
  have "json_items ws = commas ws" for ws by (induction ws rule: json_items.induct) simp_all
  moreover have "crumb_json = json_dumps \<circ> crumb_value"
    by (rule ext) (simp add: crumb_json_def crumb_value_def json_string_quoted)
  ultimately show ?thesis by (simp add: crumbs_json_def)
qed

lemma crumbs_json_inj: "utf8 (crumbs_json cs) = utf8 (crumbs_json cs') \<Longrightarrow> cs = cs'"
proof -
  assume "utf8 (crumbs_json cs) = utf8 (crumbs_json cs')"
  then have "crumbs_json cs = crumbs_json cs'" using utf8_decode_utf8 by (metis option.inject)
  moreover have "json_ok (JList (map crumb_value xs))" for xs
    by (auto simp: crumb_value_def json_ok_int simp del: json_ok.simps(1))
  ultimately have "map crumb_value cs = map crumb_value cs'"
    unfolding crumbs_json_dumps using json_loads_dumps by (metis sum.inject(2) json.inject(4))
  moreover have "inj crumb_value"
    by (rule injI) (auto simp: crumb_value_def intro!: crumb.equality dest: dec_inj)
  ultimately show "cs = cs'" by (simp add: inj_map_eq_map)
qed

text \<open>The name under which the UUID is made.\<close>

definition claim_name :: "bool \<Rightarrow> crumb list \<Rightarrow> string" where
  "claim_name supplied cs = (if supplied then ''trip-supplied:'' else ''trip-synthetic:'') @ hex (sha256 (utf8 (crumbs_json cs)))"

lemma claim_name_eq: "claim_name s cs = claim_name s' cs' \<Longrightarrow> s = s' \<and> sha256 (utf8 (crumbs_json cs)) = sha256 (utf8 (crumbs_json cs'))"
  by (cases s; cases s') (simp_all add: claim_name_def)

text \<open>C39: The claim UUID names the evidence. Whatever the codec, the keys and the geography of two runs of Verifier A,
  results on the same window and with the same kind of evidence have the same UUID; and two results with the
  same UUID are of the same kind and rest on the same 64 crumbs, signatures included, unless the two windows
  exhibit two different texts with one SHA-256 digest, or two different names with one version 5 UUID.\<close>

theorem claim_uuid_names_window:
  assumes "verifier_A K E G s ev = Ok (Result r)" "verifier_A K' E' G' s' ev' = Ok (Result r')"
  shows "(s = s' \<and> crumbs ev = crumbs ev' \<longrightarrow> gr_uuid r = gr_uuid r')
    \<and> (gr_uuid r = gr_uuid r' \<longrightarrow> s = s' \<and> crumbs ev = crumbs ev'
      \<or> (let x = utf8 (crumbs_json (crumbs ev)); y = utf8 (crumbs_json (crumbs ev')) in x \<noteq> y \<and> sha256 x = sha256 y)
      \<or> (let n = claim_name s (crumbs ev); m = claim_name s' (crumbs ev') in n \<noteq> m \<and> uuid5 UUID_NS n = uuid5 UUID_NS m))"
proof -
  have u: "gr_uuid r = uuid5 UUID_NS (claim_name s (crumbs ev))" if "verifier_A K E G s ev = Ok (Result r)" for K E G s ev r
    using that unfolding verifier_A_Result by (auto simp: A_result_def Let_def claim_uuid_def claim_name_def)
  note u = u [OF assms(1)] u [OF assms(2)]
  have "s = s' \<and> crumbs ev = crumbs ev' \<or> utf8 (crumbs_json (crumbs ev)) \<noteq> utf8 (crumbs_json (crumbs ev'))
      \<and> sha256 (utf8 (crumbs_json (crumbs ev))) = sha256 (utf8 (crumbs_json (crumbs ev')))"
    if "claim_name s (crumbs ev) = claim_name s' (crumbs ev')"
    using claim_name_eq [OF that] crumbs_json_inj [of "crumbs ev" "crumbs ev'"] by blast
  then show ?thesis unfolding Let_def u by auto
qed

theorem claim_uuid_names_window_witness:
  "\<exists>r r'. verifier_A demo_codec demo_ed demo_geo False demo_evidence = Ok (Result r)
    \<and> verifier_A demo_codec demo_ed demo_geo True demo_evidence = Ok (Result r')
    \<and> (gr_uuid r = gr_uuid r' \<longrightarrow> uuid5 UUID_NS (claim_name False (crumbs demo_evidence)) = uuid5 UUID_NS (claim_name True (crumbs demo_evidence)))"
proof -
  let ?A = "\<lambda>s. A_result s ''NL'' ''Netherlands'' (crumbs demo_evidence)"
  have "gr_uuid (?A False) = gr_uuid (?A True) \<longrightarrow>
      uuid5 UUID_NS (claim_name False (crumbs demo_evidence)) = uuid5 UUID_NS (claim_name True (crumbs demo_evidence))"
    using claim_uuid_names_window [OF demo_A demo_A, where s = False and s' = True] unfolding Let_def by blast
  with demo_A show ?thesis by blast
qed

end
