(* ===== verification/TripExample.thy ===== *)
theory TripExample
  imports TripDevice
begin

text \<open>
  The script \<open>trip_example.py\<close> around its verifier: the device signs a window of cells, the verifier judges
  it, and three negative controls follow. The \<open>cddl\<close> command is a parameter.
\<close>

section \<open>The run\<close>

text \<open>\<open>report\<close>. The entries of a result are optional; the window is shown in seconds (the script divides by 3600).\<close>

record example_entry =
  xe_cbor :: bytes
  xe_country :: cbor
  xe_basis :: cbor
  xe_uuid :: bytes
  xe_cddl :: "bool \<times> string"

record example_report =
  xr_note :: example_outcome
  xr_result :: "example_entry option"
  xr_tampered :: example_outcome
  xr_basis_3_rejected :: bool
  xr_two_countries :: example_outcome
  xr_span :: int
  xr_distinct_cells :: nat

definition example_result :: "codec \<Rightarrow> (bytes \<Rightarrow> bool \<times> string) \<Rightarrow> example_outcome \<Rightarrow> example_entry option res" where
  "example_result K cddl x = (case x of ExampleRefused _ \<Rightarrow> Ok None
     | ExampleResult m \<Rightarrow> rbind (item m L_COUNTRY) (\<lambda>cc. rbind (item m L_BASIS) (\<lambda>basis.
         rbind (item m L_UUID) (\<lambda>u. rbind (uuid_value u) (\<lambda>uuid.
         Ok (Some \<lparr>xe_cbor = dumps K m, xe_country = cc, xe_basis = basis, xe_uuid = uuid, xe_cddl = cddl (dumps K m)\<rparr>))))))"

text \<open>The controls: one cell replaced under its signature, a basis that does not exist, the last eight cells
  replaced and signed again.\<close>

definition tampered :: "crumb list \<Rightarrow> string \<Rightarrow> crumb list" where
  "tampered cs paris = cs[17 := (cs ! 17)\<lparr>cell := paris\<rparr>]"

definition bad_basis :: cbor where
  "bad_basis = CMap [(CInt L_COUNTRY, CText ''NL''), (CInt L_UUID, CBytes (zeros 16)), (CInt L_BASIS, CInt 3)]"

fun replace_cells :: "codec \<Rightarrow> ed25519 \<Rightarrow> nat \<Rightarrow> string list \<Rightarrow> crumb list \<Rightarrow> crumb list" where
  "replace_cells K E i [] cs = cs"
| "replace_cells K E i (c # walk) cs = replace_cells K E (i + 1) walk (cs[i := sign_crumb K E ((cs ! i)\<lparr>cell := c\<rparr>)])"

definition example_run :: "codec \<Rightarrow> ed25519 \<Rightarrow> ('g, 'p) geography \<Rightarrow> (bytes \<Rightarrow> bool \<times> string) \<Rightarrow> string list \<Rightarrow> string res \<Rightarrow> string list res
    \<Rightarrow> example_report res" where
  "example_run K E G cddl walk paris walk2 = (let cs = walk_crumbs K E walk in
     rbind (verify_and_conclude K E G (evidence_of E cs)) (\<lambda>note.
     rbind (example_result K cddl note) (\<lambda>entry.
     rbind paris (\<lambda>paris.
     rbind (verify_and_conclude K E G (evidence_of E (tampered cs paris))) (\<lambda>note2.
     rbind walk2 (\<lambda>walk2.
     rbind (verify_and_conclude K E G (evidence_of E (replace_cells K E (N_CELLS - 8) walk2 cs))) (\<lambda>note3.
     Ok \<lparr>xr_note = note, xr_result = entry, xr_tampered = note2, xr_basis_3_rejected = (\<not> fst (cddl (dumps K bad_basis))),
        xr_two_countries = note3, xr_span = ts (last cs) - ts (hd cs), xr_distinct_cells = card (cell ` set cs)\<rparr>)))))))"

text \<open>The cell in Paris, the walk of eight cells in Antwerp, and the script from its start.\<close>

definition paris_cell :: "('f, 'r) floats \<Rightarrow> 'f h3 \<Rightarrow> string res" where
  "paris_cell F H = cell_at H (f_lit F ''48.8566'') (f_lit F ''2.3522'') RES"

definition antwerp_walk :: "('f, 'r) floats \<Rightarrow> 'f h3 \<Rightarrow> string list res" where
  "antwerp_walk F H = walk_cells F H 8 (rng F 1) (f_lit F ''51.2194'') (f_lit F ''4.4025'')"

definition example_main :: "codec \<Rightarrow> ed25519 \<Rightarrow> ('g, 'p) geography \<Rightarrow> (bytes \<Rightarrow> bool \<times> string) \<Rightarrow> ('f, 'r) floats \<Rightarrow> 'f h3
    \<Rightarrow> example_report res" where
  "example_main K E G cddl F H = rbind (amsterdam_walk F H) (\<lambda>walk.
     example_run K E G cddl walk (paris_cell F H) (antwerp_walk F H))"

section \<open>Lemmas\<close>

lemma length_replace [simp]: "length (replace_cells K E i walk cs) = length cs"
  by (induction walk arbitrary: i cs) simp_all

lemma replace_nth:
  "i + length walk \<le> length cs \<Longrightarrow> j < length cs \<Longrightarrow>
     ts (replace_cells K E i walk cs ! j) = ts (cs ! j)
     \<and> cell (replace_cells K E i walk cs ! j) = (if i \<le> j \<and> j < i + length walk then walk ! (j - i) else cell (cs ! j))
     \<and> (signed K E (cs ! j) \<longrightarrow> signed K E (replace_cells K E i walk cs ! j))"
proof (induction walk arbitrary: i cs)
  case (Cons c walk)
  let ?cs = "cs[i := sign_crumb K E ((cs ! i)\<lparr>cell := c\<rparr>)]"
  have p: "i + 1 + length walk \<le> length ?cs" "j < length ?cs" using Cons.prems by simp_all
  show ?case using Cons.IH [OF p] Cons.prems by (auto simp: nth_list_update nth_Cons' Suc_diff_Suc split: if_splits)
qed auto

lemma group_all_snoc: "group_all f g (xs @ [x]) = group_add (f x) (g x) (group_all f g xs)"
  by (simp add: group_all_def)

lemma group_two:
  assumes "\<forall>x \<in> set xs. f x = k" "xs \<noteq> []" "k \<noteq> l" "\<forall>y \<in> set ys. f y = l" "ys \<noteq> []"
  shows "map fst (group_all f g (xs @ ys)) = [k, l]"
proof -
  have "f ` set xs = {k}" using assms(1,2) by (cases xs) auto
  then obtain vs where k: "group_all f g xs = [(k, vs)]" using group_all_single [of f g xs k] assms(2) by blast
  have "\<exists>ws. group_all f g (xs @ ys) = [(k, vs), (l, ws)]" using assms(4,5)
  proof (induction ys rule: rev_induct)
    case (snoc y ys)
    have y: "f y = l" using snoc.prems by simp
    show ?case
    proof (cases "ys = []")
      case True
      then show ?thesis using k y assms(3) by (simp add: group_all_snoc)
    next
      case False
      then obtain ws where "group_all f g (xs @ ys) = [(k, vs), (l, ws)]" using snoc by auto
      then show ?thesis using y assms(3) group_all_snoc [of f g "xs @ ys" y] by simp
    qed
  qed simp
  then show ?thesis by auto
qed

text \<open>The verifier on a window the device signed, by the countries its cells resolve to.\<close>

lemma conclude_signed:
  assumes "sign_ok E" "ed_load_public E (ed_public E DEV_KEY) = Ok (ed_public E DEV_KEY)" "length cs = 64"
    and "\<forall>c \<in> set cs. signed K E c" "\<forall>i. Suc i < length cs \<longrightarrow> ts (cs ! i) + 900 \<le> ts (cs ! Suc i)"
    and "rmap (\<lambda>c. country_of G (cell c)) cs = Ok cn"
  shows "verify_and_conclude K E G (evidence_of E cs) = (let found = group_all fst snd (zip (map fst cn) (map cell cs)) in
    case found of [(Some cc, _)] \<Rightarrow> rbind (name_of G cc) (\<lambda>nm. Ok (ExampleResult (CMap (core_map cc (claim_uuid ''trip-synthetic:'' cs)))))
    | _ \<Rightarrow> Ok (ExampleRefused (NoSingleCountry (map (str_opt \<circ> fst) found))))"
proof -
  have "\<not> spacing_short cs" using assms(5) spacing_ok by blast
  then show ?thesis
    by (simp add: verify_and_conclude_def evidence_of_def assms(2,3,6) check_signed [OF assms(1,4)] N_CELLS_def Let_def)
qed

lemma rmap_append: "rmap f (xs @ ys) = rbind (rmap f xs) (\<lambda>a. rbind (rmap f ys) (\<lambda>b. Ok (a @ b)))"
proof (induction xs)
  case Nil
  then show ?case by (cases "rmap f ys") simp_all
next
  case (Cons x xs)
  then show ?case by (cases "f x"; cases "rmap f xs"; cases "rmap f ys") simp_all
qed

lemma zip_const: "zip (map fst (map (\<lambda>_. (k, n)) cs)) (map h cs) = map (\<lambda>c. (k, h c)) cs"
  by (induction cs) simp_all

lemma item_core: "item (CMap (core_map cc u)) L_COUNTRY = Ok (CText cc)" "item (CMap (core_map cc u)) L_BASIS = Ok (CInt EVIDENCE)"
    "item (CMap (core_map cc u)) L_UUID = Ok (CBytes u)"
  by (simp_all add: item_Inr_map core_map_def lookup_int_def labels)

text \<open>The three windows of the script.\<close>

lemma window_of_one_country:
  assumes "sign_ok E" "ed_load_public E (ed_public E DEV_KEY) = Ok (ed_public E DEV_KEY)" "length walk = 64"
    and "name_of G cc = Ok nm" "\<forall>c \<in> set walk. country_of G c = Ok (Some cc, n1)"
  shows "verify_and_conclude K E G (evidence_of E (walk_crumbs K E walk))
    = Ok (ExampleResult (CMap (core_map cc (claim_uuid ''trip-synthetic:'' (walk_crumbs K E walk)))))"
proof -
  let ?cs = "walk_crumbs K E walk"
  note w = walk_window [OF assms(3), where K = K and E = E]
  have ne: "?cs \<noteq> []" using w(1) by auto
  have "fst ` set (map (\<lambda>c. (Some cc, cell c)) ?cs) = {Some cc}" using ne by (cases ?cs) auto
  then obtain vs where "group_all fst snd (map (\<lambda>c. (Some cc, cell c)) ?cs) = [(Some cc, vs)]"
    using group_all_single [of fst snd "map (\<lambda>c. (Some cc, cell c)) ?cs" "Some cc"] ne by auto
  moreover have c: "rmap (\<lambda>c. country_of G (cell c)) ?cs = Ok (map (\<lambda>_. (Some cc, n1)) ?cs)"
    by (rule rmap_Ok_total) (use assms(5) [unfolded all_set_conv_all_nth] assms(3) w(1,4) in \<open>auto simp: in_set_conv_nth\<close>)
  ultimately show ?thesis using conclude_signed [OF assms(1,2) w(1,2,5) c] assms(4) by (simp add: zip_const del: map_map)
qed

lemma window_with_other_cell:
  assumes "sign_ok E" "ed_load_public E (ed_public E DEV_KEY) = Ok (ed_public E DEV_KEY)" "length walk = 64"
    and "\<not> ed_verify E (ed_public E DEV_KEY) (ed_sign E DEV_KEY (msg K (walk_crumb 17 (walk ! 17)))) (msg K (walk_crumb 17 paris))"
  shows "verify_and_conclude K E G (evidence_of E (tampered (walk_crumbs K E walk) paris)) = Ok (ExampleRefused (SignatureFailed 17))"
proof -
  let ?pk = "ed_public E DEV_KEY" and ?cs = "walk_crumbs K E walk"
  let ?c = "(?cs ! 17)\<lparr>cell := paris\<rparr>"
  note w = walk_window [OF assms(3), where K = K and E = E]
  have m: "msg K ?c = msg K (walk_crumb 17 paris)" "sig ?c = hex (ed_sign E DEV_KEY (msg K (walk_crumb 17 (walk ! 17))))" "seq ?c = 17"
    by (simp_all add: walk_nth assms(3) msg_def walk_crumb_def)
  have "\<forall>c \<in> set (take 17 ?cs). signed K E c" using w(2) by (meson in_set_takeD)
  then have "check_sigs K E ?pk (take 17 ?cs @ ?c # r) = check_sigs K E ?pk (?c # r)" for r
    by (rule check_signed_prefix [OF assms(1)])
  then have "check_sigs K E ?pk (take 17 ?cs @ ?c # drop 18 ?cs) = Ok (Some 17)" using m assms(4) by simp
  moreover have "tampered ?cs paris = take 17 ?cs @ ?c # drop 18 ?cs" by (simp add: tampered_def upd_conv_take_nth_drop w(1))
  ultimately show ?thesis by (simp add: verify_and_conclude_def evidence_of_def assms(2) Let_def)
qed

lemma window_of_two_countries:
  assumes "sign_ok E" "ed_load_public E (ed_public E DEV_KEY) = Ok (ed_public E DEV_KEY)" "length walk = 64" "length walk2 = 8"
    and "cc \<noteq> dd" "\<forall>c \<in> set walk. country_of G c = Ok (Some cc, n1)" "\<forall>c \<in> set walk2. country_of G c = Ok (Some dd, n2)"
  shows "verify_and_conclude K E G (evidence_of E (replace_cells K E 56 walk2 (walk_crumbs K E walk))) = Ok (ExampleRefused (NoSingleCountry [cc, dd]))"
proof -
  let ?cs = "walk_crumbs K E walk"
  note w = walk_window [OF assms(3), where K = K and E = E]
  define c3 where "c3 = replace_cells K E 56 walk2 ?cs"
  have l3: "length c3 = 64" by (simp add: c3_def w(1))
  have n3: "ts (c3 ! j) = T0 + 900 * int j" "cell (c3 ! j) = (if 56 \<le> j then walk2 ! (j - 56) else walk ! j)" "signed K E (c3 ! j)"
    if "j < 64" for j
    using replace_nth [of 56 walk2 ?cs j K E] that assms(4) w by (auto simp: c3_def)
  have sg3: "\<forall>c \<in> set c3. signed K E c" and sp3: "\<forall>i. Suc i < length c3 \<longrightarrow> ts (c3 ! i) + 900 \<le> ts (c3 ! Suc i)"
    using n3 by (auto simp: in_set_conv_nth l3)
  let ?x = "take 56 c3" and ?y = "drop 56 c3"
  have x: "\<forall>c \<in> set ?x. country_of G (cell c) = Ok (Some cc, n1)" and y: "\<forall>c \<in> set ?y. country_of G (cell c) = Ok (Some dd, n2)"
    using n3(2) assms(3,4) assms(6,7) [unfolded all_set_conv_all_nth] by (auto simp: in_set_conv_nth l3)
  have cn: "rmap (\<lambda>c. country_of G (cell c)) (?x @ ?y) = Ok (map (\<lambda>_. (Some cc, n1)) ?x @ map (\<lambda>_. (Some dd, n2)) ?y)"
    unfolding rmap_append
    using rmap_Ok_total [of ?x "\<lambda>c. country_of G (cell c)"] rmap_Ok_total [of ?y "\<lambda>c. country_of G (cell c)"] x y by simp
  let ?z = "map (\<lambda>c. (Some cc, cell c)) ?x @ map (\<lambda>c. (Some dd, cell c)) ?y"
  have "map fst (group_all fst snd ?z) = [Some cc, Some dd]" by (rule group_two) (use assms(5) l3 in auto)
  then obtain a b where g: "group_all fst snd ?z = [(Some cc, a), (Some dd, b)]" by (auto simp: map_eq_Cons_conv)
  have z: "zip (map fst (map (\<lambda>_. (Some cc, n1)) ?x @ map (\<lambda>_. (Some dd, n2)) ?y)) (map cell (?x @ ?y)) = ?z"
    unfolding map_append by (subst zip_append) (simp_all only: zip_const length_map)
  have "?x @ ?y = c3" by simp
  with conclude_signed [OF assms(1,2) l3 sg3 sp3 cn [unfolded append_take_drop_id]] z g show ?thesis
    by (simp add: str_opt_def c3_def)
qed

lemma example_main_value:
  assumes "sign_ok E" "ed_load_public E (ed_public E DEV_KEY) = Ok (ed_public E DEV_KEY)"
    and "amsterdam_walk F H = Ok walk" "antwerp_walk F H = Ok walk2" "paris_cell F H = Ok paris"
    and "cc \<noteq> dd" "name_of G cc = Ok nm"
    and "\<forall>c \<in> set walk. country_of G c = Ok (Some cc, n1)" "\<forall>c \<in> set walk2. country_of G c = Ok (Some dd, n2)"
    and "\<not> ed_verify E (ed_public E DEV_KEY) (ed_sign E DEV_KEY (msg K (walk_crumb 17 (walk ! 17)))) (msg K (walk_crumb 17 paris))"
  defines "u \<equiv> claim_uuid ''trip-synthetic:'' (walk_crumbs K E walk)"
  defines "m \<equiv> CMap (core_map cc u)"
  shows "example_main K E G cddl F H = Ok \<lparr>xr_note = ExampleResult m,
     xr_result = Some \<lparr>xe_cbor = dumps K m, xe_country = CText cc, xe_basis = CInt EVIDENCE, xe_uuid = u, xe_cddl = cddl (dumps K m)\<rparr>,
     xr_tampered = ExampleRefused (SignatureFailed 17), xr_basis_3_rejected = (\<not> fst (cddl (dumps K bad_basis))),
     xr_two_countries = ExampleRefused (NoSingleCountry [cc, dd]), xr_span = 63 * 900, xr_distinct_cells = card (cell ` set (walk_crumbs K E walk))\<rparr>"
proof -
  have len: "length walk = 64" "length walk2 = 8"
    using assms(3,4) by (auto simp: antwerp_walk_def amsterdam_walk_def N_CELLS_def dest!: length_walk)
  have "length u = 16" by (simp add: u_def claim_uuid_def length_uuid5)
  then show ?thesis
    using window_of_one_country [OF assms(1,2) len(1) assms(7,8), where K = K] window_with_other_cell [OF assms(1,2) len(1) assms(10), where G = G]
      window_of_two_countries [OF assms(1,2) len assms(6,8,9), where K = K] walk_ends [OF len(1), where K = K and E = E]
    by (simp add: example_main_def assms(3-5) example_run_def N_CELLS_def example_result_def item_core uuid_value_def Let_def u_def m_def)
qed

section \<open>Property\<close>

text \<open>C25: The run and its controls. When every cell of the walk resolves to one country and every cell of the second
  walk to another, the script writes a result for the first country, with the basis of evidence and the UUID of
  the signed window; the window with the Paris cell is refused by the number of the altered crumb, unless that
  signature happens to fit the altered message; and the window that ends in the second country is refused with
  the two codes in the order met. The size of the window and its span follow from the walk itself.\<close>

theorem example_and_controls:
  assumes "sign_ok E" "ed_load_public E (ed_public E DEV_KEY) = Ok (ed_public E DEV_KEY)"
    and "amsterdam_walk F H = Ok walk" "antwerp_walk F H = Ok walk2" "paris_cell F H = Ok paris"
    and "cc \<noteq> dd" "name_of G cc = Ok nm"
    and "\<forall>c \<in> set walk. country_of G c = Ok (Some cc, n1)" "\<forall>c \<in> set walk2. country_of G c = Ok (Some dd, n2)"
    and "\<not> ed_verify E (ed_public E DEV_KEY) (ed_sign E DEV_KEY (msg K (walk_crumb 17 (walk ! 17)))) (msg K (walk_crumb 17 paris))"
  shows "\<exists>r e. example_main K E G cddl F H = Ok r
    \<and> xr_result r = Some e \<and> xe_country e = CText cc \<and> xe_basis e = CInt EVIDENCE
    \<and> xe_uuid e = claim_uuid ''trip-synthetic:'' (walk_crumbs K E walk)
    \<and> xr_tampered r = ExampleRefused (SignatureFailed 17)
    \<and> xr_two_countries r = ExampleRefused (NoSingleCountry [cc, dd]) \<and> xr_span r = 63 * 900"
  unfolding example_main_value [OF assms] by simp

text \<open>A map of two countries: the Netherlands has the cells beginning with \<open>n\<close>, Belgium the rest. A machine whose
  numbers are the texts of the source, and cells that tell where a walk began.\<close>

definition two_lands :: "(bool, string) geography" where
  "two_lands = \<lparr>polys = [(''NL'', ''Netherlands'', True), (''BE'', ''Belgium'', False)],
     covers = (\<lambda>g p. g = (hd p = CHR ''n'')), cell_polygon = (\<lambda>c. Ok c), cell_centre = (\<lambda>c. Ok c)\<rparr>"

definition demo_floats :: "(string, int) floats" where
  "demo_floats = \<lparr>f_lit = (\<lambda>t. t), f_add = (\<lambda>a b. a), f_mul = (\<lambda>a b. a), f_div = (\<lambda>a b. Ok a), f_cos = (\<lambda>a. a), f_sin = (\<lambda>a. a),
     f_radians = (\<lambda>a. a), f_pi = ''3'', f_int = (\<lambda>t. Ok 0), rng = (\<lambda>n. n), uniform = (\<lambda>r a b. (a, r))\<rparr>"

definition demo_h3 :: "string h3" where
  "demo_h3 = \<lparr>cell_at = (\<lambda>lat lng r. Ok (if lat = ''52.3731'' then ''n1'' else if lat = ''48.8566'' then ''p'' else ''b'')),
     get_resolution = (\<lambda>c. Ok 10)\<rparr>"

lemma demo_walk: "walk_cells demo_floats demo_h3 n r ''52.3731'' lng = Ok (replicate n ''n1'')"
    "walk_cells demo_floats demo_h3 n r ''51.2194'' lng = Ok (replicate n ''b'')"
  by (induction n arbitrary: r lng) (simp_all add: demo_floats_def demo_h3_def walk_move_def)

lemma demo_walks: "amsterdam_walk demo_floats demo_h3 = Ok (replicate 64 ''n1'')" "antwerp_walk demo_floats demo_h3 = Ok (replicate 8 ''b'')"
    "paris_cell demo_floats demo_h3 = Ok ''p''"
proof -
  have "f_lit demo_floats t = t" for t by (simp add: demo_floats_def)
  then show "amsterdam_walk demo_floats demo_h3 = Ok (replicate 64 ''n1'')" "antwerp_walk demo_floats demo_h3 = Ok (replicate 8 ''b'')"
    by (simp_all only: amsterdam_walk_def antwerp_walk_def demo_walk N_CELLS_def)
  show "paris_cell demo_floats demo_h3 = Ok ''p''" by (simp add: paris_cell_def demo_floats_def demo_h3_def)
qed

lemma demo_foreign: "\<not> ed_verify demo_ed (ed_public demo_ed DEV_KEY)
    (ed_sign demo_ed DEV_KEY (msg demo_codec (walk_crumb 17 (replicate 64 ''n1'' ! 17)))) (msg demo_codec (walk_crumb 17 ''p''))"
proof -
  let ?v = "\<lambda>c. CList [CInt (seq c), CInt (ts c), CText (cell c)]"
  have "?v (walk_crumb 17 ''n1'') \<noteq> ?v (walk_crumb 17 ''p'')" by (simp add: walk_crumb_def)
  then have "enc (?v (walk_crumb 17 ''n1'')) \<noteq> enc (?v (walk_crumb 17 ''p''))" using enc_inj by blast
  then show ?thesis by (simp add: demo_ed_def msg_def demo_codec_def)
qed

lemma demo_countries: "\<forall>c \<in> set (replicate 64 ''n1''). country_of two_lands c = Ok (Some ''NL'', Some ''Netherlands'')"
    "\<forall>c \<in> set (replicate 8 ''b''). country_of two_lands c = Ok (Some ''BE'', Some ''Belgium'')"
  by (simp_all add: country_of_def two_lands_def)

lemma demo_device: "ed_load_public demo_ed (ed_public demo_ed DEV_KEY) = Ok (ed_public demo_ed DEV_KEY)"
  by (simp add: demo_ed_def)

lemma demo_names: "''NL'' \<noteq> ''BE''" "name_of two_lands ''NL'' = Ok ''Netherlands''"
  by (simp_all add: name_of_def two_lands_def)

lemmas demo_example = demo_sign_ok demo_device demo_walks demo_names demo_countries demo_foreign

theorem example_and_controls_witness:
  "\<exists>r. example_main demo_codec demo_ed two_lands (\<lambda>_. (True, [])) demo_floats demo_h3 = Ok r
    \<and> xr_tampered r = ExampleRefused (SignatureFailed 17) \<and> xr_two_countries r = ExampleRefused (NoSingleCountry [''NL'', ''BE''])"
  using example_and_controls [OF demo_example, where cddl = "\<lambda>_. (True, [])"] by blast

end
