(* ===== verification/TripReport.thy ===== *)
theory TripReport
  imports TripExample
begin

text \<open>
  \<open>trip_chain.py\<close> from its arguments to its report: the evidence, the two Dutch results of an earlier run, the
  chain, the files it writes and \<open>chain-report.json\<close>. The \<open>cddl\<close> command is a parameter that takes the text of
  the schema and the bytes of the file. The theorems connect the script to \<open>trip_example.py\<close>, whose vector it
  compares with its own, and to the set of a producer.
\<close>

section \<open>Inputs\<close>

text \<open>\<open>run if isinstance(run, list) else run.get("results", run)\<close>.\<close>

definition run_rows :: "json \<Rightarrow> json res" where
  "run_rows run = (case run of JList _ \<Rightarrow> Ok run
     | JObj m \<Rightarrow> Ok (case map_of m ''results'' of None \<Rightarrow> run | Some r \<Rightarrow> r) | _ \<Rightarrow> Err AttributeError)"

text \<open>One entry of \<open>nl\<close>. A list or a dictionary cannot be a key; other keys that are no text are never asked for.\<close>

definition nl_entry :: "json \<Rightarrow> (string \<times> bytes) option res" where
  "nl_entry r = rbind (jget r ''country'') (\<lambda>c. if c \<noteq> JStr ''NL'' then Ok None else
     rbind (jitem r ''family'') (\<lambda>f. rbind (jitem r ''ear_hex'') (\<lambda>h. rbind (jstr TypeError h) (\<lambda>t. rbind (fromhex t) (\<lambda>b.
     case f of JStr s \<Rightarrow> Ok (Some (s, b)) | JList _ \<Rightarrow> Err TypeError | JObj _ \<Rightarrow> Err TypeError | _ \<Rightarrow> Ok None)))))"

definition nl_results :: "json \<Rightarrow> (string \<times> bytes) list res" where
  "nl_results run = rbind (run_rows run) (\<lambda>rows. rbind (jiter rows) (\<lambda>rs. rbind (rmap nl_entry rs) (\<lambda>es.
     Ok (dict_of (List.map_filter (\<lambda>e. e) es)))))"

section \<open>Outputs\<close>

text \<open>\<open>str(uuid.UUID(bytes=u))\<close>.\<close>

definition uuid_text :: "bytes \<Rightarrow> string" where
  "uuid_text u = (let h = hex u in
     take 8 h @ ''-'' @ slice h 8 12 @ ''-'' @ slice h 12 16 @ ''-'' @ slice h 16 20 @ ''-'' @ drop 20 h)"

text \<open>\<open>s.replace(old, new)\<close>, and the schema with the proposed labels.\<close>

fun join_with :: "'a list \<Rightarrow> 'a list list \<Rightarrow> 'a list" where
  "join_with sep [] = []"
| "join_with sep [w] = w"
| "join_with sep (w # ws) = w @ sep @ join_with sep ws"

definition replace_sub :: "'a list \<Rightarrow> 'a list \<Rightarrow> 'a list \<Rightarrow> 'a list" where
  "replace_sub old new s = join_with new (split_sub old s)"

definition LF :: string where "LF = [CHR 0x0A]"

definition BASIS_RULE :: string where "BASIS_RULE = ''  ? grc.basis-label => grc.basis-class'' @ LF"

definition PROPOSED_RULES :: string where
  "PROPOSED_RULES = ''  ? grc.provence-label => tstr .size (1..12)'' @ LF @ ''  ? grc.basis-ref-label => corim.uuid-type'' @ LF
     @ ''  ? grc.observed-from-label => time'' @ LF @ ''  ? grc.observed-until-label => time'' @ LF"

definition PROPOSED_LABELS :: string where
  \<open>PROPOSED_LABELS = LF @ ''; PROPOSED labels, not in PR #6: provence from PR #4 moved off 13 (taken by claim-uuid), a reference to the result this one rests on, and an observation window for longitudinal evidence'' @ LF
     @ ''grc.provence-label = eat.JC<"grc.provence", 15>'' @ LF @ ''grc.basis-ref-label = eat.JC<"grc.basis-ref", 16>'' @ LF
     @ ''grc.observed-from-label = eat.JC<"grc.observed-from", 17>'' @ LF
     @ ''grc.observed-until-label = eat.JC<"grc.observed-until", 18>'' @ LF
     @ ''; time is the CDDL prelude type #6.1(number)'' @ LF\<close>

definition ext_cddl :: "string \<Rightarrow> string" where
  "ext_cddl strict = replace_sub BASIS_RULE (BASIS_RULE @ PROPOSED_RULES) strict @ PROPOSED_LABELS"

definition chain_files :: "codec \<Rightarrow> trip_report \<Rightarrow> (string \<times> bytes) list" where
  "chain_files K r = [(''r1-core.cbor'', dumps K (gr_core (tr_result r))), (''r1-ext.cbor'', dumps K (gr_ext (tr_result r))),
     (''r2.cbor'', dumps K (tr_r2 r)), (''r2-noref.cbor'', dumps K (tr_r2n r)),
     (''ear-A.cose'', tr_ear_A r), (''ear-B.cose'', tr_ear_B r), (''ear-B-noref.cose'', tr_ear_B_noref r),
     (''ear-rogue.cose'', tr_ear_rogue r), (''ear-snp-nl.cose'', tr_ear_snp r), (''ear-azure-nl.cose'', tr_ear_azure r)]"

text \<open>\<open>prev\<close> is the vector that \<open>trip_example.py\<close> left; an empty file counts as none.\<close>

definition same_vector :: "bytes option \<Rightarrow> bytes \<Rightarrow> bool option" where
  "same_vector prev core = (case prev of None \<Rightarrow> None | Some p \<Rightarrow> if p = [] then None else Some (p = core))"

text \<open>The window is shown in seconds (the script divides by 3600); the edge length of a cell is left out.\<close>

record chain_report =
  ch_kind :: string
  ch_note :: string
  ch_distinct :: nat
  ch_span :: int
  ch_bytes :: "(string \<times> nat) list"
  ch_core_hex :: string
  ch_same :: "bool option"
  ch_r2_hex :: string
  ch_U1 :: string
  ch_U2 :: string
  ch_cddl :: "(string \<times> bool) list"
  ch_table :: "(string \<times> (verdict \<times> reason) \<times> (verdict \<times> reason)) list"
  ch_files :: "(string \<times> bytes) list"

definition chain_kind :: "(string \<times> string) option \<Rightarrow> string" where
  \<open>chain_kind supplied = (case supplied of
     Some (name, text) \<Rightarrow> ''Producer-supplied set ('' @ name @ '', labelled synthetic by its author), cells and collection times verbatim; the set carries no signatures, so each breadcrumb is signed here with the example'' @ [CHR 0x27] @ ''s device key''
   | None \<Rightarrow> ''SYNTHETIC trajectory evidence, TRIP-style; not produced by TRIP'')\<close>

definition cddl_checks :: "(string \<Rightarrow> bytes \<Rightarrow> bool) \<Rightarrow> string \<Rightarrow> bytes \<Rightarrow> bytes \<Rightarrow> bytes \<Rightarrow> (string \<times> bool) list" where
  "cddl_checks cddl strict core ext r2 =
     [(''r1-core vs PR#6'', cddl strict core), (''r1-ext vs PR#6 (expected false: proposed labels)'', cddl strict ext),
      (''r1-ext vs ext'', cddl (ext_cddl strict) ext), (''r2 vs ext'', cddl (ext_cddl strict) r2), (''r2 vs PR#6 (expected false)'', cddl strict r2)]"

definition chain_report_of :: "codec \<Rightarrow> (string \<Rightarrow> bytes \<Rightarrow> bool) \<Rightarrow> string \<Rightarrow> (string \<times> string) option \<Rightarrow> bytes option
    \<Rightarrow> crumb list \<Rightarrow> trip_report \<Rightarrow> chain_report" where
  "chain_report_of K cddl strict supplied prev cs r =
     (let core = dumps K (gr_core (tr_result r)); ext = dumps K (gr_ext (tr_result r)); r2 = dumps K (tr_r2 r) in
      \<lparr>ch_kind = chain_kind supplied, ch_note = ''64/64 signatures verified; 64/64 whole cells inside '' @ gr_country (tr_result r),
       ch_distinct = card (cell ` set cs), ch_span = ts (last cs) - ts (hd cs),
       ch_bytes = map (\<lambda>(n, b). (n, length b)) (chain_files K r), ch_core_hex = hex core, ch_same = same_vector prev core,
       ch_r2_hex = hex r2, ch_U1 = uuid_text (gr_uuid (tr_result r)), ch_U2 = uuid_text (tr_u2 r),
       ch_cddl = cddl_checks cddl strict core ext r2, ch_table = tr_table r, ch_files = chain_files K r\<rparr>)"

definition chain_main :: "codec \<Rightarrow> ed25519 \<Rightarrow> ('g, 'p) geography \<Rightarrow> ('f, 'r) floats \<Rightarrow> 'f h3 \<Rightarrow> (string \<Rightarrow> bytes \<Rightarrow> bool) \<Rightarrow> string
    \<Rightarrow> (string \<times> string) option \<Rightarrow> string \<Rightarrow> bytes option \<Rightarrow> chain_report res" where
  "chain_main K E G F H cddl strict supplied run prev =
     rbind (chain_evidence K E F H (map_option snd supplied)) (\<lambda>ev.
     rbind (trip_run K E G (supplied \<noteq> None) ev (rbind (json_loads run) nl_results)) (\<lambda>r.
     Ok (chain_report_of K cddl strict supplied prev (crumbs ev) r)))"

section \<open>The vector of the day before\<close>

lemma concluded_tail:
  "(case found of [(Some cc, x)] \<Rightarrow> rbind (name_of G cc) (\<lambda>nm. Ok (ExampleResult (R cc))) | _ \<Rightarrow> Ok (ExampleRefused q)) = Inr (ExampleResult m)
    \<longleftrightarrow> (\<exists>cc vs nm. found = [(Some cc, vs)] \<and> name_of G cc = Inr nm \<and> m = R cc)"
  by (auto simp: res_iff split: list.splits option.splits)

lemma concluded_core:
  assumes "verify_and_conclude K E G ev = Ok (ExampleResult m)"
  shows "\<exists>cc. m = CMap (core_map cc (claim_uuid ''trip-synthetic:'' (crumbs ev)))"
  using assms unfolding verify_and_conclude_def Let_def
  by (auto simp: rbind_Inr_iff concluded_tail split: option.splits if_splits)

lemma example_entry_core:
  assumes "example_main K E G cddl F H = Ok x" "xr_result x = Some e" "amsterdam_walk F H = Ok walk"
  shows "\<exists>cc. xe_country e = CText cc \<and> xe_cbor e = dumps K (CMap (core_map cc (claim_uuid ''trip-synthetic:'' (walk_crumbs K E walk))))"
proof -
  let ?ev = "evidence_of E (walk_crumbs K E walk)"
  from assms(1) obtain out where n: "verify_and_conclude K E G ?ev = Ok out" "example_result K cddl out = Ok (Some e)"
    using assms(2,3) by (auto simp: example_main_def example_run_def Let_def res_iff)
  then obtain m where m: "out = ExampleResult m" by (cases out) (simp_all add: example_result_def)
  with n concluded_core obtain cc where "m = CMap (core_map cc (claim_uuid ''trip-synthetic:'' (walk_crumbs K E walk)))"
    by (fastforce simp: evidence_of_def)
  with n(2) m show ?thesis by (auto simp: example_result_def item_core res_iff)
qed

lemma trip_run_result: "trip_run K E G supplied ev nl = Ok r \<Longrightarrow> verifier_A K E G supplied ev = Ok (Result (tr_result r))"
  unfolding trip_run_def
  by (cases "verifier_A K E G supplied ev"; cases "projr (verifier_A K E G supplied ev)") (auto simp: Let_def rbind_Inr_iff)

lemma chain_result:
  assumes "chain_main K E G F H cddl strict None run prev = Ok rep" "amsterdam_walk F H = Ok walk"
  obtains cc nm r where "trip_run K E G False (evidence_of E (walk_crumbs K E walk)) (rbind (json_loads run) nl_results) = Ok r"
    "rep = chain_report_of K cddl strict None prev (walk_crumbs K E walk) r"
    "tr_result r = A_result False cc nm (walk_crumbs K E walk)" "one_country G cc (walk_crumbs K E walk)"
proof -
  let ?ev = "evidence_of E (walk_crumbs K E walk)"
  from assms obtain r where r: "trip_run K E G False ?ev (rbind (json_loads run) nl_results) = Ok r"
      "rep = chain_report_of K cddl strict None prev (walk_crumbs K E walk) r"
    by (auto simp: chain_main_def chain_evidence_walk res_iff evidence_of_def)
  have "verifier_A K E G False ?ev = Ok (Result (tr_result r))" by (rule trip_run_result [OF r(1)])
  then show ?thesis using that [OF r] unfolding verifier_A_Result by (auto simp: evidence_of_def)
qed

lemma core_inj:
  assumes "codec_ok K" "dumps K (CMap (core_map cc u)) = dumps K (CMap (core_map dd u))"
  shows "cc = dd"
proof -
  have p: "plain (CMap (core_map x u))" for x by (simp add: core_map_def labels)
  have "decoded (CMap (core_map cc u)) = decoded (CMap (core_map dd u))"
    using loads_dumps [OF assms(1) p [of cc]] loads_dumps [OF assms(1) p [of dd]] assms(2) by simp
  then show ?thesis by (simp add: core_map_def)
qed

lemma lies_in_one: "lies_in G cc c \<Longrightarrow> lies_in G dd c \<Longrightarrow> cc = dd"
  unfolding country_of_cell_iff [symmetric] by auto

text \<open>C17: The two scripts share a vector. \<open>trip_chain.py\<close> reads the result that \<open>trip_example.py\<close> left in the directory
  and reports whether its own core result is the same bytes. On the built-in walk the answer is yes exactly when the
  country the earlier script wrote is the one in which Verifier A finds every whole cell, whatever the two maps.\<close>

theorem vector_shared:
  assumes "codec_ok K" "amsterdam_walk F H = Ok walk"
    and "example_main K E G50 cddl50 F H = Ok x" "xr_result x = Some e" "xe_cbor e \<noteq> []"
    and "chain_main K E G10 F H cddl strict None run (Some (xe_cbor e)) = Ok rep"
  shows "ch_same rep = Some (\<exists>cc. xe_country e = CText cc \<and> (\<forall>c \<in> set walk. lies_in G10 cc c))"
proof -
  let ?cs = "walk_crumbs K E walk"
  let ?core = "\<lambda>cc. CMap (core_map cc (claim_uuid ''trip-synthetic:'' ?cs))"
  obtain dd where e: "xe_country e = CText dd" "xe_cbor e = dumps K (?core dd)"
    using example_entry_core [OF assms(3,4,2)] by blast
  obtain cc nm r where r: "rep = chain_report_of K cddl strict None (Some (xe_cbor e)) ?cs r" "tr_result r = A_result False cc nm ?cs" "one_country G10 cc ?cs"
    using chain_result [OF assms(6,2)] by metis
  have same: "ch_same rep = Some (dumps K (?core dd) = dumps K (?core cc))"
    using assms(5) e(2) by (simp add: r(1,2) chain_report_of_def same_vector_def A_result_def Let_def)
  have len: "length walk = 64" by (rule amsterdam_length [OF assms(2)])
  note w = walk_window(1,4) [OF len, where K = K and E = E]
  have all: "lies_in G10 cc c" if "c \<in> set walk" for c
  proof -
    from that obtain j where j: "j < 64" "c = walk ! j" using len by (auto simp: in_set_conv_nth)
    then have "?cs ! j \<in> set ?cs" "cell (?cs ! j) = c" using w by simp_all
    then show ?thesis using r(3) by (auto simp: one_country_def)
  qed
  have "walk ! 0 \<in> set walk" using len by simp
  then have "(\<forall>c \<in> set walk. lies_in G10 dd c) \<longleftrightarrow> dd = cc" using all lies_in_one by metis
  then show ?thesis using same core_inj [OF assms(1), of dd _ cc] e(1) by auto
qed

section \<open>The report on the built-in walk\<close>

lemma walk_dates:
  assumes "length walk = 64"
  shows "date_ok (ts (hd (crumbs (evidence_of E (walk_crumbs K E walk)))))" "date_ok (ts (last (crumbs (evidence_of E (walk_crumbs K E walk)))))"
  by (simp_all add: evidence_of_def walk_ends [OF assms] T0_value date_ok_def)

lemma walk_result:
  assumes "sign_ok E" "ed_load_public E (ed_public E DEV_KEY) = Ok (ed_public E DEV_KEY)" "length walk = 64" "\<forall>c \<in> set walk. lies_in G cc c"
  obtains nm where "verifier_A K E G supplied (evidence_of E (walk_crumbs K E walk)) = Ok (Result (A_result supplied cc nm (walk_crumbs K E walk)))"
proof -
  let ?cs = "walk_crumbs K E walk"
  note w = walk_window(1,4) [OF assms(3), where K = K and E = E]
  have "one_country G cc ?cs"
    using assms(4) [unfolded all_set_conv_all_nth] assms(3) w by (auto simp: one_country_def in_set_conv_nth)
  moreover have "crumbs (evidence_of E ?cs) = ?cs" "fromhex (device_pub (evidence_of E ?cs)) = Ok (ed_public E DEV_KEY)"
    by (simp_all add: evidence_of_def)
  ultimately have "\<exists>r. verifier_A K E G supplied (evidence_of E ?cs) = Ok (Result r) \<and> gr_country r = cc"
    unfolding verifier_A_iff using walk_attested [OF assms(1,3)] assms(2) by metis
  then obtain r where r: "verifier_A K E G supplied (evidence_of E ?cs) = Ok (Result r)" "gr_country r = cc" by blast
  from r(1) [unfolded verifier_A_Result] obtain dd nm where d: "r = A_result supplied dd nm ?cs" by (auto simp: evidence_of_def)
  with r(2) have "dd = cc" by (simp add: A_result_fields)
  with r(1) d that show ?thesis by simp
qed

lemma chain_main_value:
  assumes "codec_ok K" "sign_ok E" "ed_load_public E (ed_public E DEV_KEY) = Ok (ed_public E DEV_KEY)"
    and "amsterdam_walk F H = Ok walk" "\<forall>c \<in> set walk. lies_in G cc c"
    and "rbind (json_loads run) nl_results = Ok nl"
    and "map_of nl ''SEV-SNP'' = Some p1" "geo_of K (CBytes p1) = Ok (g1, v1)" "tame g1"
    and "map_of nl ''Azure'' = Some p2" "geo_of K (CBytes p2) = Ok (g2, v2)" "tame g2"
  obtains r nm where "trip_run K E G False (evidence_of E (walk_crumbs K E walk)) (Ok nl) = Ok r"
    "tr_result r = A_result False cc nm (walk_crumbs K E walk)"
    "\<And>cddl strict prev. chain_main K E G F H cddl strict None run prev = Ok (chain_report_of K cddl strict None prev (walk_crumbs K E walk) r)"
proof -
  let ?cs = "walk_crumbs K E walk"
  let ?ev = "evidence_of E ?cs"
  have len: "length walk = 64" by (rule amsterdam_length [OF assms(4)])
  obtain nm where A: "verifier_A K E G False ?ev = Ok (Result (A_result False cc nm ?cs))"
    using walk_result [OF assms(2,3) len assms(5)] by blast
  obtain r where r: "trip_run K E G False ?ev (Ok nl) = Ok r" "tr_result r = A_result False cc nm ?cs"
    using trip_run_returns [OF assms(1,2) walk_dates [OF len, where K = K and E = E] A assms(7-12)] by blast
  have "crumbs ?ev = ?cs" by (simp add: evidence_of_def)
  then have "chain_main K E G F H cddl strict None run prev = Ok (chain_report_of K cddl strict None prev ?cs r)" for cddl strict prev
    using r(1) assms(4,6) by (simp add: chain_main_def chain_evidence_walk)
  with r that show ?thesis by blast
qed

text \<open>C18: The built-in walk, wherever it leads. When every whole cell of the walk lies in one country of the EU and the
  earlier run holds the two Dutch results, the script runs to its end and reports the country, a window of 63
  intervals of 15 minutes, and a table in which A's result and B's result with the reference are accepted, B's
  result without it is rejected by the strict policy alone and the forged one by both, unless the UUID of A is its
  own successor or the signature of the stranger's key fits.\<close>

theorem walk_reported:
  assumes "codec_ok K" "sign_ok E" "ed_load_public E (ed_public E DEV_KEY) = Ok (ed_public E DEV_KEY)"
    and "amsterdam_walk F H = Ok walk" "\<forall>c \<in> set walk. lies_in G cc c" "cc \<in> EU"
    and "rbind (json_loads run) nl_results = Ok nl"
    and "map_of nl ''SEV-SNP'' = Some p1" "geo_of K (CBytes p1) = Ok (g1, v1)" "tame g1"
    and "map_of nl ''Azure'' = Some p2" "geo_of K (CBytes p2) = Ok (g2, v2)" "tame g2"
  defines "u1 \<equiv> claim_uuid ''trip-synthetic:'' (walk_crumbs K E walk)"
  shows "\<exists>rep. chain_main K E G F H cddl strict None run prev = Ok rep
    \<and> ch_note rep = ''64/64 signatures verified; 64/64 whole cells inside '' @ cc \<and> ch_span rep = 63 * 900 \<and> ch_U1 rep = uuid_text u1
    \<and> (take 4 (map verdicts (ch_table rep)) = [(ACCEPT, ACCEPT), (ACCEPT, ACCEPT), (REJECT, ACCEPT), (REJECT, REJECT)]
      \<or> uuid5 UUID_NS (''hop2:'' @ hex u1) = u1
      \<or> forgery K E (CMap (A_map cc u1 T0 (T0 + 63 * 900))) (T0 + 63 * 900 + 60))"
proof -
  let ?ev = "evidence_of E (walk_crumbs K E walk)"
  have len: "length walk = 64" by (rule amsterdam_length [OF assms(4)])
  note ends = walk_ends [OF len, where K = K and E = E]
  obtain r nm where r: "trip_run K E G False ?ev (Ok nl) = Ok r" "tr_result r = A_result False cc nm (walk_crumbs K E walk)"
    "chain_main K E G F H cddl strict None run prev = Ok (chain_report_of K cddl strict None prev (walk_crumbs K E walk) r)"
    using chain_main_value [OF assms(1-5,7-13)] by metis
  have u: "gr_uuid (tr_result r) = u1" by (simp add: r(2) A_result_def u1_def Let_def)
  have f: "gr_uuid (tr_result r) = u1" "gr_country (tr_result r) = cc"
      "gr_ext (tr_result r) = CMap (A_map cc u1 T0 (T0 + 63 * 900))" "ts (last (crumbs ?ev)) = T0 + 63 * 900"
    using A_result_fields [of False cc nm "walk_crumbs K E walk", folded r(2), unfolded u walk_ends [OF len]] ends u
    by (simp_all add: evidence_of_def)
  have "gr_country (tr_result r) \<in> EU" using assms(6) f(2) by simp
  from relying_party_table_of [OF r(1) assms(1,2) walk_dates [OF len, where K = K and E = E] this, unfolded f]
  show ?thesis using f ends r(3) by (auto simp: chain_report_of_def Let_def)
qed

text \<open>An earlier run with two results for the United States.\<close>

definition demo_ear :: bytes where
  "demo_ear = dumps demo_codec (ear ''r'' (CMap [(CInt 0, CText ''US'')]) 0 ''s'')"

definition demo_run_json :: json where
  "demo_run_json = JList (map (\<lambda>f. JObj [(''country'', JStr ''NL''), (''family'', JStr f), (''ear_hex'', JStr (hex demo_ear))]) [''SEV-SNP'', ''Azure''])"

lemma demo_nl: "rbind (json_loads (json_dumps demo_run_json)) nl_results = Ok [(''SEV-SNP'', demo_ear), (''Azure'', demo_ear)]"
proof -
  have "json_loads (json_dumps demo_run_json) = Ok demo_run_json" by (rule json_loads_dumps) (simp add: demo_run_json_def)
  then show ?thesis
    by (simp add: demo_run_json_def nl_results_def run_rows_def jiter_def nl_entry_def jget_def jitem_def jstr_def dict_of_def map_filter_simps)
qed

lemma demo_ear_geo: "\<exists>g. geo_of demo_codec (CBytes demo_ear) = Ok (g, CText ''r'') \<and> tame g"
proof -
  let ?g = "CMap [(CInt 0, CText ''US'')]"
  have "plain ?g" by simp
  from geo_of_ear [OF demo_codec_ok this] show ?thesis by (simp add: demo_ear_def tame_def labels)
qed

lemma demo_lies_in: "\<forall>c \<in> set (replicate 64 ''n1''). lies_in two_lands ''NL'' c"
  by (auto simp: lies_in_def two_lands_def)

lemma NL_in_EU: "''NL'' \<in> EU"
  by (simp add: EU_def split_ws.simps is_space_def)

theorem walk_reported_witness:
  "\<exists>rep. chain_main demo_codec demo_ed two_lands demo_floats demo_h3 (\<lambda>_ _. True) [] None (json_dumps demo_run_json) None = Ok rep
    \<and> ch_note rep = ''64/64 signatures verified; 64/64 whole cells inside NL'' \<and> ch_span rep = 63 * 900"
proof -
  obtain g where g: "geo_of demo_codec (CBytes demo_ear) = Ok (g, CText ''r'')" "tame g" using demo_ear_geo by blast
  show ?thesis
    using walk_reported [OF demo_codec_ok demo_sign_ok demo_device demo_walks(1) demo_lies_in NL_in_EU demo_nl _ g _ g,
      where cddl = "\<lambda>_ _. True" and strict = "[]" and prev = None] by auto
qed

theorem vector_shared_witness:
  "\<exists>x e rep. example_main demo_codec demo_ed two_lands (\<lambda>_. (True, [])) demo_floats demo_h3 = Ok x \<and> xr_result x = Some e
    \<and> chain_main demo_codec demo_ed two_lands demo_floats demo_h3 (\<lambda>_ _. True) [] None (json_dumps demo_run_json) (Some (xe_cbor e)) = Ok rep
    \<and> ch_same rep = Some True"
proof -
  have ne: "dumps demo_codec (CMap m) \<noteq> []" for m by (simp add: demo_codec_def)
  note v = example_main_value [OF demo_example, where cddl = "\<lambda>_. (True, [])"]
  obtain x e where x: "example_main demo_codec demo_ed two_lands (\<lambda>_. (True, [])) demo_floats demo_h3 = Ok x" "xr_result x = Some e"
      "xe_country e = CText ''NL''" "xe_cbor e \<noteq> []"
    using that [OF v] ne by simp
  obtain g where g: "geo_of demo_codec (CBytes demo_ear) = Ok (g, CText ''r'')" "tame g" using demo_ear_geo by blast
  have s: "map_of [(''SEV-SNP'', demo_ear), (''Azure'', demo_ear)] ''SEV-SNP'' = Some demo_ear"
    "map_of [(''SEV-SNP'', demo_ear), (''Azure'', demo_ear)] ''Azure'' = Some demo_ear" by simp_all
  obtain rep where rep: "chain_main demo_codec demo_ed two_lands demo_floats demo_h3 (\<lambda>_ _. True) [] None (json_dumps demo_run_json) (Some (xe_cbor e)) = Ok rep"
    by (rule chain_main_value [OF demo_codec_ok demo_sign_ok demo_device demo_walks(1) demo_lies_in demo_nl s(1) g s(2) g]) blast
  from vector_shared [OF demo_codec_ok demo_walks(1) x(1,2,4) rep] demo_lies_in x(3) have "ch_same rep = Some True" by auto
  with x rep show ?thesis by blast
qed

section \<open>The two policies\<close>

text \<open>Whatever the evidence, the messages and the earlier run: no row of the table is judged better by the strict policy
  than by the lenient one.\<close>

lemma trip_run_table: "trip_run K E G supplied ev nl = Ok r \<Longrightarrow> \<exists>anchors store cs. rmap (rp_row K E anchors store) cs = Ok (tr_table r)"
  using trip_run_result [of K E G supplied ev nl r] unfolding trip_run_def Let_def
  by (auto simp: rbind_Inr_iff simp del: rmap.simps) (drule arg_cong [where f = tr_table], simp del: rmap.simps, blast)

lemma row_ordered: "rp_row K E anchors store c = Ok (n, s, l) \<Longrightarrow> fst s \<le> fst l"
  using row_verdicts [of K E anchors store "fst c" "snd c" n s l] grounded_states [of K E anchors store 5 "snd c"]
  by (cases "fst s") (auto simp: less_eq_verdict_def)

theorem strict_never_better:
  assumes "chain_main K E G F H cddl strict supplied run prev = Ok rep" "(n, s, l) \<in> set (ch_table rep)"
  shows "fst s \<le> fst l"
proof -
  from assms(1) obtain ev r where r: "trip_run K E G (supplied \<noteq> None) ev (rbind (json_loads run) nl_results) = Ok r" "ch_table rep = tr_table r"
    by (auto simp: chain_main_def chain_report_of_def Let_def res_iff)
  obtain anchors store cs where "rmap (rp_row K E anchors store) cs = Ok (tr_table r)"
    using trip_run_table [OF r(1)] by blast
  then obtain c where "rp_row K E anchors store c = Ok (n, s, l)" using assms(2) r(2) by (metis rmap_Ok_member)
  then show ?thesis by (rule row_ordered)
qed

section \<open>The set of a producer\<close>

text \<open>The window of cells and times, unsigned. A file of a producer has a list of texts and a list of values that
  Python's \<open>int\<close> reads as the times, among other keys.\<close>

definition supplied_window :: "string list \<Rightarrow> int list \<Rightarrow> crumb list" where
  "supplied_window cells moments = map (\<lambda>i. \<lparr>seq = int i, ts = moments ! i, cell = cells ! i, sig = []\<rparr>) [0..<64]"

lemma all_at_RES_True: "all_at_RES H (map JStr cells) = Ok True \<longleftrightarrow> (\<forall>c \<in> set cells. get_resolution H c = Ok 10)"
  by (induction cells) (auto simp: res_iff jstr_def RES_def)

lemma jint_dec: "jint fi (JNum (dec (int t))) = Ok (int t)"
proof -
  have "is_int_text (dec (int t))"
    using dec_nat_digits_only num_char_digit by (auto simp: is_int_text_def dec_def list_all_iff)
  then show ?thesis by (simp add: jint_def py_int_dec_nat)
qed

lemma rmap_Ok_nth: "rmap f xs = Ok ys \<Longrightarrow> i < length xs \<Longrightarrow> f (xs ! i) = Ok (ys ! i)"
  by (induction xs arbitrary: ys i) (auto simp: res_iff nth_Cons split: nat.split)

lemma supplied_crumbs_iff:
  assumes "json_loads text = Ok src" "jitem src ''h3_cells'' = Ok (JList (map JStr cells))"
    and "jitem src ''collection_times_unix_s'' = Ok (JList stamps)" "rmap (jint (f_int F)) stamps = Ok moments"
  shows "supplied_crumbs F H text = Ok cs \<longleftrightarrow>
     length cells = 64 \<and> length moments = 64 \<and> (\<forall>c \<in> set cells. get_resolution H c = Ok 10) \<and> cs = supplied_window cells moments"
proof -
  let ?c = "JList (map JStr cells)" and ?t = "JList stamps"
  have l: "length stamps = length moments" using rmap_Ok_length [OF assms(4)] by simp
  have w: "is_window H ?c ?t = Ok True \<longleftrightarrow> length cells = 64 \<and> length moments = 64 \<and> (\<forall>c \<in> set cells. get_resolution H c = Ok 10)"
    by (auto simp: is_window_def jlen_def jiter_def all_at_RES_True N_CELLS_def l)
  have one: "supplied_crumb (f_int F) ?c ?t i = Ok \<lparr>seq = int i, ts = moments ! i, cell = cells ! i, sig = []\<rparr>"
    if "i < 64" "length cells = 64" "length moments = 64" for i
    using that l rmap_Ok_nth [OF assms(4), of i] by (simp add: supplied_crumb_def jindex_def jstr_def)
  have all: "rmap (supplied_crumb (f_int F) ?c ?t) [0..<64] = Ok (supplied_window cells moments)"
    if "length cells = 64" "length moments = 64"
    unfolding supplied_window_def by (rule rmap_Ok_total) (use one that in auto)
  have j: "supplied_crumbs F H text =
      rbind (is_window H ?c ?t) (\<lambda>ok. rbind (rassert ok AssertionError) (\<lambda>_. rmap (supplied_crumb (f_int F) ?c ?t) [0..<64]))"
    using assms(1-3) by (simp add: supplied_crumbs_def N_CELLS_def)
  show ?thesis
  proof (cases "is_window H ?c ?t = Ok True")
    case True
    with w all show ?thesis unfolding j by auto
  next
    case False
    then have "rbind (is_window H ?c ?t) (\<lambda>ok. rbind (rassert ok AssertionError) f) \<noteq> Ok cs" for f by (auto simp: res_iff)
    with w False show ?thesis unfolding j by blast
  qed
qed

lemma signed_attested:
  assumes "sign_ok E"
  shows "attested_window K E (ed_public E DEV_KEY) (map (sign_crumb K E) cs) \<longleftrightarrow> length cs = 64
    \<and> (\<forall>i. Suc i < length cs \<longrightarrow> ts (cs ! i) + 900 \<le> ts (cs ! Suc i))"
  using assms by (auto simp: attested_window_def sign_ok_def)

text \<open>C4: The set of a producer reaches a result exactly when it should. Whatever else the file holds, Verifier A, given
  what the script makes of it, names the country \<open>cc\<close> if and only if the file holds 64 cells of resolution 10 and 64
  times, the times, as Python reads them, are at least 15 minutes apart, and every whole cell lies in \<open>cc\<close>. The
  script signs the crumbs itself, so the signatures of a supplied set never decide anything.\<close>

theorem supplied_set_accepted_iff:
  assumes "sign_ok E" "ed_load_public E (ed_public E DEV_KEY) = Ok (ed_public E DEV_KEY)"
    and "json_loads text = Ok src" "jitem src ''h3_cells'' = Ok (JList (map JStr cells))"
    and "jitem src ''collection_times_unix_s'' = Ok (JList stamps)" "rmap (jint (f_int F)) stamps = Ok moments"
  shows "(\<exists>ev r. chain_evidence K E F H (Some text) = Ok ev
      \<and> verifier_A K E G True ev = Ok (Result r) \<and> gr_country r = cc) \<longleftrightarrow>
    length cells = 64 \<and> length moments = 64 \<and> (\<forall>c \<in> set cells. get_resolution H c = Ok 10)
      \<and> (\<forall>i < 63. moments ! i + 900 \<le> moments ! Suc i) \<and> (\<forall>c \<in> set cells. lies_in G cc c)"
proof -
  let ?w = "supplied_window cells moments"
  let ?ev = "evidence_of E (map (sign_crumb K E) ?w)"
  let ?good = "length cells = 64 \<and> length moments = 64 \<and> (\<forall>c \<in> set cells. get_resolution H c = Ok 10)"
  have a: "chain_evidence K E F H (Some text) = Ok ev \<longleftrightarrow> ?good \<and> ev = ?ev" for ev
    using supplied_crumbs_iff [OF assms(3-6)] by (auto simp: chain_evidence_def chain_crumbs_def res_iff)
  have b: "(\<exists>r. verifier_A K E G True ?ev = Ok (Result r) \<and> gr_country r = cc) \<longleftrightarrow>
      attested_window K E (ed_public E DEV_KEY) (map (sign_crumb K E) ?w) \<and> one_country G cc (map (sign_crumb K E) ?w)"
    unfolding verifier_A_iff using assms(2) by (simp add: evidence_of_def)
  have c: "attested_window K E (ed_public E DEV_KEY) (map (sign_crumb K E) ?w) \<longleftrightarrow> (\<forall>i < 63. moments ! i + 900 \<le> moments ! Suc i)"
    unfolding signed_attested [OF assms(1)] by (auto simp: supplied_window_def)
  have d: "one_country G cc (map (sign_crumb K E) ?w) \<longleftrightarrow> (\<forall>c \<in> set cells. lies_in G cc c)" if "length cells = 64"
    using that by (auto simp: one_country_def supplied_window_def all_set_conv_all_nth)
  show ?thesis unfolding a using b c d by blast
qed

text \<open>A file with a note, and the first time written as a text.\<close>

definition demo_supplied :: json where
  "demo_supplied = JObj [(''note'', JStr ''synthetic''), (''h3_cells'', JList (map JStr (replicate 64 ''n1''))),
     (''collection_times_unix_s'', JList (JStr ''0'' # map (\<lambda>i. JNum (dec (int (900 * i)))) [1..<64]))]"

theorem supplied_set_accepted_iff_witness:
  "\<exists>ev r. chain_evidence demo_codec demo_ed demo_floats demo_h3 (Some (json_dumps demo_supplied)) = Ok ev
    \<and> verifier_A demo_codec demo_ed two_lands True ev = Ok (Result r) \<and> gr_country r = ''NL''"
proof -
  have j: "json_loads (json_dumps demo_supplied) = Ok demo_supplied"
    by (rule json_loads_dumps) (simp add: demo_supplied_def json_ok_nat del: json_ok.simps(1) of_nat_mult)
  let ?st = "JStr ''0'' # map (\<lambda>i. JNum (dec (int (900 * i)))) [1..<64]"
  have z: "dec (int 0) = ''0''" by (simp add: dec_def dec_nat.simps)
  have "jint (f_int demo_floats) (JStr ''0'') = Ok 0" using py_int_dec_nat [of 0] z by (simp add: jint_def)
  moreover have "rmap (jint (f_int demo_floats)) (map (\<lambda>i. JNum (dec (int (900 * i)))) [1..<64]) = Ok (map (\<lambda>i. int (900 * i)) [1..<64])"
    unfolding rmap_map by (rule rmap_Ok_total) (rule jint_dec)
  ultimately have t: "rmap (jint (f_int demo_floats)) ?st = Ok (0 # map (\<lambda>i. int (900 * i)) [1..<64])"
    by (simp del: of_nat_mult)
  have i: "jitem demo_supplied ''h3_cells'' = Ok (JList (map JStr (replicate 64 ''n1'')))"
    "jitem demo_supplied ''collection_times_unix_s'' = Ok (JList ?st)" by (simp_all add: demo_supplied_def jitem_def)
  have m: "(0 # map (\<lambda>i. int (900 * i)) [1..<64]) = map (\<lambda>i. int (900 * i)) [0..<64]" by (simp add: upt_conv_Cons)
  show ?thesis
    by (subst supplied_set_accepted_iff [OF demo_sign_ok demo_device j i t], unfold m) (use demo_lies_in in \<open>simp add: demo_h3_def\<close>)
qed

end
