(* ===== verification/DualVerify.thy ===== *)
theory DualVerify
  imports EarlyAttest Json "HOL-Library.Sublist"
begin

text \<open>
  The run verifier of \<open>aws-vlek/dual_verify.py\<close>: for every report of a run, the certificate that
  verifies its signature (one of the host's, else the VCEK the KDS issues for its CHIP_ID and TCB),
  that certificate's chain, and the bindings the probe constructed. Two dictionaries keep what the KDS
  answered, a failed request included; they are threaded through the loop, with a log of the requests
  made. What the KDS answers may change from request to request. The theorems say that no request is made
  twice, that its first answer decides every row, and what a row with a verified chain means.
\<close>

section \<open>Lookup tables\<close>

text \<open>\<open>if k not in cache: cache[k] = compute(k)\<close> and then \<open>cache[k]\<close>, over any table with \<open>look\<close>
  and \<open>put\<close>; the flag says whether the value was computed.\<close>

definition cached :: "('m \<Rightarrow> 'k \<Rightarrow> 'v option) \<Rightarrow> ('k \<Rightarrow> 'v \<Rightarrow> 'm \<Rightarrow> 'm) \<Rightarrow> ('k \<Rightarrow> 'v) \<Rightarrow> 'm \<Rightarrow> 'k \<Rightarrow> 'v \<times> 'm \<times> bool" where
  "cached look put compute m k = (case look m k of Some v \<Rightarrow> (v, m, False)
     | None \<Rightarrow> (compute k, put k (compute k) m, True))"

definition table_ok :: "('m \<Rightarrow> 'k \<Rightarrow> 'v option) \<Rightarrow> ('k \<Rightarrow> 'v) \<Rightarrow> 'm \<Rightarrow> bool" where
  "table_ok look compute m \<longleftrightarrow> (\<forall>k v. look m k = Some v \<longrightarrow> v = compute k)"

locale lookup_table =
  fixes empty :: 'm
    and look :: "'m \<Rightarrow> 'k \<Rightarrow> 'v option"
    and put :: "'k \<Rightarrow> 'v \<Rightarrow> 'm \<Rightarrow> 'm"
  assumes look_empty: "look empty k = None"
    and look_put: "look (put k v m) k' = (if k' = k then Some v else look m k')"
begin

lemma empty_ok: "table_ok look compute empty"
  by (simp add: table_ok_def look_empty)

lemma cached_value: "table_ok look compute m \<Longrightarrow> fst (cached look put compute m k) = compute k"
  by (auto simp: cached_def table_ok_def split: option.splits)

lemma cached_ok: "table_ok look compute m \<Longrightarrow> table_ok look compute (fst (snd (cached look put compute m k)))"
  by (auto simp: cached_def table_ok_def look_put split: option.splits)

text \<open>A known key is not computed again, a new one is computed once and known afterwards.\<close>

lemma hit: "look m k = Some v \<Longrightarrow> cached look put compute m k = (v, m, False)"
  by (simp add: cached_def)

lemma miss: "look m k = None \<Longrightarrow> cached look put compute m k = (compute k, put k (compute k) m, True)"
  by (simp add: cached_def)

end

interpretation dict: lookup_table "[]" map_of AList.update
  by unfold_locales (simp_all add: update_conv')

section \<open>The files of a run\<close>

text \<open>File contents, \<open>None\<close> when absent. \<open>host_bins\<close> and \<open>host_pems\<close> are the matches of
  \<open>cert-*.bin\<close> and \<open>certs/*.pem\<close> in directory order, by the name between prefix and suffix;
  \<open>report_files\<close> those of \<open>report-*.bin\<close>, sorted.\<close>

record run_dir =
  rd_name :: string
  rd_metadata :: "string option"
  rd_sentence :: "string option"
  host_bins :: "(string \<times> bytes) list"
  host_pems :: "(string \<times> bytes) list"
  report_files :: "(string \<times> bytes) list"
  eph_pub :: "bytes option"
  eph_sig :: "bytes option"
  dual_results :: "json option"
  keysel_results :: "json option"

definition upper_char :: "char \<Rightarrow> char" where
  "upper_char c = (let n = (of_char c :: nat) in if 97 \<le> n \<and> n \<le> 122 then char_of (n - 32) else c)"

text \<open>The loading loops: a file that does not load is skipped, a name seen twice keeps its place.\<close>

definition load_all :: "'c pki \<Rightarrow> (string \<times> bytes) list \<Rightarrow> (string \<times> 'c) list \<Rightarrow> (string \<times> 'c) list" where
  "load_all P files d = foldl (\<lambda>d (n, b). case load_cert P b of Inr c \<Rightarrow> AList.update n c d | Inl _ \<Rightarrow> d) d files"

definition host_certs :: "'c pki \<Rightarrow> run_dir \<Rightarrow> (string \<times> 'c) list" where
  "host_certs P d = load_all P (map (\<lambda>(n, b). (map upper_char n, b)) (host_pems d)) (load_all P (host_bins d) [])"

section \<open>The caches\<close>

text \<open>The KDS over time: \<open>net n\<close> is what an HTTPS request is answered with when \<open>n\<close> requests were made before
  it, so a request that fails once may succeed when it is made again.\<close>

type_synonym network = "nat \<Rightarrow> fetch"

type_synonym vcek_key = "string \<times> string \<times> tcb"

datatype request = ChainRequest string string | VcekRequest vcek_key

record 'c caches =
  chains :: "((string \<times> string) \<times> 'c list option) list"
  kds_cache :: "(vcek_key \<times> 'c option) list"
  requests :: "request list"

definition no_caches :: "'c caches" where
  "no_caches = \<lparr>chains = [], kds_cache = [], requests = []\<rparr>"

definition drop_error :: "'a res \<Rightarrow> 'a option" where
  "drop_error r = (case r of Inl _ \<Rightarrow> None | Inr x \<Rightarrow> Some x)"

definition fetch_chain_of :: "'c pki \<Rightarrow> fetch \<Rightarrow> string \<times> string \<Rightarrow> 'c list option" where
  "fetch_chain_of P get k = drop_error (rbind (get (chain_url (fst k) (snd k))) (load_pem_chain P))"

definition fetch_vcek :: "'c pki \<Rightarrow> fetch \<Rightarrow> vcek_key \<Rightarrow> 'c res" where
  "fetch_vcek P get k = (case k of (pr, chip, t) \<Rightarrow> rbind (get (vcek_url pr chip t)) (load_cert P))"

definition chain_for :: "'c pki \<Rightarrow> network \<Rightarrow> string \<Rightarrow> string \<Rightarrow> 'c caches \<Rightarrow> 'c list option \<times> 'c caches" where
  "chain_for P net kind pr s = (case cached map_of AList.update (fetch_chain_of P (net (length (requests s)))) (chains s) (kind, pr) of
     (v, m, new) \<Rightarrow> (v, s\<lparr>chains := m, requests := requests s @ (if new then [ChainRequest kind pr] else [])\<rparr>))"

definition vcek_for :: "'c pki \<Rightarrow> network \<Rightarrow> vcek_key \<Rightarrow> 'c caches \<Rightarrow> 'c option \<times> pyerr option \<times> 'c caches" where
  "vcek_for P net k s = (case cached map_of AList.update (\<lambda>k. drop_error (fetch_vcek P (net (length (requests s))) k)) (kds_cache s) k of
     (v, m, new) \<Rightarrow> (v, if new then (case fetch_vcek P (net (length (requests s))) k of Inl e \<Rightarrow> Some e | Inr _ \<Rightarrow> None) else None,
       s\<lparr>kds_cache := m, requests := requests s @ (if new then [VcekRequest k] else [])\<rparr>))"

section \<open>One report\<close>

text \<open>\<open>lc_csp\<close> holds the bytes that are decoded for printing.\<close>

record leaf_check =
  lc_chain_ok :: "bool option"
  lc_chain :: "string list option"
  lc_csp :: "bytes option"
  lc_hwid :: "bool option"

record report_row =
  rr_signing_key :: signing_key
  rr_product :: string
  rr_version :: int
  rr_chip_zero :: bool
  rr_chip_prefix :: string
  rr_report_id :: string
  rr_is_nonce :: bool
  rr_kds_error :: "pyerr option"
  rr_verified_by :: "string option"
  rr_leaf :: "leaf_check option"

definition leaf_for :: "'c pki \<Rightarrow> network \<Rightarrow> (string \<times> 'c) list \<Rightarrow> bytes \<Rightarrow> dual_report \<Rightarrow> 'c caches
    \<Rightarrow> (string \<times> 'c) option \<times> pyerr option \<times> 'c caches" where
  "leaf_for P net hosts rep f s = (case List.find (\<lambda>(label, c). sig_ok P rep c) hosts of
     Some (label, c) \<Rightarrow> (Some (''host:'' @ label, c), None, s)
   | None \<Rightarrow> if chip_id_zero f then (None, None, s)
     else (case vcek_for P net (product_name f, chip_id f, tcb f) s of
       (Some c, err, s') \<Rightarrow> (if sig_ok P rep c then Some (''kds:VCEK'', c) else None, err, s')
     | (None, err, s') \<Rightarrow> (None, err, s')))"

definition check_leaf :: "'c pki \<Rightarrow> network \<Rightarrow> dual_report \<Rightarrow> 'c \<Rightarrow> 'c caches \<Rightarrow> leaf_check \<times> 'c caches" where
  "check_leaf P net f leaf s =
     (case chain_for P net (if signing_key f = VLEK then ''vlek'' else ''vcek'') (product_name f) s of (ch, s') \<Rightarrow>
     (\<lparr>lc_chain_ok = (case ch of Some (x # xs) \<Rightarrow> Some (chain_ok P leaf (x # xs)) | _ \<Rightarrow> None),
       lc_chain = (case ch of Some (x # xs) \<Rightarrow> Some (map (\<lambda>c. takeWhile (\<lambda>z. z \<noteq> CHR '','') (subject P c)) (leaf # x # xs)) | _ \<Rightarrow> None),
       lc_csp = map_option (drop 2) (ext_value P leaf CSP_OID),
       lc_hwid = hwid_equals P leaf (chip_id f)\<rparr>, s'))"

definition check_report :: "'c pki \<Rightarrow> network \<Rightarrow> bytes \<Rightarrow> (string \<times> 'c) list \<Rightarrow> bytes \<Rightarrow> 'c caches \<Rightarrow> (report_row \<times> 'c caches) res" where
  "check_report P net N hosts rep s = rbind (parse rep) (\<lambda>f.
     case leaf_for P net hosts rep f s of (leaf, err, s1) \<Rightarrow>
     case (case leaf of None \<Rightarrow> (None, s1) | Some (by, c) \<Rightarrow> (case check_leaf P net f c s1 of (l, s2) \<Rightarrow> (Some l, s2))) of (lc, s2) \<Rightarrow>
     Ok (\<lparr>rr_signing_key = signing_key f, rr_product = product_name f, rr_version = version f,
          rr_chip_zero = chip_id_zero f, rr_chip_prefix = take 16 (chip_id f), rr_report_id = take 16 (report_id f),
          rr_is_nonce = (report_data f = hex N), rr_kds_error = err, rr_verified_by = map_option fst leaf, rr_leaf = lc\<rparr>, s2))"

section \<open>One run, and the main loop\<close>

record chained_pair =
  ch_sha512 :: bool
  ch_report_id :: bool
  ch_measurement :: bool
  ch_keys :: "signing_key \<times> signing_key"

record channel_binding =
  cb_report_data :: bool
  cb_signature :: bool

record run_row =
  ro_run :: string
  ro_cloud :: string
  ro_instance :: "string option"
  ro_zone :: "string option"
  ro_host_certs :: "string list"
  ro_reports :: "(string \<times> report_row) list"
  ro_chained :: "chained_pair option"
  ro_cb :: "channel_binding option"
  ro_firmware :: "json option"
  ro_ext_report :: "json option"

text \<open>\<open>a or b\<close> on two dictionary lookups: an empty string is false.\<close>

definition or_get :: "string option \<Rightarrow> string option \<Rightarrow> string option" where
  "or_get a b = (case a of Some (x # xs) \<Rightarrow> a | _ \<Rightarrow> b)"

definition check_chained :: "(string \<times> bytes) list \<Rightarrow> chained_pair option res" where
  "check_chained reps = (case (map_of reps ''chA'', map_of reps ''chB'') of
     (Some a, Some b) \<Rightarrow> rbind (parse b) (\<lambda>fb. rbind (parse a) (\<lambda>fa.
       Ok (Some \<lparr>ch_sha512 = (report_data fb = hex (sha512 a)), ch_report_id = (report_id fa = report_id fb),
         ch_measurement = (measurement fa = measurement fb), ch_keys = (signing_key fa, signing_key fb)\<rparr>)))
   | _ \<Rightarrow> Ok None)"

text \<open>\<open>eph_ok spki sig m\<close>: the ephemeral key loads and its signature verifies.\<close>

definition check_cb :: "(bytes \<Rightarrow> bytes \<Rightarrow> bytes \<Rightarrow> bool) \<Rightarrow> bytes \<Rightarrow> run_dir \<Rightarrow> (string \<times> bytes) list \<Rightarrow> channel_binding option res" where
  "check_cb eph_ok N d reps = (case (map_of reps ''cb'', eph_pub d) of
     (Some c, Some spki) \<Rightarrow> rbind (parse c) (\<lambda>f.
       Ok (Some \<lparr>cb_report_data = (report_data f = hex (sha512 (N @ spki))),
         cb_signature = eph_ok spki (case eph_sig d of None \<Rightarrow> [] | Some s \<Rightarrow> s) N\<rparr>))
   | _ \<Rightarrow> Ok None)"

definition pick :: "string list \<Rightarrow> (string \<times> json) list \<Rightarrow> json" where
  "pick ks v = JObj (map (\<lambda>k. (k, case map_of v k of None \<Rightarrow> JNull | Some x \<Rightarrow> x)) ks)"

text \<open>\<open>dual-results.json\<close>: the entries that are dictionaries with a \<open>key_sel\<close>.\<close>

definition firmware_dual :: "json \<Rightarrow> (json \<times> json) res" where
  "firmware_dual dr = (case dr of
     JObj m \<Rightarrow> Ok (JObj (concat (map (\<lambda>(k, v). case v of
         JObj o' \<Rightarrow> if ''key_sel'' \<in> fst ` set o' then [(k, pick [''ok'', ''ioctl_error'', ''exitinfo2'', ''fw_status''] o')] else []
       | _ \<Rightarrow> []) m)),
       case map_of m ''ext_report'' of None \<Rightarrow> JNull | Some x \<Rightarrow> x)
   | _ \<Rightarrow> Err AttributeError)"

text \<open>\<open>keysel-results.json\<close>: a list of dictionaries with a \<open>label\<close>; the label is a dictionary
  key, as JSON prints it.\<close>

definition json_key :: "json \<Rightarrow> string res" where
  "json_key v = (case v of JStr s \<Rightarrow> Ok s | JNum t \<Rightarrow> Ok t | JBool b \<Rightarrow> Ok (if b then ''true'' else ''false'')
     | JNull \<Rightarrow> Ok ''null'' | _ \<Rightarrow> Err TypeError)"

fun firmware_keysel :: "json list \<Rightarrow> (string \<times> json) list \<Rightarrow> (string \<times> json) list res" where
  "firmware_keysel [] d = Ok d"
| "firmware_keysel (JObj o' # rs) d = (case map_of o' ''label'' of
     Some l \<Rightarrow> rbind (json_key l) (\<lambda>k. firmware_keysel rs
       (AList.update k (pick [''ok'', ''ioctl_error'', ''exitinfo2'', ''fw_status'', ''signing_key''] o') d))
   | None \<Rightarrow> Err (KeyError ''label''))"
| "firmware_keysel (_ # rs) d = Err TypeError"

definition firmware :: "run_dir \<Rightarrow> (json option \<times> json option) res" where
  "firmware d =
     rbind (case dual_results d of None \<Rightarrow> Ok (None, None) | Some dr \<Rightarrow> rbind (firmware_dual dr) (\<lambda>(f, e). Ok (Some f, Some e))) (\<lambda>(f, e).
     case keysel_results d of None \<Rightarrow> Ok (f, e)
     | Some (JList rs) \<Rightarrow> rbind (firmware_keysel rs []) (\<lambda>m. Ok (Some (JObj m), e))
     | Some (JObj []) \<Rightarrow> Ok (Some (JObj []), e)
     | Some (JStr []) \<Rightarrow> Ok (Some (JObj []), e)
     | Some _ \<Rightarrow> Err TypeError)"

fun check_reports :: "'c pki \<Rightarrow> network \<Rightarrow> bytes \<Rightarrow> (string \<times> 'c) list \<Rightarrow> (string \<times> bytes) list \<Rightarrow> 'c caches
    \<Rightarrow> ((string \<times> report_row) list \<times> 'c caches) res" where
  "check_reports P net N hosts [] s = Ok ([], s)"
| "check_reports P net N hosts ((n, rep) # reps) s = rbind (check_report P net N hosts rep s) (\<lambda>(row, s1).
     rbind (check_reports P net N hosts reps s1) (\<lambda>(rows, s2). Ok ((n, row) # rows, s2)))"

definition check_run :: "'c pki \<Rightarrow> network \<Rightarrow> (bytes \<Rightarrow> bytes \<Rightarrow> bytes \<Rightarrow> bool) \<Rightarrow> run_dir \<Rightarrow> 'c caches \<Rightarrow> (run_row \<times> 'c caches) res" where
  "check_run P net eph_ok d s =
     rbind (of_option FileNotFoundError (rd_metadata d)) (\<lambda>text.
     let mt = key_values (split_ws text) in
     rbind (of_option FileNotFoundError (rd_sentence d)) (\<lambda>sent.
     let N = sha512 (utf8 sent); hosts = host_certs P d; reps = map (\<lambda>(n, b). (n, take 1184 b)) (report_files d) in
     rbind (check_reports P net N hosts reps s) (\<lambda>(rows, s').
     rbind (check_chained reps) (\<lambda>ch. rbind (check_cb eph_ok N d reps) (\<lambda>cb. rbind (firmware d) (\<lambda>(fw, ext).
     Ok (\<lparr>ro_run = rd_name d, ro_cloud = (case map_of mt ''cloud'' of None \<Rightarrow> ''aws'' | Some c \<Rightarrow> c),
          ro_instance = or_get (map_of mt ''instance'') (map_of mt ''instance-id''),
          ro_zone = or_get (map_of mt ''zone'') (map_of mt ''az''), ro_host_certs = sort (map fst hosts),
          ro_reports = rows, ro_chained = ch, ro_cb = cb, ro_firmware = fw, ro_ext_report = ext\<rparr>, s')))))))"

text \<open>Directories without a report are skipped.\<close>

fun dual_main :: "'c pki \<Rightarrow> network \<Rightarrow> (bytes \<Rightarrow> bytes \<Rightarrow> bytes \<Rightarrow> bool) \<Rightarrow> run_dir list \<Rightarrow> 'c caches \<Rightarrow> (run_row list \<times> 'c caches) res" where
  "dual_main P net eph_ok [] s = Ok ([], s)"
| "dual_main P net eph_ok (d # ds) s = (if report_files d = [] then dual_main P net eph_ok ds s
     else rbind (check_run P net eph_ok d s) (\<lambda>(row, s1). rbind (dual_main P net eph_ok ds s1) (\<lambda>(rows, s2). Ok (row # rows, s2))))"

section \<open>The caches hold the first answers\<close>

text \<open>The answer to a chain request and to a VCEK request made as number \<open>i\<close>; \<open>None\<close> when it failed.\<close>

abbreviation chain_answer :: "'c pki \<Rightarrow> network \<Rightarrow> nat \<Rightarrow> string \<times> string \<Rightarrow> 'c list option" where
  "chain_answer P net i k \<equiv> fetch_chain_of P (net i) k"

abbreviation vcek_answer :: "'c pki \<Rightarrow> network \<Rightarrow> nat \<Rightarrow> vcek_key \<Rightarrow> 'c option" where
  "vcek_answer P net i k \<equiv> drop_error (fetch_vcek P (net i) k)"

text \<open>An entry of a dictionary is the answer to the one request with its key.\<close>

definition caches_ok :: "'c pki \<Rightarrow> network \<Rightarrow> 'c caches \<Rightarrow> bool" where
  "caches_ok P net s \<longleftrightarrow> distinct (requests s)
     \<and> (\<forall>k v. map_of (chains s) k = Some v \<longleftrightarrow>
         (\<exists>i < length (requests s). requests s ! i = ChainRequest (fst k) (snd k) \<and> v = chain_answer P net i k))
     \<and> (\<forall>k v. map_of (kds_cache s) k = Some v \<longleftrightarrow>
         (\<exists>i < length (requests s). requests s ! i = VcekRequest k \<and> v = vcek_answer P net i k))"

lemma caches_okD:
  assumes "caches_ok P net s"
  shows "distinct (requests s)"
    and "map_of (chains s) k = Some v \<longleftrightarrow>
         (\<exists>i < length (requests s). requests s ! i = ChainRequest (fst k) (snd k) \<and> v = chain_answer P net i k)"
    and "map_of (kds_cache s) k' = Some v' \<longleftrightarrow>
         (\<exists>i < length (requests s). requests s ! i = VcekRequest k' \<and> v' = vcek_answer P net i k')"
  using assms unfolding caches_ok_def by blast+

lemma caches_okI:
  assumes "distinct (requests s)"
    and "\<And>k v. map_of (chains s) k = Some v \<longleftrightarrow>
         (\<exists>i < length (requests s). requests s ! i = ChainRequest (fst k) (snd k) \<and> v = chain_answer P net i k)"
    and "\<And>k v. map_of (kds_cache s) k = Some v \<longleftrightarrow>
         (\<exists>i < length (requests s). requests s ! i = VcekRequest k \<and> v = vcek_answer P net i k)"
  shows "caches_ok P net s"
  unfolding caches_ok_def using assms by blast

text \<open>The errors of the failed VCEK requests, in order.\<close>

definition failure :: "'c pki \<Rightarrow> network \<Rightarrow> nat \<times> request \<Rightarrow> pyerr list" where
  "failure P net p = (case p of (i, VcekRequest k) \<Rightarrow> (case fetch_vcek P (net i) k of Inl e \<Rightarrow> [e] | Inr _ \<Rightarrow> []) | _ \<Rightarrow> [])"

definition failures :: "'c pki \<Rightarrow> network \<Rightarrow> request list \<Rightarrow> pyerr list" where
  "failures P net rs = concat (map (failure P net) (List.enumerate 0 rs))"

lemma failures_snoc: "failures P net (rs @ [r]) = failures P net rs @ failure P net (length rs, r)"
  by (simp add: failures_def enumerate_append_eq)

text \<open>From one state of the caches to a later one, with the errors noted in between.\<close>

definition later :: "'c pki \<Rightarrow> network \<Rightarrow> 'c caches \<Rightarrow> pyerr list \<Rightarrow> 'c caches \<Rightarrow> bool" where
  "later P net s es s' \<longleftrightarrow> caches_ok P net s' \<and> prefix (requests s) (requests s')
     \<and> failures P net (requests s') = failures P net (requests s) @ es"

lemma later_refl: "caches_ok P net s \<Longrightarrow> later P net s [] s"
  by (simp add: later_def)

lemma later_trans: "later P net s es t \<Longrightarrow> later P net t es' u \<Longrightarrow> later P net s (es @ es') u"
  unfolding later_def by (auto intro: prefix_order.trans)

lemma later_ok: "later P net s es t \<Longrightarrow> caches_ok P net t"
  by (simp add: later_def)

lemma no_caches_ok: "caches_ok P net no_caches"
  by (simp add: caches_ok_def no_caches_def)

lemma ex_less_append:
  "(\<exists>i < length (xs @ [x]). (xs @ [x]) ! i = y \<and> P i) \<longleftrightarrow> (\<exists>i < length xs. xs ! i = y \<and> P i) \<or> x = y \<and> P (length xs)"
proof -
  have "(\<exists>i < length (xs @ [x]). (xs @ [x]) ! i = y \<and> P i) \<longleftrightarrow> (\<exists>i < length xs. (xs @ [x]) ! i = y \<and> P i) \<or> x = y \<and> P (length xs)"
    by (simp add: Ex_less_Suc2 less_Suc_eq ex_disj_distrib conj_disj_distribR del: Ex_less_Suc2)
  moreover have "(\<exists>i < length xs. (xs @ [x]) ! i = y \<and> P i) \<longleftrightarrow> (\<exists>i < length xs. xs ! i = y \<and> P i)"
    by (rule ex_cong) (simp add: nth_append)
  ultimately show ?thesis by simp
qed

text \<open>\<open>chain_for\<close> and the VCEK lookup: either the key is known, or one request is made and kept.\<close>

lemma chain_for_cases:
  assumes "caches_ok P net s" "chain_for P net kind pr s = (v, s')"
  shows "later P net s [] s' \<and> map_of (chains s') (kind, pr) = Some v"
proof (cases "map_of (chains s) (kind, pr)")
  case (Some w)
  with assms show ?thesis by (auto simp: chain_for_def dict.hit later_def)
next
  case None
  let ?r = "ChainRequest kind pr" and ?v = "chain_answer P net (length (requests s)) (kind, pr)"
  have s': "v = ?v" "s' = s\<lparr>chains := AList.update (kind, pr) ?v (chains s), requests := requests s @ [?r]\<rparr>"
    using assms(2) dict.miss [OF None] by (auto simp: chain_for_def)
  note ok = caches_okD [OF assms(1)]
  have old: "\<not> (requests s ! i = ?r)" if "i < length (requests s)" for i
  proof
    assume "requests s ! i = ?r"
    with that have "map_of (chains s) (kind, pr) = Some (chain_answer P net i (kind, pr))" by (subst ok(2)) auto
    with None show False by simp
  qed
  then have fresh: "?r \<notin> set (requests s)" by (metis in_set_conv_nth)
  have "caches_ok P net s'"
  proof (rule caches_okI)
    show "map_of (chains s') k = Some w \<longleftrightarrow>
       (\<exists>i < length (requests s'). requests s' ! i = ChainRequest (fst k) (snd k) \<and> w = chain_answer P net i k)" for k w
      using ok(2) [of k w] old by (cases k) (auto simp: s' dict.look_put ex_less_append simp del: length_append)
    show "map_of (kds_cache s') k = Some w \<longleftrightarrow>
       (\<exists>i < length (requests s'). requests s' ! i = VcekRequest k \<and> w = vcek_answer P net i k)" for k w
      using ok(3) [of k w] by (simp add: s'(2) ex_less_append del: length_append)
  qed (use ok(1) fresh in \<open>simp add: s'(2)\<close>)
  then show ?thesis by (simp add: later_def s' dict.look_put failures_snoc failure_def)
qed

lemma vcek_for_cases:
  assumes "caches_ok P net s" "vcek_for P net k s = (v, err, s')"
  shows "later P net s (case err of None \<Rightarrow> [] | Some e \<Rightarrow> [e]) s' \<and> map_of (kds_cache s') k = Some v"
proof (cases "map_of (kds_cache s) k")
  case (Some w)
  with assms show ?thesis by (auto simp: vcek_for_def dict.hit later_def)
next
  case None
  let ?r = "VcekRequest k" and ?v = "vcek_answer P net (length (requests s)) k"
  have s': "v = ?v" "s' = s\<lparr>kds_cache := AList.update k ?v (kds_cache s), requests := requests s @ [?r]\<rparr>"
    and err: "err = (case fetch_vcek P (net (length (requests s))) k of Inl e \<Rightarrow> Some e | Inr _ \<Rightarrow> None)"
    using assms(2) dict.miss [OF None] by (auto simp: vcek_for_def)
  note ok = caches_okD [OF assms(1)]
  have old: "\<not> (requests s ! i = ?r)" if "i < length (requests s)" for i
  proof
    assume "requests s ! i = ?r"
    with that have "map_of (kds_cache s) k = Some (vcek_answer P net i k)" by (subst ok(3)) auto
    with None show False by simp
  qed
  then have fresh: "?r \<notin> set (requests s)" by (metis in_set_conv_nth)
  have "caches_ok P net s'"
  proof (rule caches_okI)
    show "map_of (kds_cache s') k' = Some w \<longleftrightarrow>
       (\<exists>i < length (requests s'). requests s' ! i = VcekRequest k' \<and> w = vcek_answer P net i k')" for k' w
      using ok(3) [of k' w] old by (auto simp: s' dict.look_put ex_less_append simp del: length_append)
    show "map_of (chains s') k' = Some w \<longleftrightarrow>
       (\<exists>i < length (requests s'). requests s' ! i = ChainRequest (fst k') (snd k') \<and> w = chain_answer P net i k')" for k' w
      using ok(2) [of k' w] by (simp add: s'(2) ex_less_append del: length_append)
  qed (use ok(1) fresh in \<open>simp add: s'(2)\<close>)
  then show ?thesis by (simp add: later_def s' err dict.look_put failures_snoc failure_def split: sum.splits)
qed

section \<open>The rows judged with given answers\<close>

text \<open>Answers to the requests of a run, and that they are the first ones the KDS gave to each of them.\<close>

record 'c answers =
  an_chain :: "string \<times> string \<Rightarrow> 'c list option"
  an_vcek :: "vcek_key \<Rightarrow> 'c option"

definition first_answers :: "'c pki \<Rightarrow> network \<Rightarrow> request list \<Rightarrow> 'c answers \<Rightarrow> bool" where
  "first_answers P net rs A \<longleftrightarrow> (\<forall>i < length rs. case rs ! i of
     ChainRequest kind pr \<Rightarrow> an_chain A (kind, pr) = chain_answer P net i (kind, pr)
   | VcekRequest k \<Rightarrow> an_vcek A k = vcek_answer P net i k)"

lemma first_answers_append: "first_answers P net (rs @ rs') A \<Longrightarrow> first_answers P net rs A"
  unfolding first_answers_def
proof (intro allI impI)
  fix i assume a: "\<forall>i < length (rs @ rs'). case (rs @ rs') ! i of
     ChainRequest kind pr \<Rightarrow> an_chain A (kind, pr) = chain_answer P net i (kind, pr)
   | VcekRequest k \<Rightarrow> an_vcek A k = vcek_answer P net i k" and i: "i < length rs"
  then have "(rs @ rs') ! i = rs ! i" "i < length (rs @ rs')" by (simp_all add: nth_append)
  with a [rule_format, of i] show "case rs ! i of ChainRequest kind pr \<Rightarrow> an_chain A (kind, pr) = chain_answer P net i (kind, pr)
   | VcekRequest k \<Rightarrow> an_vcek A k = vcek_answer P net i k" by simp
qed

lemma first_answers_later: "first_answers P net (requests t) A \<Longrightarrow> later P net s es t \<Longrightarrow> first_answers P net (requests s) A"
  unfolding later_def prefix_def by (auto dest: first_answers_append)

lemma first_answers_at:
  assumes "first_answers P net rs A" "i < length rs"
  shows "rs ! i = ChainRequest kind pr \<Longrightarrow> an_chain A (kind, pr) = chain_answer P net i (kind, pr)"
    "rs ! i = VcekRequest k \<Longrightarrow> an_vcek A k = vcek_answer P net i k"
proof -
  have c: "case rs ! i of ChainRequest kind pr \<Rightarrow> an_chain A (kind, pr) = chain_answer P net i (kind, pr)
     | VcekRequest k \<Rightarrow> an_vcek A k = vcek_answer P net i k"
    using assms unfolding first_answers_def by blast
  show "rs ! i = ChainRequest kind pr \<Longrightarrow> an_chain A (kind, pr) = chain_answer P net i (kind, pr)"
    "rs ! i = VcekRequest k \<Longrightarrow> an_vcek A k = vcek_answer P net i k"
    using c by simp_all
qed

lemma first_answers_known:
  assumes "caches_ok P net s" "first_answers P net (requests s) A"
  shows "map_of (chains s) (kind, pr) = Some v \<Longrightarrow> v = an_chain A (kind, pr)" "map_of (kds_cache s) k = Some w \<Longrightarrow> w = an_vcek A k"
  using first_answers_at(1) [OF assms(2), of _ kind pr] caches_okD(2) [OF assms(1), of "(kind, pr)" v]
    first_answers_at(2) [OF assms(2), of _ k] caches_okD(3) [OF assms(1), of k w] by auto

definition kept :: "'c caches \<Rightarrow> 'c answers" where
  "kept s = \<lparr>an_chain = (\<lambda>k. case map_of (chains s) k of None \<Rightarrow> None | Some v \<Rightarrow> v),
     an_vcek = (\<lambda>k. case map_of (kds_cache s) k of None \<Rightarrow> None | Some v \<Rightarrow> v)\<rparr>"

lemma first_answers_kept:
  assumes "caches_ok P net s"
  shows "first_answers P net (requests s) (kept s)"
proof -
  have "map_of (chains s) (kind, pr) = Some (chain_answer P net i (kind, pr))"
    if "i < length (requests s)" "requests s ! i = ChainRequest kind pr" for i kind pr
    by (subst caches_okD(2) [OF assms]) (use that in auto)
  moreover have "map_of (kds_cache s) k = Some (vcek_answer P net i k)"
    if "i < length (requests s)" "requests s ! i = VcekRequest k" for i k
    by (subst caches_okD(3) [OF assms]) (use that in auto)
  ultimately show ?thesis by (auto simp: first_answers_def kept_def split: request.split)
qed

definition direct_leaf :: "'c pki \<Rightarrow> 'c answers \<Rightarrow> (string \<times> 'c) list \<Rightarrow> bytes \<Rightarrow> dual_report \<Rightarrow> (string \<times> 'c) option" where
  "direct_leaf P A hosts rep f = (case List.find (\<lambda>(label, c). sig_ok P rep c) hosts of
     Some (label, c) \<Rightarrow> Some (''host:'' @ label, c)
   | None \<Rightarrow> if chip_id_zero f then None
     else (case an_vcek A (product_name f, chip_id f, tcb f) of
       Some c \<Rightarrow> if sig_ok P rep c then Some (''kds:VCEK'', c) else None | None \<Rightarrow> None))"

definition direct_check :: "'c pki \<Rightarrow> 'c answers \<Rightarrow> dual_report \<Rightarrow> 'c \<Rightarrow> leaf_check" where
  "direct_check P A f leaf =
     (let ch = an_chain A (if signing_key f = VLEK then ''vlek'' else ''vcek'', product_name f) in
      \<lparr>lc_chain_ok = (case ch of Some (x # xs) \<Rightarrow> Some (chain_ok P leaf (x # xs)) | _ \<Rightarrow> None),
       lc_chain = (case ch of Some (x # xs) \<Rightarrow> Some (map (\<lambda>c. takeWhile (\<lambda>z. z \<noteq> CHR '','') (subject P c)) (leaf # x # xs)) | _ \<Rightarrow> None),
       lc_csp = map_option (drop 2) (ext_value P leaf CSP_OID), lc_hwid = hwid_equals P leaf (chip_id f)\<rparr>)"

definition direct_row :: "'c pki \<Rightarrow> 'c answers \<Rightarrow> bytes \<Rightarrow> (string \<times> 'c) list \<Rightarrow> bytes \<Rightarrow> report_row res" where
  "direct_row P A N hosts rep = rbind (parse rep) (\<lambda>f. let leaf = direct_leaf P A hosts rep f in
     Ok \<lparr>rr_signing_key = signing_key f, rr_product = product_name f, rr_version = version f,
         rr_chip_zero = chip_id_zero f, rr_chip_prefix = take 16 (chip_id f), rr_report_id = take 16 (report_id f),
         rr_is_nonce = (report_data f = hex N), rr_kds_error = None, rr_verified_by = map_option fst leaf,
         rr_leaf = map_option (\<lambda>(by, c). direct_check P A f c) leaf\<rparr>)"

definition without_error :: "report_row \<Rightarrow> report_row" where
  "without_error r = r\<lparr>rr_kds_error := None\<rparr>"

definition direct_reports :: "'c pki \<Rightarrow> 'c answers \<Rightarrow> run_dir \<Rightarrow> (string \<times> report_row) list res" where
  "direct_reports P A d = rbind (of_option FileNotFoundError (rd_sentence d)) (\<lambda>sent.
     rmap (\<lambda>(n, b). rbind (direct_row P A (sha512 (utf8 sent)) (host_certs P d) (take 1184 b)) (\<lambda>r. Ok (n, r))) (report_files d))"

text \<open>The errors that rows note.\<close>

abbreviation noted_in :: "report_row \<Rightarrow> pyerr list" where
  "noted_in r \<equiv> (case rr_kds_error r of None \<Rightarrow> [] | Some e \<Rightarrow> [e])"

definition noted :: "run_row list \<Rightarrow> pyerr list" where
  "noted rows = concat (map (\<lambda>r. concat (map (\<lambda>(n, row). noted_in row) (ro_reports r))) rows)"

text \<open>Each step of the loop goes on from the caches of the step before, and its row is the one judged with any
  answers that agree with the requests made so far.\<close>

lemma leaf_for_later:
  assumes "caches_ok P net s" "leaf_for P net hosts rep f s = (leaf, err, s')"
  shows "later P net s (case err of None \<Rightarrow> [] | Some e \<Rightarrow> [e]) s'
    \<and> (\<forall>A. first_answers P net (requests s') A \<longrightarrow> leaf = direct_leaf P A hosts rep f)"
proof (cases "List.find (\<lambda>(label, c). sig_ok P rep c) hosts")
  case (Some p)
  with assms show ?thesis by (cases p) (auto simp: leaf_for_def direct_leaf_def later_refl)
next
  case None
  show ?thesis
  proof (cases "chip_id_zero f")
    case True
    with assms None show ?thesis by (simp add: leaf_for_def direct_leaf_def later_refl)
  next
    case False
    let ?k = "(product_name f, chip_id f, tcb f)"
    obtain v e t where v: "vcek_for P net ?k s = (v, e, t)" by (cases "vcek_for P net ?k s")
    have r: "leaf = (case v of Some c \<Rightarrow> if sig_ok P rep c then Some (''kds:VCEK'', c) else None | None \<Rightarrow> None)" "err = e" "s' = t"
      using assms(2) None False v by (auto simp: leaf_for_def split: option.splits)
    note l = vcek_for_cases [OF assms(1) v]
    then have "v = an_vcek A ?k" if "first_answers P net (requests t) A" for A
      using first_answers_known(2) [OF later_ok that] by blast
    with None False l show ?thesis by (simp add: r direct_leaf_def)
  qed
qed

lemma check_leaf_later:
  assumes "caches_ok P net s" "check_leaf P net f c s = (l, s')"
  shows "later P net s [] s' \<and> (\<forall>A. first_answers P net (requests s') A \<longrightarrow> l = direct_check P A f c)"
proof -
  let ?k = "if signing_key f = VLEK then ''vlek'' else ''vcek''"
  obtain ch t where ch: "chain_for P net ?k (product_name f) s = (ch, t)" by (cases "chain_for P net ?k (product_name f) s")
  note l = chain_for_cases [OF assms(1) ch]
  have s': "s' = t" using assms(2) by (simp add: check_leaf_def ch)
  have a: "l = direct_check P A f c" if "first_answers P net (requests t) A" for A
  proof -
    have "ch = an_chain A (?k, product_name f)"
      using first_answers_known(1) [OF later_ok that, of s "[]" ?k "product_name f" ch] l by blast
    then show ?thesis using assms(2) by (simp add: check_leaf_def ch direct_check_def Let_def)
  qed
  with a l show ?thesis by (simp add: s')
qed

lemma check_report_later:
  assumes "caches_ok P net s" "check_report P net N hosts rep s = Inr (row, s')"
  shows "later P net s (noted_in row) s'
    \<and> (\<forall>A. first_answers P net (requests s') A \<longrightarrow> direct_row P A N hosts rep = Inr (without_error row))"
proof -
  from assms(2) obtain f where f: "parse rep = Inr f" by (auto simp: check_report_def res_iff)
  obtain leaf err t where l: "leaf_for P net hosts rep f s = (leaf, err, t)" by (cases "leaf_for P net hosts rep f s")
  note t = leaf_for_later [OF assms(1) l]
  show ?thesis
  proof (cases leaf)
    case None
    with assms(2) have r: "s' = t" "rr_kds_error row = err" by (auto simp: check_report_def f l)
    have "direct_row P A N hosts rep = Inr (without_error row)" if "first_answers P net (requests t) A" for A
    proof -
      have "direct_leaf P A hosts rep f = None" using t that None by simp
      with None assms(2) show ?thesis by (auto simp: check_report_def f l direct_row_def without_error_def Let_def)
    qed
    with t r show ?thesis by simp
  next
    case (Some p)
    obtain lbl c where p: "p = (lbl, c)" by (cases p)
    obtain lc t' where c: "check_leaf P net f c t = (lc, t')" by (cases "check_leaf P net f c t")
    have ok: "caches_ok P net t" using t later_ok by blast
    note t' = check_leaf_later [OF ok c]
    from assms(2) have r: "s' = t'" "rr_kds_error row = err" by (auto simp: check_report_def f l Some p c)
    have "direct_row P A N hosts rep = Inr (without_error row)" if a: "first_answers P net (requests t') A" for A
    proof -
      have "first_answers P net (requests t) A" using first_answers_later [OF a] t' by blast
      then have "direct_leaf P A hosts rep f = Some (lbl, c)" "lc = direct_check P A f c" using t t' a Some p by auto
      then show ?thesis using assms(2) by (auto simp: check_report_def f l Some p c direct_row_def without_error_def Let_def)
    qed
    moreover have "later P net s (noted_in row) t'" using later_trans [of P net s _ t "[]" t'] t t' r(2) by simp
    ultimately show ?thesis by (simp add: r(1))
  qed
qed

lemma check_reports_later:
  assumes "caches_ok P net s" "check_reports P net N hosts reps s = Inr (rows, s')"
  shows "later P net s (concat (map (\<lambda>(n, row). noted_in row) rows)) s'
    \<and> (\<forall>A. first_answers P net (requests s') A \<longrightarrow>
        rmap (\<lambda>(n, b). rbind (direct_row P A N hosts b) (\<lambda>r. Ok (n, r))) reps = Inr (map (apsnd without_error) rows))"
  using assms
proof (induction reps arbitrary: s rows s')
  case Nil
  then show ?case by (simp add: later_refl)
next
  case (Cons p reps)
  obtain n rep where p: "p = (n, rep)" by (cases p)
  from Cons.prems(2) obtain row s1 rows' where r: "check_report P net N hosts rep s = Inr (row, s1)"
    "check_reports P net N hosts reps s1 = Inr (rows', s')" "rows = (n, row) # rows'"
    by (auto simp: p res_iff)
  note h = check_report_later [OF Cons.prems(1) r(1)]
  then have ok: "caches_ok P net s1" using later_ok by blast
  note t = Cons.IH [OF ok r(2)]
  have "direct_row P A N hosts rep = Inr (without_error row)" if "first_answers P net (requests s') A" for A
    using h first_answers_later [OF that] t by blast
  then show ?case using t later_trans [OF conjunct1 [OF h] conjunct1 [OF t]] by (simp add: p r(3))
qed

lemma check_run_later:
  assumes "caches_ok P net s" "check_run P net eph_ok d s = Inr (row, s')"
  shows "later P net s (concat (map (\<lambda>(n, row). noted_in row) (ro_reports row))) s'
    \<and> (\<forall>A. first_answers P net (requests s') A \<longrightarrow> direct_reports P A d = Inr (map (apsnd without_error) (ro_reports row)))"
proof -
  from assms(2) obtain sent rows where sent: "rd_sentence d = Some sent"
    and c: "check_reports P net (sha512 (utf8 sent)) (host_certs P d) (map (\<lambda>(n, b). (n, take 1184 b)) (report_files d)) s = Inr (rows, s')"
    and row: "ro_reports row = rows"
    unfolding check_run_def Let_def by (auto simp: res_iff)
  with check_reports_later [OF assms(1) c] show ?thesis
    by (simp add: direct_reports_def sent row split_def rmap_map)
qed

lemma dual_main_later:
  assumes "caches_ok P net s" "dual_main P net eph_ok ds s = Inr (rows, s')"
  shows "later P net s (noted rows) s'
    \<and> (\<forall>A. first_answers P net (requests s') A \<longrightarrow>
        rmap (direct_reports P A) (filter (\<lambda>d. report_files d \<noteq> []) ds) = Inr (map (\<lambda>r. map (apsnd without_error) (ro_reports r)) rows))"
  using assms
proof (induction ds arbitrary: s rows s')
  case Nil
  then show ?case by (simp add: later_refl noted_def)
next
  case (Cons d ds)
  show ?case
  proof (cases "report_files d = []")
    case False
    with Cons.prems(2) obtain row s1 rows' where r: "check_run P net eph_ok d s = Inr (row, s1)"
      "dual_main P net eph_ok ds s1 = Inr (rows', s')" "rows = row # rows'"
      by (auto simp: res_iff)
    note h = check_run_later [OF Cons.prems(1) r(1)]
    then have ok: "caches_ok P net s1" using later_ok by blast
    note t = Cons.IH [OF ok r(2)]
    have "direct_reports P A d = Inr (map (apsnd without_error) (ro_reports row))" if "first_answers P net (requests s') A" for A
      using h first_answers_later [OF that] t by blast
    then show ?thesis using t later_trans [OF conjunct1 [OF h] conjunct1 [OF t]] False by (simp add: r(3) noted_def)
  qed (use Cons in simp)
qed

lemmas dual_main_final = dual_main_later [OF no_caches_ok]

lemma dual_main_ok: "dual_main P net eph_ok ds no_caches = Inr (rows, s) \<Longrightarrow> caches_ok P net s"
  using dual_main_final later_ok by blast

text \<open>A row of the summary is the row of one of the run's report files, judged with the answers that the
  dictionaries keep.\<close>

lemma dual_main_row:
  assumes "dual_main P net eph_ok ds no_caches = Inr (rows, s)" "r \<in> set rows" "(name, row) \<in> set (ro_reports r)"
  obtains d sent b where "d \<in> set ds" "rd_sentence d = Some sent" "(name, b) \<in> set (report_files d)"
    "direct_row P (kept s) (sha512 (utf8 sent)) (host_certs P d) (take 1184 b) = Inr (without_error row)"
proof -
  have "rmap (direct_reports P (kept s)) (filter (\<lambda>d. report_files d \<noteq> []) ds)
      = Inr (map (\<lambda>r. map (apsnd without_error) (ro_reports r)) rows)"
    using dual_main_final [OF assms(1)] first_answers_kept [OF dual_main_ok [OF assms(1)]] by blast
  then have "\<exists>d \<in> set (filter (\<lambda>d. report_files d \<noteq> []) ds). direct_reports P (kept s) d = Inr (map (apsnd without_error) (ro_reports r))"
    by (rule rmap_Ok_member) (use assms(2) in simp)
  then obtain d where d: "d \<in> set ds" "direct_reports P (kept s) d = Inr (map (apsnd without_error) (ro_reports r))" by auto
  from d(2) obtain sent where s: "rd_sentence d = Some sent"
    and m: "rmap (\<lambda>(n, b). rbind (direct_row P (kept s) (sha512 (utf8 sent)) (host_certs P d) (take 1184 b)) (\<lambda>r. Ok (n, r))) (report_files d)
      = Inr (map (apsnd without_error) (ro_reports r))"
    by (auto simp: direct_reports_def res_iff)
  have "(name, without_error row) \<in> set (map (apsnd without_error) (ro_reports r))"
    using assms(3) by force
  from rmap_Ok_member [OF m this] obtain b where "(name, b) \<in> set (report_files d)"
    "direct_row P (kept s) (sha512 (utf8 sent)) (host_certs P d) (take 1184 b) = Inr (without_error row)"
    by (auto simp: res_iff)
  with that d(1) s show thesis by blast
qed

text \<open>What is kept was answered.\<close>

lemma kept_asked:
  assumes "caches_ok P net s"
  shows "an_chain (kept s) (kind, pr) = Some ch \<Longrightarrow>
      \<exists>i < length (requests s). requests s ! i = ChainRequest kind pr \<and> chain_answer P net i (kind, pr) = Some ch"
    and "an_vcek (kept s) k = Some c \<Longrightarrow>
      \<exists>i < length (requests s). requests s ! i = VcekRequest k \<and> fetch_vcek P (net i) k = Inr c"
proof -
  assume "an_chain (kept s) (kind, pr) = Some ch"
  then have "map_of (chains s) (kind, pr) = Some (Some ch)" by (simp add: kept_def split: option.splits)
  then show "\<exists>i < length (requests s). requests s ! i = ChainRequest kind pr \<and> chain_answer P net i (kind, pr) = Some ch"
    using caches_okD(2) [OF assms] by fastforce
next
  assume "an_vcek (kept s) k = Some c"
  then have "map_of (kds_cache s) k = Some (Some c)" by (simp add: kept_def split: option.splits)
  then obtain i where "i < length (requests s)" "requests s ! i = VcekRequest k" "Some c = vcek_answer P net i k"
    using caches_okD(3) [OF assms] by blast
  then show "\<exists>i < length (requests s). requests s ! i = VcekRequest k \<and> fetch_vcek P (net i) k = Inr c"
    by (auto simp: drop_error_def split: sum.splits)
qed

lemma direct_leaf_Some:
  assumes "direct_leaf P A hosts rep f = Some (lbl, c)"
  shows "sig_ok P rep c \<and>
    ((\<exists>n. (n, c) \<in> set hosts) \<or> (\<not> chip_id_zero f \<and> an_vcek A (product_name f, chip_id f, tcb f) = Some c))"
proof (cases "List.find (\<lambda>(label, c). sig_ok P rep c) hosts")
  case None
  with assms show ?thesis by (auto simp: direct_leaf_def split: option.splits if_splits)
next
  case (Some q)
  obtain n c' where q: "q = (n, c')" by (cases q)
  from assms Some q have "c' = c" by (simp add: direct_leaf_def)
  with find_Some [OF Some] q show ?thesis by auto
qed

section \<open>A run for the witnesses\<close>

definition demo_run :: "bytes \<Rightarrow> run_dir" where
  "demo_run rep = \<lparr>rd_name = ''r'', rd_metadata = Some ''az=z1'', rd_sentence = Some ''s'', host_bins = [], host_pems = [],
     report_files = [(''a'', rep), (''b'', rep)], eph_pub = None, eph_sig = None, dual_results = None, keysel_results = None\<rparr>"

text \<open>A KDS that fails at request number \<open>m\<close> only.\<close>

definition flaky :: "nat \<Rightarrow> network" where
  "flaky m n u = (if n = m then Err (Raised ''HTTPError'' ''429'') else Ok [])"

text \<open>Two reports of one chip: the VCEK is request 0 and the chain request 1.\<close>

lemma demo_dual_main:
  assumes "m \<noteq> 0"
  obtains rep f rows s r row row' l l' where
    "dual_main demo_pki (flaky m) (\<lambda>_ _ _. True) [demo_run rep] no_caches = Inr (rows, s)"
    "r \<in> set rows" "(''a'', row) \<in> set (ro_reports r)" "(''b'', row') \<in> set (ro_reports r)" "rr_leaf row = Some l" "rr_leaf row' = Some l'"
    "lc_chain_ok l = (if m = 1 then None else Some True)" "rr_product row' = product_name f" "rr_signing_key row' = signing_key f"
    "requests s = [VcekRequest (product_name f, chip_id f, tcb f), ChainRequest (if signing_key f = VLEK then ''vlek'' else ''vcek'') (product_name f)]"
    "length rep = 1184" "parse rep = Inr f" "\<not> chip_id_zero f"
proof -
  obtain rep where rep: "attest_with (demo_chip 7) (zeros 32) [1, 2] [3] = Inr rep" "sig_ok demo_pki rep 2"
    "report_data_of rep = binder_value sha384_alg [1, 2] [3] @ zeros 16" "chip_id_of rep = mc_chip_id (demo_chip 7)" "length rep = 1184"
    by (rule attest_with_genuine [OF demo_genuine length_zeros])
  obtain f where f: "parse rep = Inr f" using parse_long [of rep] rep(5) by auto
  have "chip_id_of rep \<noteq> zeros 64" by (simp add: rep(4) demo_chip_def zeros_def)
  then have z: "\<not> chip_id_zero f" using f by (auto simp: parse_Inr_iff)
  have v: "fetch_vcek demo_pki (flaky m 0) k = Inr 2" for k
    using assms by (cases k) (simp add: flaky_def fetch_vcek_def load_cert_def demo_pki_def utf8_def utf8_char_def)
  have ch: "fetch_chain_of demo_pki (flaky m (Suc 0)) k = (if m = 1 then None else Some [3, 4])" for k
    by (simp add: flaky_def fetch_chain_of_def demo_pki_def drop_error_def)
  have ok: "chain_ok demo_pki 2 [3, 4]" by (simp add: chain_ok_def issued_def demo_pki_def)
  note run = check_run_def check_report_def leaf_for_def check_leaf_def vcek_for_def chain_for_def cached_def
    check_chained_def check_cb_def firmware_def host_certs_def load_all_def drop_error_def
  have "\<exists>rows s r row row' l l'. dual_main demo_pki (flaky m) (\<lambda>_ _ _. True) [demo_run rep] no_caches = Inr (rows, s) \<and>
    r \<in> set rows \<and> (''a'', row) \<in> set (ro_reports r) \<and> (''b'', row') \<in> set (ro_reports r) \<and> rr_leaf row = Some l \<and> rr_leaf row' = Some l' \<and>
    lc_chain_ok l = (if m = 1 then None else Some True) \<and> rr_product row' = product_name f \<and> rr_signing_key row' = signing_key f \<and>
    requests s = [VcekRequest (product_name f, chip_id f, tcb f), ChainRequest (if signing_key f = VLEK then ''vlek'' else ''vcek'') (product_name f)]"
    by (simp add: run demo_run_def no_caches_def f z v ch ok rep(2,5) Let_def)
  with rep(5) f z that show thesis by blast
qed

section \<open>Properties\<close>

text \<open>C29: What the two dictionaries do over a run whose requests may fail at one time and succeed at another.
  No chain and no VCEK is asked for twice; the rows are those of judging every report, without
  dictionaries, with any answers that agree with the first answer the KDS gave to each request that was
  made, a failure being the answer None, and such answers exist; and the errors the rows note are those
  of the failed VCEK requests, each once and in order. So a later answer of the KDS to the same question
  cannot change a row, and neither can anything that was not asked.\<close>

theorem first_answer_decides:
  assumes "dual_main P net eph_ok ds no_caches = Inr (rows, s)"
  shows "distinct (requests s) \<and> (\<exists>A. first_answers P net (requests s) A)
    \<and> (\<forall>A. first_answers P net (requests s) A \<longrightarrow>
        rmap (direct_reports P A) (filter (\<lambda>d. report_files d \<noteq> []) ds) = Inr (map (\<lambda>r. map (apsnd without_error) (ro_reports r)) rows))
    \<and> noted rows = failures P net (requests s)"
proof -
  have "noted rows = failures P net (requests s)"
    using dual_main_final [OF assms] by (simp add: later_def no_caches_def failures_def)
  then show ?thesis using dual_main_final [OF assms] dual_main_ok [OF assms] first_answers_kept [OF dual_main_ok [OF assms]]
    unfolding caches_ok_def by blast
qed

theorem first_answer_decides_witness:
  "\<exists>rep rows s A. dual_main demo_pki (flaky 1) (\<lambda>_ _ _. True) [demo_run rep] no_caches = Inr (rows, s) \<and> length (requests s) = 2
     \<and> first_answers demo_pki (flaky 1) (requests s) A
     \<and> rmap (direct_reports demo_pki A) (filter (\<lambda>d. report_files d \<noteq> []) [demo_run rep])
       = Inr (map (\<lambda>r. map (apsnd without_error) (ro_reports r)) rows)"
proof -
  obtain rep f0 rows s r row row' l l' where d: "dual_main demo_pki (flaky 1) (\<lambda>_ _ _. True) [demo_run rep] no_caches = Inr (rows, s)"
    "r \<in> set rows" "(''a'', row) \<in> set (ro_reports r)" "(''b'', row') \<in> set (ro_reports r)" "rr_leaf row = Some l" "rr_leaf row' = Some l'"
    "lc_chain_ok l = (if (1 :: nat) = 1 then None else Some True)" "rr_product row' = product_name f0" "rr_signing_key row' = signing_key f0"
    and q: "requests s = [VcekRequest (product_name f0, chip_id f0, tcb f0), ChainRequest (if signing_key f0 = VLEK then ''vlek'' else ''vcek'') (product_name f0)]"
    and l: "length rep = 1184" "parse rep = Inr f0" "\<not> chip_id_zero f0"
    by (rule demo_dual_main [OF one_neq_zero])
  have "length (requests s) = 2" by (simp add: q)
  with d(1) first_answer_decides [OF d(1)] show ?thesis by blast
qed

text \<open>C40: A failed chain request is final. If the one request for the certificate chain of a kind of key and a
  product fails, whenever it is made, then no report of that kind and product in the whole summary gets
  a verdict on its chain, the later ones included, although the KDS may have answered the same question
  again by then.\<close>

theorem failed_chain_is_final:
  assumes "dual_main P net eph_ok ds no_caches = Inr (rows, s)"
    and "i < length (requests s)" "requests s ! i = ChainRequest kind pr" "fetch_chain_of P (net i) (kind, pr) = None"
    and "r \<in> set rows" "(name, row) \<in> set (ro_reports r)" "rr_leaf row = Some l"
    and "rr_product row = pr" "kind = (if rr_signing_key row = VLEK then ''vlek'' else ''vcek'')"
  shows "lc_chain_ok l = None \<and> lc_chain l = None"
proof -
  note ok = dual_main_ok [OF assms(1)]
  have k: "an_chain (kept s) (kind, pr) = None"
    using first_answers_at(1) [OF first_answers_kept [OF ok] assms(2,3)] assms(4) by simp
  from dual_main_row [OF assms(1,5,6)] obtain d sent b
    where r: "direct_row P (kept s) (sha512 (utf8 sent)) (host_certs P d) (take 1184 b) = Inr (without_error row)" .
  from r obtain f where f: "parse (take 1184 b) = Inr f" by (auto simp: direct_row_def res_iff)
  from r f have row: "rr_leaf row = map_option (\<lambda>(lbl, c). direct_check P (kept s) f c) (direct_leaf P (kept s) (host_certs P d) (take 1184 b) f)"
    "rr_product row = product_name f" "rr_signing_key row = signing_key f"
    by (cases row, auto simp: direct_row_def without_error_def Let_def)+
  then obtain c where "l = direct_check P (kept s) f c"
    using assms(7) by (cases "direct_leaf P (kept s) (host_certs P d) (take 1184 b) f") auto
  then show ?thesis using k assms(8,9) row(2,3) by (simp add: direct_check_def)
qed

theorem failed_chain_is_final_witness:
  "\<exists>rep rows s r row l kind pr. dual_main demo_pki (flaky 1) (\<lambda>_ _ _. True) [demo_run rep] no_caches = Inr (rows, s)
     \<and> r \<in> set rows \<and> (''b'', row) \<in> set (ro_reports r) \<and> rr_leaf row = Some l \<and> lc_chain_ok l = None
     \<and> ChainRequest kind pr \<in> set (requests s) \<and> fetch_chain_of demo_pki (flaky 1 2) (kind, pr) = Some [3, 4]"
proof -
  obtain rep f0 rows s r row row' l l' where d: "dual_main demo_pki (flaky 1) (\<lambda>_ _ _. True) [demo_run rep] no_caches = Inr (rows, s)"
    "r \<in> set rows" "(''a'', row) \<in> set (ro_reports r)" "(''b'', row') \<in> set (ro_reports r)" "rr_leaf row = Some l" "rr_leaf row' = Some l'"
    "lc_chain_ok l = (if (1 :: nat) = 1 then None else Some True)" "rr_product row' = product_name f0" "rr_signing_key row' = signing_key f0"
    and q: "requests s = [VcekRequest (product_name f0, chip_id f0, tcb f0), ChainRequest (if signing_key f0 = VLEK then ''vlek'' else ''vcek'') (product_name f0)]"
    and l: "length rep = 1184" "parse rep = Inr f0" "\<not> chip_id_zero f0"
    by (rule demo_dual_main [OF one_neq_zero])
  let ?k = "if signing_key f0 = VLEK then ''vlek'' else ''vcek''"
  have "lc_chain_ok l' = None"
    by (rule conjunct1 [OF failed_chain_is_final [OF d(1), of 1 ?k "product_name f0", OF _ _ _ d(2,4,6,8)]])
      (simp_all add: q d(9) flaky_def fetch_chain_of_def drop_error_def)
  moreover have "fetch_chain_of demo_pki (flaky 1 2) k = Some [3, 4]" for k
    by (simp add: flaky_def fetch_chain_of_def demo_pki_def drop_error_def)
  moreover have "ChainRequest ?k (product_name f0) \<in> set (requests s)" by (simp add: q)
  ultimately show ?thesis using d(1,2,4,6) by blast
qed

text \<open>C26: What a row with a verified chain means. The certificate it names verifies the signature of
  the report in the file, is one of the host's or the one the KDS answered with to the request for the
  chip and TCB the report states (never for a masked chip), and is issued by the first certificate of the
  chain that the KDS answered with to the request for the kind the SIGNING_KEY field states, that one by
  the second, which issued itself; and the nonce column says whether REPORT_DATA is the SHA-512 of the
  run's sentence.\<close>

theorem dual_row_sound:
  assumes "dual_main P net eph_ok ds no_caches = Inr (rows, s)" "r \<in> set rows" "(name, row) \<in> set (ro_reports r)"
    and "rr_leaf row = Some l" and "lc_chain_ok l = Some True"
  shows "\<exists>d sent b f c ask ark rest. d \<in> set ds \<and> rd_sentence d = Some sent \<and> (name, b) \<in> set (report_files d)
    \<and> parse (take 1184 b) = Inr f \<and> sig_ok P (take 1184 b) c
    \<and> ((\<exists>n. (n, c) \<in> set (host_certs P d)) \<or> (\<not> chip_id_zero f \<and> (\<exists>i < length (requests s).
        requests s ! i = VcekRequest (product_name f, chip_id f, tcb f) \<and> fetch_vcek P (net i) (product_name f, chip_id f, tcb f) = Inr c)))
    \<and> (\<exists>i < length (requests s). requests s ! i = ChainRequest (if signing_key f = VLEK then ''vlek'' else ''vcek'') (product_name f)
        \<and> fetch_chain_of P (net i) (if signing_key f = VLEK then ''vlek'' else ''vcek'', product_name f) = Some (ask # ark # rest))
    \<and> issued P ask c \<and> issued P ark ask \<and> issued P ark ark
    \<and> (rr_is_nonce row \<longleftrightarrow> report_data f = hex (sha512 (utf8 sent)))"
proof -
  note ok = dual_main_ok [OF assms(1)]
  from dual_main_row [OF assms(1-3)] obtain d sent b where d: "d \<in> set ds" "rd_sentence d = Some sent" "(name, b) \<in> set (report_files d)"
    and r: "direct_row P (kept s) (sha512 (utf8 sent)) (host_certs P d) (take 1184 b) = Inr (without_error row)" .
  from r obtain f where f: "parse (take 1184 b) = Inr f" by (auto simp: direct_row_def res_iff)
  from r f have row: "rr_leaf row = map_option (\<lambda>(lbl, c). direct_check P (kept s) f c) (direct_leaf P (kept s) (host_certs P d) (take 1184 b) f)"
    "rr_is_nonce row \<longleftrightarrow> report_data f = hex (sha512 (utf8 sent))"
    by (cases row, auto simp: direct_row_def without_error_def Let_def)+
  from row(1) assms(4) obtain lbl c where c: "direct_leaf P (kept s) (host_certs P d) (take 1184 b) f = Some (lbl, c)"
    and l: "l = direct_check P (kept s) f c"
    by (cases "direct_leaf P (kept s) (host_certs P d) (take 1184 b) f") auto
  let ?k = "(product_name f, chip_id f, tcb f)"
  have k: "sig_ok P (take 1184 b) c \<and> ((\<exists>n. (n, c) \<in> set (host_certs P d)) \<or> (\<not> chip_id_zero f \<and> (\<exists>i < length (requests s).
      requests s ! i = VcekRequest ?k \<and> fetch_vcek P (net i) ?k = Inr c)))"
    using direct_leaf_Some [OF c] kept_asked(2) [OF ok, of ?k c] by blast
  from l assms(5) obtain ask ark rest where
    "an_chain (kept s) (if signing_key f = VLEK then ''vlek'' else ''vcek'', product_name f) = Some (ask # ark # rest)"
    "issued P ask c" "issued P ark ask" "issued P ark ark"
    by (auto simp: direct_check_def Let_def chain_ok_iff split: option.splits list.splits)
  with d f row(2) k kept_asked(1) [OF ok this(1)] show ?thesis by blast
qed

theorem dual_row_sound_witness:
  "\<exists>rep rows s f c ask ark rest. dual_main demo_pki (flaky 9) (\<lambda>_ _ _. True) [demo_run rep] no_caches = Inr (rows, s)
    \<and> parse rep = Inr f \<and> sig_ok demo_pki rep c
    \<and> (\<exists>i < length (requests s). requests s ! i = VcekRequest (product_name f, chip_id f, tcb f))
    \<and> issued demo_pki ask c \<and> issued demo_pki ark ask \<and> issued demo_pki ark ark
    \<and> fetch_chain_of demo_pki (flaky 9 1) (if signing_key f = VLEK then ''vlek'' else ''vcek'', product_name f) = Some (ask # ark # rest)"
proof -
  obtain rep f0 rows s r row row' l l' where d: "dual_main demo_pki (flaky 9) (\<lambda>_ _ _. True) [demo_run rep] no_caches = Inr (rows, s)"
    "r \<in> set rows" "(''a'', row) \<in> set (ro_reports r)" "(''b'', row') \<in> set (ro_reports r)" "rr_leaf row = Some l" "rr_leaf row' = Some l'"
    "lc_chain_ok l = (if (9 :: nat) = 1 then None else Some True)" "rr_product row' = product_name f0" "rr_signing_key row' = signing_key f0"
    and q: "requests s = [VcekRequest (product_name f0, chip_id f0, tcb f0), ChainRequest (if signing_key f0 = VLEK then ''vlek'' else ''vcek'') (product_name f0)]"
    and l: "length rep = 1184" "parse rep = Inr f0" "\<not> chip_id_zero f0"
    by (rule demo_dual_main [OF zero_neq_numeral [symmetric]])
  have d5: "lc_chain_ok l = Some True" using d(7) by simp
  obtain b f c ask ark rest i where b: "(''a'', b) \<in> set (report_files (demo_run rep))" "parse (take 1184 b) = Inr f" "sig_ok demo_pki (take 1184 b) c"
    and ch: "fetch_chain_of demo_pki (flaky 9 i) (if signing_key f = VLEK then ''vlek'' else ''vcek'', product_name f) = Some (ask # ark # rest)"
      "requests s ! i = ChainRequest (if signing_key f = VLEK then ''vlek'' else ''vcek'') (product_name f)" "i < length (requests s)"
    and iss: "issued demo_pki ask c" "issued demo_pki ark ask" "issued demo_pki ark ark"
    using dual_row_sound [OF d(1-3,5) d5] by auto
  have "b = rep" using b(1) by (auto simp: demo_run_def)
  with b l have f: "f = f0" "sig_ok demo_pki rep c" by simp_all
  have "i = 1" using ch(2,3) unfolding q by (cases i) auto
  moreover have "0 < length (requests s) \<and> requests s ! 0 = VcekRequest (product_name f0, chip_id f0, tcb f0)" by (simp add: q)
  ultimately show ?thesis using d(1) l(2) f ch(1) iss by blast
qed

end
