(* ===== verification/Base64.thy ===== *)
theory Base64
  imports PyText
begin

text \<open>
  Python's \<open>base64.b64decode\<close> and \<open>urlsafe_b64decode\<close> as the scripts call them (no validation:
  characters outside the alphabet are skipped, the first complete padding ends the input), the
  encoder as the reference, and the round trips.
\<close>

section \<open>The decoder\<close>

definition B64_CHARS :: string where
  "B64_CHARS = ''ABCDEFGHIJKLMNOPQRSTUVWXYZabcdefghijklmnopqrstuvwxyz0123456789+/''"

definition sextet :: "char \<Rightarrow> nat option" where
  "sextet c = map_of (zip B64_CHARS [0..<64]) c"

text \<open>\<open>binascii.a2b_base64\<close>: \<open>q\<close> counts the characters of the current group of four, \<open>l\<close> holds the
  bits that are left over, \<open>p\<close> the padding characters just seen.\<close>

definition binascii_error :: "string \<Rightarrow> pyerr" where
  "binascii_error t = Raised ''Error'' t"

fun a2b :: "nat \<Rightarrow> nat \<Rightarrow> nat \<Rightarrow> string \<Rightarrow> bytes res" where
  "a2b q l p [] = (if q = 0 then Ok [] else Err (binascii_error ''Incorrect padding''))"
| "a2b q l p (c # cs) =
     (if c = CHR ''='' then
        (if 2 \<le> q then (if 4 \<le> q + Suc p then Ok [] else a2b q l (Suc p) cs) else a2b q l p cs)
      else case sextet c of None \<Rightarrow> a2b q l p cs
      | Some v \<Rightarrow>
          if q = 0 then a2b 1 v 0 cs
          else if q = 1 then rbind (a2b 2 (v mod 16) 0 cs) (\<lambda>r. Ok (word_of_nat (l * 4 + v div 16) # r))
          else if q = 2 then rbind (a2b 3 (v mod 4) 0 cs) (\<lambda>r. Ok (word_of_nat (l * 16 + v div 4) # r))
          else rbind (a2b 0 0 0 cs) (\<lambda>r. Ok (word_of_nat (l * 64 + v) # r)))"

definition b64decode :: "string \<Rightarrow> bytes res" where
  "b64decode s = (if is_ascii s then a2b 0 0 0 s else Err ValueError)"

definition urlsafe_b64decode :: "string \<Rightarrow> bytes res" where
  "urlsafe_b64decode s = b64decode (map (\<lambda>c. if c = CHR ''-'' then CHR ''+'' else if c = CHR ''_'' then CHR ''/'' else c) s)"

section \<open>The encoder\<close>

definition b64_digit :: "nat \<Rightarrow> char" where
  "b64_digit n = B64_CHARS ! n"

fun b64encode :: "bytes \<Rightarrow> string" where
  "b64encode [] = []"
| "b64encode [x] = [b64_digit (unat x div 4), b64_digit (unat x mod 4 * 16), CHR ''='', CHR ''='']"
| "b64encode [x, y] = [b64_digit (unat x div 4), b64_digit (unat x mod 4 * 16 + unat y div 16),
     b64_digit (unat y mod 16 * 4), CHR ''='']"
| "b64encode (x # y # z # r) = b64_digit (unat x div 4) # b64_digit (unat x mod 4 * 16 + unat y div 16)
     # b64_digit (unat y mod 16 * 4 + unat z div 64) # b64_digit (unat z mod 64) # b64encode r"

definition is_b64_char :: "char \<Rightarrow> bool" where
  "is_b64_char c \<longleftrightarrow> c = CHR ''='' \<or> c \<in> set B64_CHARS"

lemma length_B64_CHARS [simp]: "length B64_CHARS = 64"
  by (simp add: B64_CHARS_def)

lemma distinct_B64_CHARS: "distinct B64_CHARS" "CHR ''='' \<notin> set B64_CHARS" "is_ascii B64_CHARS"
  by (simp_all add: B64_CHARS_def is_ascii_def)

lemma sextet_digit [simp]: "n < 64 \<Longrightarrow> sextet (b64_digit n) = Some n"
  unfolding sextet_def b64_digit_def
  by (rule map_of_is_SomeI) (auto simp: distinct_B64_CHARS in_set_zip)

lemma b64_digit_in [simp]: "n < 64 \<Longrightarrow> b64_digit n \<in> set B64_CHARS"
  by (simp add: b64_digit_def)

lemma b64_digit_neq [simp]: "n < 64 \<Longrightarrow> b64_digit n \<noteq> CHR ''=''"
  using b64_digit_in distinct_B64_CHARS(2) by metis

lemma sextet_bounds [simp]:
  "unat (x :: byte) div 4 < 64" "unat x mod 4 * 16 < 64" "unat x mod 4 * 16 + unat (y :: byte) div 16 < 64"
  "unat y mod 16 * 4 < 64" "unat y mod 16 * 4 + unat (z :: byte) div 64 < 64" "unat z mod 64 < 64"
  using unat_byte_less [of x] unat_byte_less [of y] unat_byte_less [of z] by (simp_all add: less_mult_imp_div_less)

lemma regroup:
  "(word_of_nat (unat (x :: byte) div 4 * 4 + (unat x mod 4 * 16) div 16) :: byte) = x"
  "(word_of_nat (unat (x :: byte) div 4 * 4 + (unat x mod 4 * 16 + unat (y :: byte) div 16) div 16) :: byte) = x"
  "(word_of_nat ((unat x mod 4 * 16 + unat y div 16) mod 16 * 16 + (unat y mod 16 * 4) div 4) :: byte) = y"
  "(word_of_nat ((unat x mod 4 * 16 + unat y div 16) mod 16 * 16 + (unat y mod 16 * 4 + unat (z :: byte) div 64) div 4) :: byte) = y"
  "(word_of_nat ((unat y mod 16 * 4 + unat z div 64) mod 4 * 64 + unat z mod 64) :: byte) = z"
proof -
  have b: "unat x < 256" "unat y < 256" "unat z < 256" by (rule unat_byte_less)+
  have y: "unat y div 16 < 16" "unat z div 64 < 4" using b by simp_all
  show "(word_of_nat (unat x div 4 * 4 + (unat x mod 4 * 16) div 16) :: byte) = x" by simp
  show "(word_of_nat (unat x div 4 * 4 + (unat x mod 4 * 16 + unat y div 16) div 16) :: byte) = x" using y by simp
  show "(word_of_nat ((unat x mod 4 * 16 + unat y div 16) mod 16 * 16 + (unat y mod 16 * 4) div 4) :: byte) = y" using y by simp
  show "(word_of_nat ((unat x mod 4 * 16 + unat y div 16) mod 16 * 16 + (unat y mod 16 * 4 + unat z div 64) div 4) :: byte) = y" using y by simp
  show "(word_of_nat ((unat y mod 16 * 4 + unat z div 64) mod 4 * 64 + unat z mod 64) :: byte) = z" using y by simp
qed

section \<open>Round trips\<close>

lemma a2b_group:
  assumes "a < 64" "b < 64" "c < 64" "d < 64"
  shows "a2b 0 0 0 (b64_digit a # b64_digit b # b64_digit c # b64_digit d # cs) =
      rbind (a2b 0 0 0 cs) (\<lambda>r. Ok (word_of_nat (a * 4 + b div 16) # word_of_nat (b mod 16 * 16 + c div 4) # word_of_nat (c mod 4 * 64 + d) # r))"
    and "a2b 0 0 0 [b64_digit a, b64_digit b, b64_digit c, CHR ''=''] = Ok [word_of_nat (a * 4 + b div 16), word_of_nat (b mod 16 * 16 + c div 4)]"
    and "a2b 0 0 0 [b64_digit a, b64_digit b, CHR ''='', CHR ''=''] = Ok [word_of_nat (a * 4 + b div 16)]"
  using assms by (simp_all del: of_nat_add of_nat_mult) (cases "a2b 0 0 0 cs"; simp)

lemma a2b_encode: "a2b 0 0 0 (b64encode b) = Ok b"
proof (induction b rule: b64encode.induct)
  case (2 x)
  show ?case unfolding b64encode.simps by (subst a2b_group(3) [where c = 0 and d = 0]) (simp_all only: regroup sextet_bounds zero_less_numeral)
next
  case (3 x y)
  show ?case unfolding b64encode.simps by (subst a2b_group(2) [where d = 0]) (simp_all only: regroup sextet_bounds zero_less_numeral)
next
  case (4 x y z r)
  show ?case unfolding b64encode.simps by (subst a2b_group(1)) (simp_all only: regroup sextet_bounds 4 rbind_simps)
qed simp

lemma b64encode_chars: "c \<in> set (b64encode b) \<Longrightarrow> is_b64_char c"
  by (induction b rule: b64encode.induct) (auto simp: is_b64_char_def)

lemma b64_char_ascii: "(\<And>c. c \<in> set s \<Longrightarrow> is_b64_char c) \<Longrightarrow> is_ascii s"
  using distinct_B64_CHARS(3) by (fastforce simp: is_ascii_def is_b64_char_def)

lemma b64decode_encode: "b64decode (b64encode b) = Ok b"
  using b64_char_ascii [of "b64encode b"] b64encode_chars by (simp add: b64decode_def a2b_encode)

end
