(* ===== verification/ConsoleDecode.thy ===== *)
theory ConsoleDecode
  imports Base64 Hashes
begin

text \<open>
  \<open>tools/decode_console.py\<close>: a probe's archive is recovered from a serial-console capture, where the
  lines of its three base64 copies may be interrupted by other output. The regular expressions of the
  script are written out as matchers on a suffix of the text. The theorems say that an archive is
  returned only if its base64 text has the announced SHA-256 (or, in the legacy format, the announced
  length), and that it is returned whenever each line survived in some copy and no damaged line of the
  right length came before it.
\<close>

section \<open>Regular expressions\<close>

text \<open>A matcher gives the value of a match at the start of a text and the number of characters
  matched. \<open>finditer\<close> and \<open>re_remove\<close> are \<open>re.finditer\<close> and \<open>re.sub(.., "")\<close> for patterns that
  match no empty text: the first match from the left, then on from its end.\<close>

type_synonym 'm matcher = "string \<Rightarrow> ('m \<times> nat) option"

record 'm found =
  m_start :: nat
  m_end :: nat
  m_value :: 'm

function finditer :: "'m matcher \<Rightarrow> nat \<Rightarrow> string \<Rightarrow> 'm found list" where
  "finditer m pos [] = []"
| "finditer m pos (c # cs) = (case m (c # cs) of
     Some (v, n) \<Rightarrow> \<lparr>m_start = pos, m_end = pos + n, m_value = v\<rparr> # finditer m (pos + max 1 n) (drop (max 1 n) (c # cs))
   | None \<Rightarrow> finditer m (Suc pos) cs)"
  by pat_completeness auto
termination by (relation "measure (\<lambda>(m, pos, s). length s)") auto

function re_remove :: "'m matcher \<Rightarrow> string \<Rightarrow> string" where
  "re_remove m [] = []"
| "re_remove m (c # cs) = (case m (c # cs) of
     Some (v, n) \<Rightarrow> re_remove m (drop (max 1 n) (c # cs)) | None \<Rightarrow> c # re_remove m cs)"
  by pat_completeness auto
termination by (relation "measure (\<lambda>(m, s). length s)") auto

text \<open>\<open>text.find(p, i)\<close>.\<close>

fun find_sub :: "string \<Rightarrow> nat \<Rightarrow> string \<Rightarrow> nat option" where
  "find_sub p pos [] = (if p = [] then Some pos else None)"
| "find_sub p pos (c # cs) = (if starts_with p (c # cs) then Some pos else find_sub p (Suc pos) cs)"

definition find_from :: "string \<Rightarrow> string \<Rightarrow> nat \<Rightarrow> nat option" where
  "find_from t p i = find_sub p i (drop i t)"

definition is_digit :: "char \<Rightarrow> bool" where
  "is_digit c = (c \<in> set ''0123456789'')"

definition nat_of_digits :: "string \<Rightarrow> nat" where
  "nat_of_digits s = foldl (\<lambda>n c. n * 10 + (of_char c - 48)) 0 s"

definition BEGIN :: string where "BEGIN = ''===PROBE-BEGIN=== ''"
definition END :: string where "END = ''===PROBE-END===''"

definition NL :: char where "NL = CHR 0x0A"

text \<open>\<open>===PROBE-BEGIN=== <stamp> [^\n]*\n\<close>.\<close>

definition stamp_line :: "string \<Rightarrow> unit matcher" where
  "stamp_line stamp s = (let p = BEGIN @ stamp @ '' '' in
     if starts_with p s then
       (let line = takeWhile (\<lambda>c. c \<noteq> NL) (drop (length p) s) in
        if length p + length line < length s then Some ((), length p + length line + 1) else None)
     else None)"

text \<open>\<open>@@(\d{4}) ([A-Za-z0-9+/=]+)\<close>.\<close>

definition data_line :: "(string \<times> string) matcher" where
  "data_line s = (let num = take 4 (drop 2 s); body = takeWhile is_b64_char (drop 7 s) in
     if starts_with ''@@'' s \<and> length num = 4 \<and> list_all is_digit num \<and> take 1 (drop 6 s) = '' '' \<and> body \<noteq> []
     then Some ((num, body), 7 + length body) else None)"

text \<open>\<open>\[\d{4}-\d{2}-\d{2}T[\d:.]+\]\<close>, the time stamps of the EC2 console.\<close>

definition timestamp :: "unit matcher" where
  "timestamp s = (let d = take 12 s; body = takeWhile (\<lambda>c. is_digit c \<or> c = CHR '':'' \<or> c = CHR ''.'') (drop 12 s) in
     if length d = 12 \<and> d ! 0 = CHR ''['' \<and> list_all is_digit (slice d 1 5) \<and> d ! 5 = CHR ''-'' \<and> list_all is_digit (slice d 6 8)
       \<and> d ! 8 = CHR ''-'' \<and> list_all is_digit (slice d 9 11) \<and> d ! 11 = CHR ''T'' \<and> body \<noteq> []
       \<and> take 1 (drop (12 + length body) s) = '']'' then Some ((), 13 + length body) else None)"

text \<open>\<open>===PROBE-BEGIN=== ([^\n]*?)size=(\d+)(?: sha256=([0-9a-f]{64}) lines=(\d+) copy=(\d+))?\<close>. The lazy
  group ends at the first \<open>size=\<close> with a digit after it on that line.\<close>

record header =
  h_words :: string
  h_size :: nat
  h_sha :: "(string \<times> nat) option"

fun lazy_size :: "string \<Rightarrow> (string \<times> string) option" where
  "lazy_size [] = None"
| "lazy_size (c # cs) =
     (if starts_with ''size='' (c # cs) \<and> takeWhile is_digit (drop 5 (c # cs)) \<noteq> [] then Some ([], drop 5 (c # cs))
      else if c = NL then None
      else map_option (\<lambda>(g, r). (c # g, r)) (lazy_size cs))"

definition is_lower_hex :: "char \<Rightarrow> bool" where
  "is_lower_hex c = (c \<in> set ''0123456789abcdef'')"

text \<open>The optional tail: digest, line count, copy number, and the characters it takes.\<close>

definition sha_tail :: "string \<Rightarrow> ((string \<times> nat) \<times> nat) option" where
  "sha_tail s = (let sha = take 64 (drop 8 s); r = drop 72 s; lines = takeWhile is_digit (drop 7 r);
       r' = drop (7 + length lines) r; copy = takeWhile is_digit (drop 6 r') in
     if starts_with '' sha256='' s \<and> length sha = 64 \<and> list_all is_lower_hex sha \<and> starts_with '' lines='' r \<and> lines \<noteq> []
       \<and> starts_with '' copy='' r' \<and> copy \<noteq> []
     then Some ((sha, nat_of_digits lines), 72 + 7 + length lines + 6 + length copy) else None)"

definition head_line :: "header matcher" where
  "head_line s = (if starts_with BEGIN s then
     (case lazy_size (drop (length BEGIN) s) of None \<Rightarrow> None
      | Some (g, r) \<Rightarrow> (let digits = takeWhile is_digit r; n = length BEGIN + length g + 5 + length digits in
          case sha_tail (drop (length digits) r) of
            Some (t, k) \<Rightarrow> Some (\<lparr>h_words = g, h_size = nat_of_digits digits, h_sha = Some t\<rparr>, n + k)
          | None \<Rightarrow> Some (\<lparr>h_words = g, h_size = nat_of_digits digits, h_sha = None\<rparr>, n)))
   else None)"

section \<open>Reassembly\<close>

text \<open>The second component of a result, with the values the text of the message shows.\<close>

datatype why =
    NotIntact nat nat "nat list"
  | Assembled nat nat
  | ShaMismatch
  | ShaVerified nat
  | LegacyMatched
  | LegacyMismatch

text \<open>\<open>text[a:end if end > 0 else None]\<close>; \<open>end\<close> is searched from \<open>a > 0\<close>.\<close>

definition block_from :: "string \<Rightarrow> nat \<Rightarrow> string" where
  "block_from t a = (case find_from t END a of Some e \<Rightarrow> slice t a e | None \<Rightarrow> drop a t)"

definition blocks :: "string \<Rightarrow> string \<Rightarrow> string list" where
  "blocks t stamp = map (\<lambda>h. block_from t (m_end h)) (finditer (stamp_line stamp) 0 t)"

text \<open>The data lines of all blocks in the order met, as (index, characters).\<close>

definition lines_met :: "string \<Rightarrow> string \<Rightarrow> (nat \<times> string) list" where
  "lines_met t stamp = concat (map (\<lambda>b. map (\<lambda>m. (nat_of_digits (fst (m_value m)), snd (m_value m))) (finditer data_line 0 b)) (blocks t stamp))"

definition want :: "nat \<Rightarrow> nat \<Rightarrow> nat \<Rightarrow> int" where
  "want sz nlines i = (if int i < int nlines - 1 then 76 else int sz - 76 * (int nlines - 1))"

definition setdefault :: "'k \<Rightarrow> 'v \<Rightarrow> ('k \<times> 'v) list \<Rightarrow> ('k \<times> 'v) list" where
  "setdefault k v d = (case map_of d k of Some _ \<Rightarrow> d | None \<Rightarrow> AList.update k v d)"

definition candidates :: "nat \<Rightarrow> nat \<Rightarrow> (nat \<times> string) list \<Rightarrow> (nat \<times> string) list" where
  "candidates sz nlines ls =
     foldl (\<lambda>d (i, s). if int (length s) = want sz nlines i then setdefault i s d else d) [] ls"

definition assemble :: "nat \<Rightarrow> string \<Rightarrow> nat \<Rightarrow> (nat \<times> string) list \<Rightarrow> (bytes option \<times> why) res" where
  "assemble sz sha nlines ls =
     (let cand = candidates sz nlines ls; missing = filter (\<lambda>i. map_of cand i = None) [0..<nlines] in
      if missing \<noteq> [] then Ok (None, NotIntact (length missing) nlines (take 5 missing))
      else (let b64 = concat (map (\<lambda>i. the (map_of cand i)) [0..<nlines]) in
        if length b64 \<noteq> sz then Ok (None, Assembled (length b64) sz)
        else if hex (sha256 (utf8 b64)) \<noteq> sha then Ok (None, ShaMismatch)
        else rbind (b64decode b64) (\<lambda>d. Ok (Some d, ShaVerified nlines))))"

text \<open>\<open>h.group(1).split()[0]\<close>.\<close>

definition stamp_of :: "header \<Rightarrow> string res" where
  "stamp_of h = (case split_ws (h_words h) of [] \<Rightarrow> Err IndexError | s # _ \<Rightarrow> Ok s)"

definition decode_one :: "string \<Rightarrow> header found \<Rightarrow> (bytes option \<times> why) res" where
  "decode_one t hx = rbind (stamp_of (m_value hx)) (\<lambda>stamp.
     case h_sha (m_value hx) of
       Some (sha, nlines) \<Rightarrow> assemble (h_size (m_value hx)) sha nlines (lines_met t stamp)
     | None \<Rightarrow> (let body = filter is_b64_char (block_from t (m_end hx)) in
         if length body = h_size (m_value hx) then rbind (b64decode body) (\<lambda>d. Ok (Some d, LegacyMatched))
         else Ok (None, LegacyMismatch)))"

section \<open>All stamps of a console\<close>

fun decode_heads :: "string \<Rightarrow> header found list \<Rightarrow> (string \<times> bytes option \<times> why) list \<Rightarrow> (string \<times> bytes option \<times> why) list res" where
  "decode_heads t [] out = Ok out"
| "decode_heads t (h # hs) out = rbind (stamp_of (m_value h)) (\<lambda>stamp.
     case map_of out stamp of
       Some (Some _, _) \<Rightarrow> decode_heads t hs out
     | _ \<Rightarrow> rbind (decode_one t h) (\<lambda>r. decode_heads t hs (AList.update stamp r out)))"

definition decode :: "string \<Rightarrow> (string \<times> bytes option \<times> why) list res" where
  "decode text0 = (let t = re_remove timestamp text0 in decode_heads t (finditer head_line 0 t) [])"

text \<open>\<open>main\<close>: \<open>names\<close> is the tar reader, an exception of it is an unreadable archive; the archives
  extracted are the first component, the exit status the second.\<close>

fun extract_all :: "(bytes \<Rightarrow> string list res) \<Rightarrow> (string \<times> bytes option \<times> why) list \<Rightarrow> (string \<times> bytes) list \<times> nat" where
  "extract_all names [] = ([], 0)"
| "extract_all names ((stamp, None, w) # rs) = (fst (extract_all names rs), 1)"
| "extract_all names ((stamp, Some d, w) # rs) = (case names d of
     Inl e \<Rightarrow> (fst (extract_all names rs), 1)
   | Inr _ \<Rightarrow> ((stamp, d) # fst (extract_all names rs), snd (extract_all names rs)))"

definition console_main :: "(bytes \<Rightarrow> string list res) \<Rightarrow> string \<Rightarrow> ((string \<times> bytes) list \<times> nat) res" where
  "console_main names text0 = rbind (decode text0) (\<lambda>rs.
     if rs = [] then Ok ([], 1) else Ok (extract_all names rs))"

section \<open>Lemmas\<close>

definition fits :: "nat \<Rightarrow> nat \<Rightarrow> nat \<Rightarrow> nat \<times> string \<Rightarrow> bool" where
  "fits sz nlines i l \<longleftrightarrow> fst l = i \<and> int (length (snd l)) = want sz nlines i"

text \<open>The candidate of an index is the first line of that index with the expected length.\<close>

lemma map_of_setdefault: "map_of (setdefault k v d) k' = (if k' = k \<and> map_of d k = None then Some v else map_of d k')"
  by (auto simp: setdefault_def update_conv' split: option.splits)

lemma map_of_candidates: "map_of (candidates sz nlines ls) i = map_option snd (List.find (fits sz nlines i) ls)"
proof -
  have "map_of (foldl (\<lambda>d (i, s). if int (length s) = want sz nlines i then setdefault i s d else d) d ls) i
      = (case map_of d i of Some s \<Rightarrow> Some s | None \<Rightarrow> map_option snd (List.find (fits sz nlines i) ls))" for d
  proof (induction ls arbitrary: d)
    case (Cons l ls)
    obtain j s where l: "l = (j, s)" by (cases l)
    show ?case
    proof (cases "int (length s) = want sz nlines j")
      case True
      then show ?thesis by (cases "j = i"; cases "map_of d i") (simp_all add: l Cons.IH fits_def map_of_setdefault)
    next
      case False
      then show ?thesis by (cases "j = i"; cases "map_of d i") (simp_all add: l Cons.IH fits_def)
    qed
  qed (simp split: option.split)
  then show ?thesis by (simp add: candidates_def)
qed

lemma assemble_Some:
  assumes "assemble sz sha nlines ls = Inr (Some d, w)"
  shows "\<exists>b64. length b64 = sz \<and> hex (sha256 (utf8 b64)) = sha \<and> b64decode b64 = Inr d"
  using assms by (auto simp: assemble_def Let_def res_iff split: if_splits)

lemma assemble_complete:
  assumes "\<And>i. i < nlines \<Longrightarrow> List.find (fits (length b64) nlines i) ls = Some (i, chunk i)"
    and "concat (map chunk [0..<nlines]) = b64" and "b64decode b64 = Inr d"
  shows "assemble (length b64) (hex (sha256 (utf8 b64))) nlines ls = Inr (Some d, ShaVerified nlines)"
proof -
  have c: "map_of (candidates (length b64) nlines ls) i = Some (chunk i)" if "i < nlines" for i
    using assms(1) [OF that] by (simp add: map_of_candidates)
  then have "filter (\<lambda>i. map_of (candidates (length b64) nlines ls) i = None) [0..<nlines] = []"
    by (auto simp: filter_empty_conv)
  moreover have "concat (map (\<lambda>i. the (map_of (candidates (length b64) nlines ls) i)) [0..<nlines]) = b64"
    using c assms(2) by (metis (no_types, lifting) map_cong atLeastLessThan_iff option.sel set_upt)
  ultimately show ?thesis using assms(3) by (simp add: assemble_def Let_def)
qed

lemma concat_slices: "concat (map (\<lambda>i. slice b (k * i) (k * i + k)) [0..<n]) = take (k * n) b"
proof (induction n)
  case (Suc n)
  have "take (k * Suc n) b = take (k * n + k) b" by (simp add: add.commute)
  then show ?case using Suc by (simp add: slice_def take_add del: mult_Suc_right)
qed simp

lemma decode_heads_origin:
  assumes "decode_heads t hs out = Inr out'" "map_of out' stamp = Some r"
  shows "map_of out stamp = Some r \<or> (\<exists>h \<in> set hs. stamp_of (m_value h) = Inr stamp \<and> decode_one t h = Inr r)"
  using assms(1)
proof (induction hs arbitrary: out)
  case (Cons h hs)
  then obtain s where s: "stamp_of (m_value h) = Inr s" by (auto simp: res_iff)
  consider (skip) d w where "map_of out s = Some (Some d, w)" "decode_heads t hs out = Inr out'"
    | (one) r1 where "decode_one t h = Inr r1" "decode_heads t hs (AList.update s r1 out) = Inr out'"
    using Cons.prems s by (auto simp: res_iff split: option.splits)
  then show ?case
  proof cases
    case skip
    then show ?thesis using Cons.IH by auto
  next
    case one
    then show ?thesis using Cons.IH [OF one(2)] s by (auto simp: update_conv' split: if_splits)
  qed
qed (use assms(2) in simp)

section \<open>Consoles for the witnesses\<close>

text \<open>A console with one copy, and one with two copies of which a kernel message interrupted the first.\<close>

definition demo_console :: string where
  "demo_console = BEGIN @ ''s size=4 sha256=5d4dc0ce1ab5d104c7c4955c96c58ec59e96b53fba686c1f4a45a008022366cf lines=1 copy=1'' @ [NL]
    @ ''@@0000 AQ=='' @ [NL] @ END"

definition damaged_console :: string where
  "damaged_console = BEGIN @ ''s x'' @ [NL] @ ''@@0000 A[ 1.5] kernel'' @ [NL] @ END @ [NL] @ BEGIN @ ''s x'' @ [NL] @ ''@@0000 AQ=='' @ [NL] @ END"

lemma demo_untouched: "re_remove timestamp demo_console = demo_console"
  by code_simp

lemma demo_head: "map m_value (finditer head_line 0 demo_console) =
  [\<lparr>h_words = ''s '', h_size = 4, h_sha = Some (''5d4dc0ce1ab5d104c7c4955c96c58ec59e96b53fba686c1f4a45a008022366cf'', 1)\<rparr>]"
  by code_simp

lemma demo_lines: "lines_met demo_console ''s'' = [(0, ''AQ=='')]"
  by code_simp

lemma damaged_lines: "lines_met damaged_console ''s'' = [(0, ''A''), (0, ''AQ=='')]"
  by code_simp

lemma demo_digest: "hex (sha256 (utf8 ''AQ=='')) = ''5d4dc0ce1ab5d104c7c4955c96c58ec59e96b53fba686c1f4a45a008022366cf''"
  by code_simp

lemma demo_base64: "b64encode [1] = ''AQ=='' \<and> b64decode ''AQ=='' = Inr [1]"
  by code_simp

lemma stamp_s: "h_words h = ''s '' \<Longrightarrow> stamp_of h = Inr ''s''"
  by (simp add: stamp_of_def split_ws.simps is_space_def Let_def)

lemma decode_demo: "decode demo_console = Inr [(''s'', Some [1], ShaVerified 1)]"
proof -
  obtain h where h: "finditer head_line 0 demo_console = [h]"
    "m_value h = \<lparr>h_words = ''s '', h_size = 4, h_sha = Some (''5d4dc0ce1ab5d104c7c4955c96c58ec59e96b53fba686c1f4a45a008022366cf'', 1)\<rparr>"
    using demo_head by auto
  then have "stamp_of (m_value h) = Inr ''s''" by (simp add: stamp_s)
  then show ?thesis
    by (simp add: decode_def demo_untouched h decode_one_def demo_lines assemble_def candidates_def want_def setdefault_def
        demo_digest demo_base64)
qed

section \<open>Properties\<close>

text \<open>C30: What is extracted was announced. An archive that \<open>decode\<close> returns for a stamp is the base64
  decoding of a text whose length a header of that stamp announces, and whose SHA-256 is the one in
  that header when the header carries one.\<close>

theorem console_sound:
  assumes "decode text0 = Inr out" and "map_of out stamp = Some (Some d, w)"
  shows "\<exists>h b64. h \<in> set (finditer head_line 0 (re_remove timestamp text0)) \<and> stamp_of (m_value h) = Inr stamp
    \<and> b64decode b64 = Inr d \<and> length b64 = h_size (m_value h)
    \<and> (\<forall>sha n. h_sha (m_value h) = Some (sha, n) \<longrightarrow> hex (sha256 (utf8 b64)) = sha)"
proof -
  let ?t = "re_remove timestamp text0"
  obtain h where h: "h \<in> set (finditer head_line 0 ?t)" "stamp_of (m_value h) = Inr stamp" "decode_one ?t h = Inr (Some d, w)"
    using decode_heads_origin [of ?t "finditer head_line 0 ?t" "[]" out stamp] assms
    by (metis decode_def map_of.simps(1) option.distinct(1))
  show ?thesis
  proof (cases "h_sha (m_value h)")
    case None
    with h show ?thesis
      by (intro exI [of _ h] exI [of _ "filter is_b64_char (block_from ?t (m_end h))"])
        (auto simp: decode_one_def Let_def res_iff split: if_splits)
  next
    case (Some p)
    obtain sha n where p: "p = (sha, n)" by (cases p)
    from h(2,3) Some p have "assemble (h_size (m_value h)) sha n (lines_met ?t stamp) = Inr (Some d, w)"
      by (simp add: decode_one_def)
    from assemble_Some [OF this] obtain b64 where
      "length b64 = h_size (m_value h)" "hex (sha256 (utf8 b64)) = sha" "b64decode b64 = Inr d" by blast
    with h Some p show ?thesis by (intro exI [of _ h] exI [of _ b64]) auto
  qed
qed

theorem console_sound_witness:
  "\<exists>h b64. h \<in> set (finditer head_line 0 (re_remove timestamp demo_console)) \<and> stamp_of (m_value h) = Inr ''s''
     \<and> b64decode b64 = Inr [1] \<and> length b64 = h_size (m_value h)"
  using console_sound [OF decode_demo, of "''s''" "[1]" "ShaVerified 1"] by auto

text \<open>A damaged console is enough. If the header announces the length and SHA-256 of an archive's
  base64 text in \<open>n\<close> lines of 76 characters, and for every index the first line of the expected length
  met in any copy is the one the probe wrote, the archive itself is returned, whatever else the console
  holds.\<close>

theorem console_recovers:
  assumes "stamp_of (m_value hx) = Inr stamp"
    and "h_size (m_value hx) = length (b64encode d)"
    and "h_sha (m_value hx) = Some (hex (sha256 (utf8 (b64encode d))), n)"
    and "length (b64encode d) \<le> 76 * n"
    and "\<And>i. i < n \<Longrightarrow> List.find (fits (length (b64encode d)) n i) (lines_met t stamp)
        = Some (i, slice (b64encode d) (76 * i) (76 * i + 76))"
  shows "decode_one t hx = Inr (Some d, ShaVerified n)"
proof -
  have "concat (map (\<lambda>i. slice (b64encode d) (76 * i) (76 * i + 76)) [0..<n]) = b64encode d"
    using assms(4) by (simp only: concat_slices take_all)
  from assemble_complete [OF assms(5) this b64decode_encode] show ?thesis
    by (simp add: decode_one_def assms(1-3))
qed

theorem console_recovers_witness:
  "decode_one damaged_console
     \<lparr>m_start = 0, m_end = 1, m_value = \<lparr>h_words = ''s '', h_size = 4, h_sha = Some (hex (sha256 (utf8 (b64encode [1]))), 1)\<rparr>\<rparr>
   = Inr (Some [1], ShaVerified 1)"
  by (rule console_recovers [where stamp = "''s''"])
    (simp_all add: damaged_lines demo_base64 fits_def want_def slice_def stamp_s b64_digit_def B64_CHARS_def)

end
