(* ===== verification/Exporter.thy ===== *)
theory Exporter
  imports EarlyAttest Json Base64
begin

text \<open>
  The session-binding measurement of protocol 5: the guest's server (\<open>server.py\<close> of the exporter run),
  the client and the relay of \<open>tools/exporter_client.py\<close>. TLS is a parameter: a connection delivers the
  bytes sent on it in pieces of any size, and each session has an exporter value (RFC 9266) that its two
  ends share. The theorems say that the relay changes no byte of the answer and that only the exporter
  binder notices it.
\<close>

section \<open>Connections\<close>

text \<open>What a connection will still deliver, as the pieces \<open>recv\<close> meets; reading past the end is an error
  of the TLS package.\<close>

type_synonym incoming = "bytes list"

definition recv :: "nat \<Rightarrow> incoming \<Rightarrow> (bytes \<times> incoming) res" where
  "recv n ps = (case ps of [] \<Rightarrow> Err (Raised ''ZeroReturnError'' '''')
     | p # rest \<Rightarrow> if length p \<le> n then Ok (p, rest) else Ok (take n p, drop n p # rest))"

lemma recv_smaller:
  "0 < n \<Longrightarrow> recv n ps = Inr (b, rest) \<Longrightarrow> length rest + length (concat rest) < length ps + length (concat ps)"
  by (auto simp: recv_def split: list.splits if_splits)

lemma recv_append: "recv n ps = Inr (b, rest) \<Longrightarrow> concat ps = b @ concat rest \<and> length b \<le> n"
  by (auto simp: recv_def split: list.splits if_splits)

text \<open>\<open>recv_exact\<close>, with its variable \<open>b\<close>.\<close>

function recv_loop :: "nat \<Rightarrow> bytes \<Rightarrow> incoming \<Rightarrow> (bytes \<times> incoming) res" where
  "recv_loop n b ps = (if length b < n then
     (case recv (n - length b) ps of Inl e \<Rightarrow> Err e | Inr (x, rest) \<Rightarrow> recv_loop n (b @ x) rest)
     else Ok (b, ps))"
  by pat_completeness auto
termination
  by (relation "measure (\<lambda>(n, b, ps). length ps + length (concat ps))") (auto dest!: recv_smaller [rotated])

declare recv_loop.simps [simp del]

definition recv_exact :: "incoming \<Rightarrow> nat \<Rightarrow> (bytes \<times> incoming) res" where
  "recv_exact ps n = recv_loop n [] ps"

text \<open>\<open>while not line.endswith(b"\n"): line += recv(1)\<close>; the server stops after 200 characters.\<close>

definition ends_line :: "bytes \<Rightarrow> bool" where
  "ends_line b \<longleftrightarrow> b \<noteq> [] \<and> last b = 10"

function recv_line :: "nat option \<Rightarrow> bytes \<Rightarrow> incoming \<Rightarrow> (bytes \<times> incoming) res" where
  "recv_line limit b ps = (if ends_line b \<or> (case limit of None \<Rightarrow> False | Some m \<Rightarrow> m \<le> length b) then Ok (b, ps)
     else (case recv 1 ps of Inl e \<Rightarrow> Err e | Inr (x, rest) \<Rightarrow> recv_line limit (b @ x) rest))"
  by pat_completeness auto
termination
  by (relation "measure (\<lambda>(limit, b, ps). length ps + length (concat ps))") (auto dest!: recv_smaller [rotated])

declare recv_line.simps [simp del]

text \<open>\<open>struct.pack(">I", len(blob)) + blob\<close>.\<close>

definition frame :: "bytes \<Rightarrow> bytes res" where
  "frame blob = (if length blob < 2 ^ 32 then Ok (to_big 4 (int (length blob)) @ blob) else Err StructError)"

definition recv_frame :: "incoming \<Rightarrow> (bytes \<times> incoming) res" where
  "recv_frame ps = rbind (recv_exact ps 4) (\<lambda>(h, ps1). rbind (unpack_be 4 h 0) (\<lambda>n. recv_exact ps1 (nat n)))"

section \<open>The guest's server\<close>

text \<open>The guest: its firmware (a report for 64 bytes of user data), its TLS key and what the TLS session
  reports of itself.\<close>

record guest =
  snp_report :: "bytes \<Rightarrow> bytes res"
  guest_spki :: bytes
  guest_sign :: "bytes \<Rightarrow> bytes"
  cert_pem :: bytes
  protocol_version :: string

definition b64 :: "bytes \<Rightarrow> json" where
  "b64 b = JStr (b64encode b)"

definition blob_of :: "guest \<Rightarrow> bytes \<Rightarrow> bytes \<Rightarrow> bytes \<Rightarrow> bytes \<Rightarrow> json" where
  "blob_of g N exporter r_exp r_key = JObj [(''tls_version'', JStr (protocol_version g)), (''exporter_server'', JStr (hex exporter)),
     (''report_exporter'', b64 r_exp), (''report_key'', b64 r_key), (''spki'', b64 (guest_spki g)),
     (''sig_over_nonce'', b64 (guest_sign g N)), (''cert'', b64 (cert_pem g))]"

text \<open>\<open>bytes.strip()\<close>.\<close>

definition is_space_byte :: "byte \<Rightarrow> bool" where
  "is_space_byte x \<longleftrightarrow> 9 \<le> x \<and> x \<le> 13 \<or> x = 32"

definition strip_bytes :: "bytes \<Rightarrow> bytes" where
  "strip_bytes b = rev (dropWhile is_space_byte (rev (dropWhile is_space_byte b)))"

text \<open>One session: the nonce line, the two reports, the answer.\<close>

definition serve :: "guest \<Rightarrow> bytes \<Rightarrow> incoming \<Rightarrow> bytes res" where
  "serve g exporter ps =
     rbind (recv_line (Some 200) [] ps) (\<lambda>(line, _).
     rbind (of_option (Raised ''UnicodeDecodeError'' '''') (utf8_decode (strip_bytes line))) (\<lambda>text0.
     rbind (fromhex text0) (\<lambda>N.
     rbind (snp_report g (sha512 (N @ exporter))) (\<lambda>r_exp.
     rbind (snp_report g (sha512 (N @ guest_spki g))) (\<lambda>r_key.
     frame (utf8 (json_dumps (blob_of g N exporter r_exp r_key))))))))"

section \<open>The client\<close>

record key_binder =
  kb_report_data :: bool
  kb_signature :: bool
  kb_peer_key :: bool
  kb_accepts :: bool

record exporter_binder =
  xb_report_data :: bool
  xb_accepts :: bool

record report_checks =
  rc_chip_prefix :: string
  rc_exporter_sig :: bool
  rc_key_sig :: bool
  rc_chain :: bool
  rc_same_report_id :: bool

record client_result =
  cr_tls :: json
  cr_exporter_client :: string
  cr_exporter_server :: json
  cr_equal :: bool
  cr_key :: key_binder
  cr_exporter :: exporter_binder
  cr_reports :: "report_checks res"

text \<open>The client's line, and its session: \<open>ec_ok spki sig m\<close> is the ECDSA-SHA256 check with the key in
  \<open>spki\<close>, \<open>False\<close> on any exception.\<close>

definition nonce_line :: "bytes \<Rightarrow> bytes" where
  "nonce_line N = utf8 (hex N) @ [10]"

text \<open>\<open>base64.b64decode(blob[k])\<close> of a text.\<close>

definition b64_field :: "json \<Rightarrow> string \<Rightarrow> bytes res" where
  "b64_field v k = rbind (jitem v k) (\<lambda>x. case x of JStr s \<Rightarrow> b64decode s | _ \<Rightarrow> Err TypeError)"

definition check_both :: "'c pki \<Rightarrow> fetch \<Rightarrow> bytes \<Rightarrow> bytes \<Rightarrow> report_checks res" where
  "check_both P get r_exp r_key =
     rbind (rbind (get (chain_url ''vcek'' ''Milan'')) (load_pem_chain P)) (\<lambda>chain. rbind (parse r_exp) (\<lambda>f.
     rbind (rbind (get (vcek_url ''Milan'' (chip_id f) (tcb f))) (load_cert P)) (\<lambda>vcek. rbind (parse r_key) (\<lambda>fk.
     Ok \<lparr>rc_chip_prefix = take 16 (chip_id f), rc_exporter_sig = sig_ok P r_exp vcek, rc_key_sig = sig_ok P r_key vcek,
        rc_chain = chain_ok P vcek chain, rc_same_report_id = (report_id f = report_id fk)\<rparr>))))"

definition client :: "'c pki \<Rightarrow> fetch \<Rightarrow> (bytes \<Rightarrow> bytes \<Rightarrow> bytes \<Rightarrow> bool) \<Rightarrow> bytes \<Rightarrow> bytes \<Rightarrow> bytes \<Rightarrow> incoming \<Rightarrow> client_result res" where
  "client P get ec_ok N exp_client peer_spki ps =
     rbind (recv_frame ps) (\<lambda>(raw, _). rbind (json_loads_bytes raw) (\<lambda>blob.
     rbind (b64_field blob ''spki'') (\<lambda>spki. rbind (b64_field blob ''report_key'') (\<lambda>r_key.
     rbind (b64_field blob ''report_exporter'') (\<lambda>r_exp. rbind (b64_field blob ''sig_over_nonce'') (\<lambda>sg.
     rbind (jget blob ''tls_version'') (\<lambda>tls. rbind (jitem blob ''exporter_server'') (\<lambda>exporter_server.
     let rd = (slice r_key 0x50 0x90 = sha512 (N @ spki)); sv = ec_ok spki sg N; pk = (peer_spki = spki);
         xd = (slice r_exp 0x50 0x90 = sha512 (N @ exp_client)) in
     Ok \<lparr>cr_tls = tls, cr_exporter_client = hex exp_client, cr_exporter_server = exporter_server, cr_equal = (JStr (hex exp_client) = exporter_server),
        cr_key = \<lparr>kb_report_data = rd, kb_signature = sv, kb_peer_key = pk, kb_accepts = (rd \<and> sv \<and> pk)\<rparr>,
        cr_exporter = \<lparr>xb_report_data = xd, xb_accepts = xd\<rparr>, cr_reports = check_both P get r_exp r_key\<rparr>))))))))"

section \<open>The relay\<close>

text \<open>It ends the client's TLS session with the guest's key, sends the client's line on its own session
  with the guest, and the guest's frame back. The first component is what the guest receives.\<close>

definition relay_line :: "incoming \<Rightarrow> bytes res" where
  "relay_line ps = rbind (recv_line None [] ps) (\<lambda>(line, _). Ok line)"

definition relay_blob :: "incoming \<Rightarrow> bytes res" where
  "relay_blob ps = rbind (recv_frame ps) (\<lambda>(blob, _). frame blob)"

section \<open>Lemmas\<close>

lemma recv_loop_takes:
  "length b \<le> n \<Longrightarrow> n \<le> length b + length (concat ps) \<Longrightarrow>
     \<exists>rest. recv_loop n b ps = Inr (b @ take (n - length b) (concat ps), rest) \<and> concat rest = drop (n - length b) (concat ps)"
proof (induction n b ps rule: recv_loop.induct)
  case (1 n b ps)
  show ?case
  proof (cases "length b < n")
    case True
    with 1(3) obtain p ps' where ps: "ps = p # ps'" by (cases ps) auto
    obtain x rest where r: "recv (n - length b) ps = Inr (x, rest)"
      by (cases "length p \<le> n - length b") (auto simp: recv_def ps)
    have x: "concat ps = x @ concat rest" "length x \<le> n - length b" using recv_append [OF r] by simp_all
    have "length (b @ x) \<le> n" "n \<le> length (b @ x) + length (concat rest)" using True x 1(3) by simp_all
    from 1(1) [OF True r refl this] obtain rest' where
      "recv_loop n (b @ x) rest = Inr ((b @ x) @ take (n - length (b @ x)) (concat rest), rest')"
      "concat rest' = drop (n - length (b @ x)) (concat rest)" by blast
    then show ?thesis using True r x by (subst recv_loop.simps) simp
  next
    case False
    then show ?thesis using 1(2) by (subst recv_loop.simps) simp
  qed
qed

lemma recv_exact_takes:
  assumes "n \<le> length (concat ps)"
  obtains rest where "recv_exact ps n = Inr (take n (concat ps), rest)" "concat rest = drop n (concat ps)"
  using recv_loop_takes [of "[]" n ps] assms by (auto simp: recv_exact_def)

text \<open>A frame is read whole, whatever the pieces it arrives in.\<close>

lemma recv_frame_frame:
  assumes "frame blob = Inr out" "concat ps = out @ more_bytes"
  obtains rest where "recv_frame ps = Inr (blob, rest)" "concat rest = more_bytes"
proof -
  from assms(1) have len: "length blob < 2 ^ 32" and out: "out = to_big 4 (int (length blob)) @ blob"
    by (auto simp: frame_def split: if_splits)
  obtain r1 where r1: "recv_exact ps 4 = Inr (to_big 4 (int (length blob)), r1)" "concat r1 = blob @ more_bytes"
    using recv_exact_takes [of 4 ps] by (auto simp: assms(2) out)
  have n: "from_big (to_big 4 (int (length blob))) = int (length blob)" using len by (simp add: from_big_to_big)
  obtain r2 where "recv_exact r1 (length blob) = Inr (blob, r2)" "concat r2 = more_bytes"
    using recv_exact_takes [of "length blob" r1] by (auto simp: r1(2))
  with r1 n that show thesis by (simp add: recv_frame_def unpack_be_def slice_def)
qed

lemma recv_line_reads:
  assumes "10 \<notin> set l" "case limit of None \<Rightarrow> True | Some m \<Rightarrow> length l < m"
  shows "concat ps = drop k (l @ [10]) @ more_bytes \<Longrightarrow> k \<le> length l \<Longrightarrow> \<exists>rest. recv_line limit (take k l) ps = Inr (l @ [10], rest)"
proof (induction "length ps + length (concat ps)" arbitrary: k ps rule: less_induct)
  case less
  have go: "\<not> (ends_line (take k l) \<or> (case limit of None \<Rightarrow> False | Some m \<Rightarrow> m \<le> length (take k l)))"
  proof -
    have "take k l \<noteq> [] \<Longrightarrow> last (take k l) \<in> set l" using last_in_set in_set_takeD by fast
    then show ?thesis using assms by (auto simp: ends_line_def split: option.splits)
  qed
  obtain p ps' where ps: "ps = p # ps'" using less.prems by (cases ps) auto
  show ?case
  proof (cases p)
    case Nil
    with less(1) [of ps' k] less.prems obtain rest where "recv_line limit (take k l) ps' = Inr (l @ [10], rest)" by (auto simp: ps)
    then show ?thesis using go by (subst recv_line.simps) (simp add: ps Nil recv_def)
  next
    case (Cons c p')
    let ?ps = "if p' = [] then ps' else p' # ps'"
    have r: "recv 1 ps = Inr ([c], ?ps)" by (simp add: recv_def ps Cons)
    have c: "c # concat ?ps = drop k (l @ [10]) @ more_bytes" using less.prems(1) by (cases "p' = []") (simp_all add: ps Cons)
    show ?thesis
    proof (cases "k = length l")
      case True
      with c have "c = 10" by simp
      then have "recv_line limit (take k l @ [c]) ?ps = Inr (l @ [10], ?ps)"
        by (subst recv_line.simps) (simp add: ends_line_def True)
      then show ?thesis using go r by (subst recv_line.simps) simp
    next
      case False
      then have k: "k < length l" using less.prems(2) by simp
      with c have "c = l ! k" "concat ?ps = drop (Suc k) (l @ [10]) @ more_bytes"
        by (simp_all add: Cons_nth_drop_Suc [symmetric])
      moreover have "length ?ps + length (concat ?ps) < length ps + length (concat ps)" by (simp add: ps Cons)
      ultimately obtain rest where "recv_line limit (take (Suc k) l) ?ps = Inr (l @ [10], rest)"
        using less(1) [of ?ps "Suc k"] k by auto
      then show ?thesis using go r \<open>c = l ! k\<close> k by (subst recv_line.simps) (simp add: take_Suc_conv_app_nth)
    qed
  qed
qed


text \<open>The nonce line is hexadecimal text and a line feed: no white space inside, and the server reads the
  nonce back from it.\<close>

lemma hex_bytes:
  assumes "x \<in> set (utf8 (hex b))"
  shows "x \<noteq> 10" "\<not> is_space_byte x"
proof -
  from assms obtain c where "c \<in> set (hex b)" "x = char_byte c" by (auto simp: utf8_ascii [OF hex_ascii])
  with hex_chars [OF this(1)] have "33 \<le> unat x"
    by (simp add: char_byte_def unat_of_nat)
  then show "x \<noteq> 10" "\<not> is_space_byte x" by (auto simp: is_space_byte_def word_le_nat_alt)
qed

lemma strip_line: "strip_bytes (utf8 (hex N) @ [10]) = utf8 (hex N)"
proof -
  let ?h = "utf8 (hex N)"
  have no: "\<forall>x \<in> set l. \<not> is_space_byte x \<Longrightarrow> dropWhile is_space_byte l = l" for l by (cases l) auto
  have "dropWhile is_space_byte (?h @ [10]) = (if ?h = [] then [] else ?h @ [10])"
    using hex_bytes(2) [of _ N] by (cases ?h) (auto simp: is_space_byte_def)
  moreover have "dropWhile is_space_byte (rev ?h) = rev ?h" using hex_bytes(2) [of _ N] by (intro no) auto
  ultimately show ?thesis by (simp add: strip_bytes_def) (simp add: is_space_byte_def)
qed

lemma server_reads_nonce:
  assumes "concat ps = nonce_line N" "length N < 100"
  obtains rest where "recv_line (Some 200) [] ps = Inr (nonce_line N, rest)"
    "utf8_decode (strip_bytes (nonce_line N)) = Some (hex N)"
proof -
  have "length (utf8 (hex N)) < 200" using assms(2) by (simp add: length_utf8_ascii [OF hex_ascii])
  then obtain rest where "recv_line (Some 200) [] ps = Inr (nonce_line N, rest)"
    using recv_line_reads [of "utf8 (hex N)" "Some 200" ps 0 "[]"] hex_bytes(1) [of _ N] assms(1) by (auto simp: nonce_line_def)
  with that show thesis by (simp add: nonce_line_def strip_line utf8_decode_utf8)
qed

lemma serve_value:
  assumes "concat ps = nonce_line N" "length N < 100"
  shows "serve g e ps = rbind (snp_report g (sha512 (N @ e))) (\<lambda>r_exp. rbind (snp_report g (sha512 (N @ guest_spki g))) (\<lambda>r_key.
     frame (utf8 (json_dumps (blob_of g N e r_exp r_key)))))"
proof -
  obtain rest where "recv_line (Some 200) [] ps = Inr (nonce_line N, rest)"
    "utf8_decode (strip_bytes (nonce_line N)) = Some (hex N)" using assms by (rule server_reads_nonce)
  then show ?thesis by (simp add: serve_def)
qed

lemma relay_line_whole:
  assumes "concat ps = nonce_line N"
  shows "relay_line ps = Inr (nonce_line N)"
proof -
  have "10 \<notin> set (utf8 (hex N))" using hex_bytes(1) by blast
  then obtain rest where "recv_line None [] ps = Inr (nonce_line N, rest)"
    using recv_line_reads [of "utf8 (hex N)" None ps 0 "[]"] assms by (auto simp: nonce_line_def)
  then show ?thesis by (simp add: relay_line_def)
qed

lemma relay_blob_whole:
  assumes "frame blob = Inr out" "concat ps = out"
  shows "relay_blob ps = Inr out"
proof -
  obtain rest where "recv_frame ps = Inr (blob, rest)"
    by (rule recv_frame_frame [OF assms(1), of ps "[]"]) (simp_all add: assms(2))
  then show ?thesis using assms(1) by (simp add: relay_blob_def)
qed

lemma blob_ok: "json_ok (blob_of g N e a b)"
  by (simp add: blob_of_def b64_def)

text \<open>What the client makes of the guest's own answer.\<close>

lemma client_value:
  assumes "frame (utf8 (json_dumps (blob_of g N e_s r_exp r_key))) = Inr out" "concat ps = out"
  obtains r where "client P get ec_ok N e_c peer ps = Inr r"
    "kb_accepts (cr_key r) \<longleftrightarrow> slice r_key 0x50 0x90 = sha512 (N @ guest_spki g) \<and> ec_ok (guest_spki g) (guest_sign g N) N
       \<and> peer = guest_spki g"
    "xb_accepts (cr_exporter r) \<longleftrightarrow> slice r_exp 0x50 0x90 = sha512 (N @ e_c)"
    "cr_equal r \<longleftrightarrow> e_c = e_s"
proof -
  obtain rest where "recv_frame ps = Inr (utf8 (json_dumps (blob_of g N e_s r_exp r_key)), rest)"
    by (rule recv_frame_frame [OF assms(1), of ps "[]"]) (simp_all add: assms(2))
  then show thesis using that
    by (simp add: client_def json_loads_bytes_dumps [OF blob_ok] b64_field_def jitem_def jget_def Let_def b64decode_encode)
      (simp add: blob_of_def b64_def b64decode_encode)
qed


section \<open>The properties\<close>

text \<open>The relay is invisible in the bytes. Whatever pieces the two connections deliver, the guest
  receives exactly the nonce line the client sent, and the client exactly the frame the guest sent.\<close>

theorem relay_transparent:
  assumes "concat down = nonce_line N" and "frame blob = Inr out" and "concat up = out"
  shows "relay_line down = Inr (nonce_line N) \<and> relay_blob up = Inr out"
  using relay_line_whole [OF assms(1)] relay_blob_whole [OF assms(2,3)] by blast

theorem relay_transparent_witness:
  "relay_line [utf8 (hex [7, 8]), [10]] = Inr (nonce_line [7, 8]) \<and> relay_blob [[0, 0], [0, 2, 5], [6]] = Inr [0, 0, 0, 2, 5, 6]"
proof (rule relay_transparent)
  have four: "(4 :: nat) = Suc (Suc (Suc (Suc 0)))" by simp
  show "frame [5, 6] = Inr [0, 0, 0, 2, 5, 6]" by (simp add: frame_def to_big_def four)
qed (simp_all add: nonce_line_def)

text \<open>C6: What the two binders make of the relay. The client's nonce passes through the relay to a guest
  whose firmware reports the data it was asked for and whose key signs, and the guest's answer passes
  back; the peer of the client's session shows the guest's (leaked) key. Then the client's check always
  comes to a verdict, the key binder accepts, and the exporter binder accepts exactly when the two
  sessions' exporter values have the same SHA-512 with the nonce: with one session end to end it
  accepts, and with two sessions only on equal exporters or a collision of SHA-512.\<close>

theorem relay_caught_by_exporter:
  assumes firmware: "\<And>rd rep. snp_report g rd = Inr rep \<Longrightarrow> slice rep 0x50 0x90 = rd"
    and signs: "ec_ok (guest_spki g) (guest_sign g N) N" and "length N < 100"
    and line: "concat client_to_relay = nonce_line N" "relay_line client_to_relay = Inr line" "concat relay_to_guest = line"
    and answer: "serve g e_guest relay_to_guest = Inr out" "concat guest_to_relay = out"
    and return: "relay_blob guest_to_relay = Inr out'" "concat relay_to_client = out'"
  shows "\<exists>r. client P get ec_ok N e_client (guest_spki g) relay_to_client = Inr r
    \<and> kb_accepts (cr_key r) \<and> (xb_accepts (cr_exporter r) \<longleftrightarrow> sha512 (N @ e_client) = sha512 (N @ e_guest))
    \<and> (cr_equal r \<longleftrightarrow> e_client = e_guest)"
proof -
  from line relay_line_whole have "concat relay_to_guest = nonce_line N" by simp
  from serve_value [OF this assms(3)] answer(1) obtain r_exp r_key where
      r: "snp_report g (sha512 (N @ e_guest)) = Inr r_exp" "snp_report g (sha512 (N @ guest_spki g)) = Inr r_key"
    and frame: "frame (utf8 (json_dumps (blob_of g N e_guest r_exp r_key))) = Inr out"
    by (auto simp: res_iff)
  have "concat relay_to_client = out" using relay_blob_whole [OF frame answer(2)] return by simp
  with frame obtain r where "client P get ec_ok N e_client (guest_spki g) relay_to_client = Inr r"
      "kb_accepts (cr_key r) \<longleftrightarrow> slice r_key 0x50 0x90 = sha512 (N @ guest_spki g) \<and> ec_ok (guest_spki g) (guest_sign g N) N
         \<and> guest_spki g = guest_spki g"
      "xb_accepts (cr_exporter r) \<longleftrightarrow> slice r_exp 0x50 0x90 = sha512 (N @ e_client)" "cr_equal r \<longleftrightarrow> e_client = e_guest"
    by (rule client_value)
  then show ?thesis using firmware [OF r(1)] firmware [OF r(2)] signs by auto
qed

text \<open>An answer of a small guest fits a frame.\<close>

lemma length_utf8: "length (utf8 s) \<le> 2 * length s"
  by (induction s) (simp_all add: utf8_def utf8_char_def Let_def)

lemma length_quoted: "length (quoted s) \<le> 2 + 6 * length s"
proof -
  have "length (concat (map escape_char s)) \<le> 6 * length s"
    by (induction s) (auto simp: escape_char_def Let_def)
  then show ?thesis by (simp add: quoted_def)
qed

lemma length_b64encode: "length (b64encode b) \<le> 4 * length b"
  by (induction b rule: b64encode.induct) (simp_all add: Let_def)

lemma length_b64_quoted: "length b \<le> n \<Longrightarrow> length (quoted (b64encode b)) \<le> 2 + 24 * n"
  using length_quoted [of "b64encode b"] length_b64encode [of b] by linarith

definition demo_guest :: guest where
  "demo_guest = \<lparr>snp_report = sign_report (demo_chip 7) (zeros 32), guest_spki = [3], guest_sign = (\<lambda>m. [9]),
     cert_pem = [5], protocol_version = ''TLSv1.3''\<rparr>"

lemma demo_frame:
  assumes "length a = 1184" "length b = 1184" "length N \<le> 8" "length e \<le> 32"
  obtains out where "frame (utf8 (json_dumps (blob_of demo_guest N e a b))) = Inr out"
proof -
  let ?q = "\<lambda>x. length (quoted x)"
  have "?q (hex e) \<le> 2 + 6 * 64" using length_quoted [of "hex e"] assms(4) by simp
  moreover have "?q (b64encode a) \<le> 2 + 24 * 1184" "?q (b64encode b) \<le> 2 + 24 * 1184" "?q (b64encode [3]) \<le> 2 + 24"
    "?q (b64encode [9]) \<le> 2 + 24" "?q (b64encode [5]) \<le> 2 + 24"
    using length_b64_quoted [of a 1184] length_b64_quoted [of b 1184] assms(1,2) length_b64_quoted [of "[3]" 1]
      length_b64_quoted [of "[9]" 1] length_b64_quoted [of "[5]" 1] by (simp_all only: list.size) simp_all
  moreover have "?q ''TLSv1.3'' \<le> 44" "?q ''tls_version'' \<le> 200" "?q ''exporter_server'' \<le> 200" "?q ''report_exporter'' \<le> 200"
    "?q ''report_key'' \<le> 200" "?q ''spki'' \<le> 200" "?q ''sig_over_nonce'' \<le> 200" "?q ''cert'' \<le> 200"
    using length_quoted [of "''TLSv1.3''"] length_quoted [of "''tls_version''"] length_quoted [of "''exporter_server''"]
      length_quoted [of "''report_exporter''"] length_quoted [of "''report_key''"] length_quoted [of "''spki''"]
      length_quoted [of "''sig_over_nonce''"] length_quoted [of "''cert''"] by simp_all
  ultimately have "length (json_dumps (blob_of demo_guest N e a b)) < 100000"
    by (simp add: blob_of_def b64_def demo_guest_def)
  then have "length (utf8 (json_dumps (blob_of demo_guest N e a b))) < 2 ^ 32"
    using length_utf8 [of "json_dumps (blob_of demo_guest N e a b)"] by simp
  then show thesis using that by (simp add: frame_def)
qed

lemma demo_report:
  assumes "length rd = 64"
  obtains rep where "snp_report demo_guest rd = Inr rep"
  using genuine_signs [OF demo_genuine assms] by (auto simp: demo_guest_def)

lemma demo_report_data: "snp_report demo_guest rd = Inr rep \<Longrightarrow> length rep = 1184 \<and> slice rep 0x50 0x90 = rd"
  using sign_report_fields(2,3) [of "demo_chip 7" "zeros 32" rd rep]
  by (simp add: demo_guest_def demo_chip_def report_data_of_def)

theorem relay_caught_by_exporter_witness:
  "\<exists>out r. serve demo_guest [1] [nonce_line [7]] = Inr out
     \<and> client demo_pki (\<lambda>_. Ok []) (\<lambda>_ _ _. True) [7] [2] [3] [out] = Inr r
     \<and> kb_accepts (cr_key r) \<and> (xb_accepts (cr_exporter r) \<longleftrightarrow> sha512 [7, 2] = sha512 [7, 1]) \<and> \<not> cr_equal r"
proof -
  obtain a b where ab: "snp_report demo_guest (sha512 ([7] @ [1])) = Inr a" "snp_report demo_guest (sha512 ([7] @ guest_spki demo_guest)) = Inr b"
    using demo_report [of "sha512 ([7] @ [1])"] demo_report [of "sha512 ([7] @ guest_spki demo_guest)"] by (metis length_sha512)
  obtain out where out: "frame (utf8 (json_dumps (blob_of demo_guest [7] [1] a b))) = Inr out"
    by (rule demo_frame [of a b "[7]" "[1]"]) (simp_all only: demo_report_data [OF ab(1)] demo_report_data [OF ab(2)] list.size)
  have s: "serve demo_guest [1] [nonce_line [7]] = Inr out"
    using ab out by (subst serve_value [of _ "[7]"]) simp_all
  have l: "relay_line [nonce_line [7]] = Inr (nonce_line [7])" by (rule relay_line_whole) simp
  have ret: "relay_blob [out] = Inr out" by (rule relay_blob_whole [OF out]) simp
  have fw: "\<And>rd rep. snp_report demo_guest rd = Inr rep \<Longrightarrow> slice rep 0x50 0x90 = rd" using demo_report_data by blast
  have len: "length [7 :: byte] < 100" and c: "concat [nonce_line [7]] = nonce_line [7]" "concat [out] = out" by simp_all
  have "\<exists>r. client demo_pki (\<lambda>_. Ok []) (\<lambda>_ _ _. True) [7] [2] (guest_spki demo_guest) [out] = Inr r \<and> kb_accepts (cr_key r)
      \<and> (xb_accepts (cr_exporter r) \<longleftrightarrow> sha512 ([7] @ [2]) = sha512 ([7] @ [1])) \<and> (cr_equal r \<longleftrightarrow> [2] = [1 :: byte])"
    by (rule relay_caught_by_exporter [where ec_ok = "\<lambda>_ _ _. True", OF fw TrueI len c(1) l c(1) s c(2) ret c(2)])
  then show ?thesis using s by (simp add: demo_guest_def)
qed

end
