(* ===== verification/Attempt.thy ===== *)
theory Attempt
  imports Prelude
begin

text \<open>
  Functions of the verifiers that fill a dictionary inside one \<open>try\<close> block: what was written before
  an exception stays written. A block is a function of the dictionary (a record of optional fields)
  that returns it together with the exception that ended the block, if one did.
\<close>

type_synonym 's block = "'s \<Rightarrow> 's \<times> pyerr option"

definition stop :: "'s block" where
  "stop s = (s, None)"

text \<open>\<open>x = r\<close> where \<open>r\<close> may raise; \<open>out[k] = v\<close>.\<close>

definition need :: "'a res \<Rightarrow> ('a \<Rightarrow> 's block) \<Rightarrow> 's block" where
  "need r k s = (case r of Inl e \<Rightarrow> (s, Some e) | Inr x \<Rightarrow> k x s)"

definition assign :: "('s \<Rightarrow> 's) \<Rightarrow> 's block \<Rightarrow> 's block" where
  "assign u b s = b (u s)"

text \<open>\<open>try: b except Exception as e: out["error"] = e\<close>.\<close>

definition catch :: "(pyerr \<Rightarrow> 's \<Rightarrow> 's) \<Rightarrow> 's block \<Rightarrow> 's \<Rightarrow> 's" where
  "catch h b s = (case b s of (s', None) \<Rightarrow> s' | (s', Some e) \<Rightarrow> h e s')"

text \<open>A check of the package that raises \<open>InvalidSignature\<close> when it fails.\<close>

definition verified :: "bool \<Rightarrow> unit res" where
  "verified b = rassert b (Raised ''InvalidSignature'' '''')"

named_theorems block_simps \<open>running a block\<close>

lemma block_run [block_simps]:
  "stop s = (s, None)"
  "need (Inl e) k s = (s, Some e)"
  "need (Inr x) k s = k x s"
  "assign u b s = b (u s)"
  "need (verified True) k' s = k' () s"
  "need (verified False) k' s = (s, Some (Raised ''InvalidSignature'' ''''))"
  by (simp_all add: stop_def need_def assign_def verified_def)

text \<open>A block that ran to its end: every step returned.\<close>

lemma need_done: "need r k s = (s', None) \<longleftrightarrow> (\<exists>x. r = Inr x \<and> k x s = (s', None))"
  by (cases r) (auto simp: need_def)

lemma assign_done: "assign u b s = (s', None) \<longleftrightarrow> b (u s) = (s', None)"
  by (simp add: assign_def)

lemma stop_done: "stop s = (s', None) \<longleftrightarrow> s' = s"
  by (auto simp: stop_def)

lemma verified_Inr [res_iff]: "verified b = Inr u \<longleftrightarrow> b"
  by (simp add: verified_def rassert_Inr_iff)

lemmas block_done = need_done assign_done stop_done

lemma catch_done: "b s = (s', None) \<Longrightarrow> catch h b s = s'"
  by (simp add: catch_def)

text \<open>When the handler always leaves a mark that the block never leaves, its absence means the end was reached.\<close>

lemma catch_inv:
  assumes "catch h b s = s'" and "\<And>e t. \<not> Q (h e t)" and "Q s'"
  shows "b s = (s', None)"
  using assms by (cases "b s"; cases "snd (b s)") (auto simp: catch_def split: option.splits)

text \<open>A mark that the handler does not set was set by the block; a mark that was not there before a step
  needs the step to return.\<close>

lemma catch_mark: "Q (catch h b s) \<Longrightarrow> (\<And>e t. Q (h e t) \<Longrightarrow> Q t) \<Longrightarrow> Q (fst (b s))"
  by (cases "b s"; cases "snd (b s)") (auto simp: catch_def)

lemma need_mark: "\<not> Q s \<Longrightarrow> Q (fst (need r k s)) \<longleftrightarrow> (\<exists>x. r = Inr x \<and> Q (fst (k x s)))"
  by (cases r) (auto simp: need_def)

end
