(* ===== verification/Jwt.thy ===== *)
theory Jwt
  imports Json Base64 Attempt Certs
begin

text \<open>
  JSON Web Tokens as \<open>gcp_verify.jwt_verify\<close> and the MAA part of \<open>azure_verify.main\<close> read them: three
  base64url parts, the header and the claims as JSON, the key found by \<open>kid\<close> in a JWKS that is fetched
  from an address the token itself names, and the RS256 check. RSA and HTTP are parameters.
  \<open>kid\<close> values are compared as written (a number \<open>1\<close> and a number \<open>1.0\<close> are different here).
\<close>

section \<open>Base64url without padding\<close>

definition b64u :: "string \<Rightarrow> bytes res" where
  "b64u s = urlsafe_b64decode (s @ replicate ((4 - length s mod 4) mod 4) (CHR ''=''))"

text \<open>The form tokens use.\<close>

definition to_urlsafe :: "char \<Rightarrow> char" where
  "to_urlsafe c = (if c = CHR ''+'' then CHR ''-'' else if c = CHR ''/'' then CHR ''_'' else c)"

definition b64u_encode :: "bytes \<Rightarrow> string" where
  "b64u_encode b = map to_urlsafe (filter (\<lambda>c. c \<noteq> CHR ''='') (b64encode b))"

section \<open>Keys and sets of keys\<close>

text \<open>\<open>rsa_load\<close>: \<open>RSAPublicNumbers(e, n).public_key()\<close> raises on numbers that are no key;
  \<open>rsa256_ok (e, n) sig m\<close>: the PKCS1v15 check with SHA-256 returns; \<open>cert_rsa256_ok\<close> the same with the
  key of a certificate.\<close>

record 'c jwt_lib =
  rsa_load :: "int \<times> int \<Rightarrow> unit res"
  rsa256_ok :: "int \<times> int \<Rightarrow> bytes \<Rightarrow> bytes \<Rightarrow> bool"
  cert_rsa256_ok :: "'c \<Rightarrow> bytes \<Rightarrow> bytes \<Rightarrow> bool"

definition b64u_item :: "json \<Rightarrow> string \<Rightarrow> bytes res" where
  "b64u_item v k = rbind (jitem v k) (\<lambda>x. rbind (jstr TypeError x) b64u)"

text \<open>\<open>[k for k in jwks["keys"] if k.get("kid") == hdr.get("kid")][0]\<close>.\<close>

definition find_key :: "json \<Rightarrow> json \<Rightarrow> json res" where
  "find_key jwks kid = rbind (rbind (jitem jwks ''keys'') jiter) (\<lambda>ks.
     rbind (rmap (\<lambda>k. jget k ''kid'') ks) (\<lambda>kids.
     case filter (\<lambda>(k, i). i = kid) (zip ks kids) of [] \<Rightarrow> Err IndexError | (k, i) # _ \<Rightarrow> Ok k))"

text \<open>\<open>rsa.RSAPublicNumbers(e, n).public_key()\<close> from a JWK.\<close>

definition jwk_numbers :: "json \<Rightarrow> (int \<times> int) res" where
  "jwk_numbers key = rbind (b64u_item key ''e'') (\<lambda>e. rbind (b64u_item key ''n'') (\<lambda>n. Ok (from_big e, from_big n)))"

text \<open>\<open>s.rstrip("/")\<close>.\<close>

definition rstrip_slash :: "string \<Rightarrow> string" where
  "rstrip_slash s = rev (dropWhile (\<lambda>c. c = CHR ''/'') (rev s))"

section \<open>The Google tokens\<close>

record jwt_out =
  jo_iss :: json
  jo_alg :: json
  jo_kid :: json
  jo_claims :: "(string \<times> json) list"
  jo_sig_ok :: "bool option"
  jo_jwks_uri :: "json option"
  jo_error :: "pyerr option"

datatype jwt_result = NotJwt string | Token jwt_out

definition CLAIM_NAMES :: "string list" where
  "CLAIM_NAMES = [''hwmodel'', ''swname'', ''dbgstat'', ''secboot'', ''eat_profile'', ''submods'', ''google'', ''sub'', ''aud'', ''iat'', ''exp'']"

definition place_claims :: "json \<Rightarrow> (string \<times> json) list" where
  "place_claims pl = concat (map (\<lambda>k. case pl of JObj m \<Rightarrow> (case map_of m k of Some v \<Rightarrow> [(k, v)] | None \<Rightarrow> []) | _ \<Rightarrow> []) CLAIM_NAMES)"

definition jwt_block :: "'c jwt_lib \<Rightarrow> fetch \<Rightarrow> string list \<Rightarrow> json \<Rightarrow> json \<Rightarrow> jwt_out block" where
  "jwt_block R get parts hdr pl =
     need (rbind (jitem pl ''iss'') (jstr AttributeError)) (\<lambda>iss.
     need (rbind (get (rstrip_slash iss @ ''/.well-known/openid-configuration'')) json_loads_bytes) (\<lambda>disc.
     need (rbind (jitem disc ''jwks_uri'') (jstr AttributeError)) (\<lambda>uri.
     need (rbind (get uri) json_loads_bytes) (\<lambda>jwks.
     need (rbind (jget hdr ''kid'') (find_key jwks)) (\<lambda>key.
     need (rbind (jwk_numbers key) (\<lambda>en. rbind (rsa_load R en) (\<lambda>_. Ok en))) (\<lambda>en.
     need (b64u (parts ! 2)) (\<lambda>sg.
     need (verified (rsa256_ok R en sg (utf8 (parts ! 0 @ [CHR ''.''] @ parts ! 1)))) (\<lambda>_.
     assign (\<lambda>o'. o'\<lparr>jo_sig_ok := Some True\<rparr>) (
     assign (\<lambda>o'. o'\<lparr>jo_jwks_uri := Some (JStr uri)\<rparr>) stop)))))))))"

definition jwt_verify :: "'c jwt_lib \<Rightarrow> fetch \<Rightarrow> string \<Rightarrow> jwt_result res" where
  "jwt_verify R get file = (let tok = strip file; parts = split_on (CHR ''.'') tok in
     if length parts \<noteq> 3 then Ok (NotJwt (take 80 tok))
     else rbind (rbind (b64u (parts ! 0)) json_loads_bytes) (\<lambda>hdr. rbind (rbind (b64u (parts ! 1)) json_loads_bytes) (\<lambda>pl.
       rbind (jget pl ''iss'') (\<lambda>iss. rbind (jget hdr ''alg'') (\<lambda>alg. rbind (jget hdr ''kid'') (\<lambda>kid.
       Ok (Token (catch (\<lambda>e o'. o'\<lparr>jo_error := Some e\<rparr>) (jwt_block R get parts hdr pl)
         \<lparr>jo_iss = iss, jo_alg = alg, jo_kid = kid, jo_claims = place_claims pl, jo_sig_ok = None, jo_jwks_uri = None, jo_error = None\<rparr>))))))))"

section \<open>The Microsoft token\<close>

text \<open>The parts are taken by \<open>tok.split(".")[i]\<close>, so a fourth part is ignored and a missing one raises
  where it is used. \<open>m\<close> collects the claims shown.\<close>

record maa_out =
  mo_iss :: json
  mo_jku :: json
  mo_kid :: json
  mo_type :: json
  mo_status :: json
  mo_tee :: "(string \<times> json) list"
  mo_azurevm :: "(string \<times> json) list"
  mo_sig_ok :: "bool option"
  mo_signer :: "string option"
  mo_error :: "pyerr option"

definition part :: "string list \<Rightarrow> nat \<Rightarrow> string res" where
  "part parts i = (if i < length parts then Ok (parts ! i) else Err IndexError)"

definition TEE_CLAIMS :: "string list" where
  "TEE_CLAIMS = [''x-ms-attestation-type'', ''x-ms-compliance-status'', ''x-ms-sevsnpvm-is-debuggable'', ''x-ms-sevsnpvm-vmpl'',
     ''x-ms-sevsnpvm-reportid'', ''x-ms-sevsnpvm-hostdata'']"

definition VM_CLAIMS :: "string list" where
  "VM_CLAIMS = [''x-ms-azurevm-vmid'', ''x-ms-azurevm-osdistro'', ''x-ms-azurevm-attestation-protocol-ver'']"

definition chosen :: "string list \<Rightarrow> json \<Rightarrow> (string \<times> json) list res" where
  "chosen ks v = (case v of JObj m \<Rightarrow> Ok (filter (\<lambda>(k, x). k \<in> set ks) m) | _ \<Rightarrow> Err AttributeError)"

text \<open>\<open>h.get("jku") or (p["iss"].rstrip("/") + "/certs")\<close>; an address that is no text raises in the package.\<close>

definition maa_address :: "json \<Rightarrow> json \<Rightarrow> string res" where
  "maa_address h p = rbind (jget h ''jku'') (\<lambda>j. if jtruth j then jstr AttributeError j
     else rbind (rbind (jitem p ''iss'') (jstr AttributeError)) (\<lambda>iss. Ok (rstrip_slash iss @ ''/certs'')))"

definition maa_block :: "'c pki \<Rightarrow> 'c jwt_lib \<Rightarrow> fetch \<Rightarrow> string list \<Rightarrow> json \<Rightarrow> json \<Rightarrow> maa_out block" where
  "maa_block P R get parts h p =
     need (rbind (maa_address h p) (\<lambda>url. rbind (get url) json_loads_bytes)) (\<lambda>jwks.
     need (rbind (jget h ''kid'') (find_key jwks)) (\<lambda>key.
     need (rbind (rbind (rbind (rbind (jitem key ''x5c'') jfirst) (jstr TypeError)) b64decode) (load_der P)) (\<lambda>cert.
     need (rbind (part parts 2) b64u) (\<lambda>sg.
     need (verified (cert_rsa256_ok R cert sg (utf8 (join_on (CHR ''.'') (take 2 parts))))) (\<lambda>_.
     assign (\<lambda>m. m\<lparr>mo_sig_ok := Some True\<rparr>) (
     assign (\<lambda>m. m\<lparr>mo_signer := Some (subject P cert)\<rparr>) stop))))))"

definition maa_verify :: "'c pki \<Rightarrow> 'c jwt_lib \<Rightarrow> fetch \<Rightarrow> string \<Rightarrow> maa_out res" where
  "maa_verify P R get file = (let parts = split_on (CHR ''.'') (strip file) in
     rbind (rbind (rbind (part parts 0) b64u) json_loads_bytes) (\<lambda>h. rbind (rbind (rbind (part parts 1) b64u) json_loads_bytes) (\<lambda>p.
     rbind (jget p ''iss'') (\<lambda>iss. rbind (jget h ''jku'') (\<lambda>jku. rbind (jget h ''kid'') (\<lambda>kid.
     rbind (jget p ''x-ms-attestation-type'') (\<lambda>ty. rbind (jget p ''x-ms-compliance-status'') (\<lambda>st.
     rbind (jget p ''x-ms-isolation-tee'') (\<lambda>tee0. let tee = (if jtruth tee0 then tee0 else JObj []) in
     rbind (chosen TEE_CLAIMS tee) (\<lambda>tc. rbind (chosen VM_CLAIMS p) (\<lambda>vc.
     Ok (catch (\<lambda>e m. m\<lparr>mo_error := Some e\<rparr>) (maa_block P R get parts h p)
       \<lparr>mo_iss = iss, mo_jku = jku, mo_kid = kid, mo_type = ty, mo_status = st, mo_tee = tc, mo_azurevm = vc,
        mo_sig_ok = None, mo_signer = None, mo_error = None\<rparr>))))))))))))"


section \<open>Lemmas\<close>

lemma b64encode_shape: "length (b64encode b) mod 4 = 0
    \<and> b64encode b = filter (\<lambda>c. c \<noteq> CHR ''='') (b64encode b) @ replicate ((3 - length b mod 3) mod 3) (CHR ''='')"
proof (induction b rule: b64encode.induct)
  case (4 x y z r)
  have "length (x # y # z # r) = length r + 3" "length (b64encode (x # y # z # r)) = length (b64encode r) + 4" by simp_all
  then have "length (x # y # z # r) mod 3 = length r mod 3" "length (b64encode (x # y # z # r)) mod 4 = length (b64encode r) mod 4"
    by (simp_all only: mod_add_self2)
  moreover have "filter (\<lambda>c. c \<noteq> CHR ''='') (b64encode (x # y # z # r)) @ w =
      take 4 (b64encode (x # y # z # r)) @ filter (\<lambda>c. c \<noteq> CHR ''='') (b64encode r) @ w" for w
    by simp
  moreover have "b64encode (x # y # z # r) = take 4 (b64encode (x # y # z # r)) @ b64encode r" by simp
  ultimately show ?case using 4 by (metis (no_types, lifting))
qed (simp_all add: numeral_2_eq_2)

lemma padding_length:
  assumes "(length t + p) mod 4 = 0" "p < 4"
  shows "(4 - length t mod 4) mod 4 = p"
proof -
  have 1: "r \<in> set [0, 1, 2, 3 :: nat] \<Longrightarrow> q \<in> set [0, 1, 2, 3] \<Longrightarrow> (r + q) mod 4 = 0 \<Longrightarrow> (4 - r) mod 4 = q" for r q
    by (auto dest: dvd_imp_le)
  have 2: "n < 4 \<Longrightarrow> n \<in> set [0, 1, 2, 3 :: nat]" for n by auto
  show ?thesis
    using 2 [OF assms(2)] 2 [of "length t mod 4"] assms(1) by (intro 1) (simp_all only: mod_less_divisor zero_less_numeral mod_add_left_eq)
qed

lemma from_urlsafe: "is_b64_char c \<Longrightarrow> (if to_urlsafe c = CHR ''-'' then CHR ''+'' else if to_urlsafe c = CHR ''_'' then CHR ''/'' else to_urlsafe c) = c"
proof -
  have "list_all (\<lambda>c. (if to_urlsafe c = CHR ''-'' then CHR ''+'' else if to_urlsafe c = CHR ''_'' then CHR ''/'' else to_urlsafe c) = c)
      (CHR ''='' # B64_CHARS)"
    by (simp add: to_urlsafe_def B64_CHARS_def)
  then show "is_b64_char c \<Longrightarrow> ?thesis" by (auto simp only: is_b64_char_def list_all_iff list.set)
qed

text \<open>The decoder reads back the unpadded form.\<close>

lemma b64u_encode [simp]: "b64u (b64u_encode b) = Ok b"
proof -
  let ?t = "filter (\<lambda>c. c \<noteq> CHR ''='') (b64encode b)"
  let ?p = "(3 - length b mod 3) mod 3"
  let ?f = "\<lambda>c. if c = CHR ''-'' then CHR ''+'' else if c = CHR ''_'' then CHR ''/'' else c"
  have s: "b64encode b = ?t @ replicate ?p (CHR ''='')" "length (b64encode b) mod 4 = 0" using b64encode_shape by blast+
  then have "(length ?t + ?p) mod 4 = 0" by (metis length_append length_replicate)
  then have p: "(4 - length (b64u_encode b) mod 4) mod 4 = ?p" unfolding b64u_encode_def length_map by (rule padding_length) simp
  have "map ?f (map to_urlsafe ?t) = ?t"
    using b64encode_chars [of _ b] by (auto simp: from_urlsafe intro!: map_idI simp del: filter_map)
  moreover have "map ?f (replicate n (CHR ''='')) = replicate n (CHR ''='')" for n by (simp add: map_replicate)
  ultimately have "map ?f (b64u_encode b @ replicate ?p (CHR ''='')) = b64encode b"
    by (subst s(1)) (simp only: b64u_encode_def map_append)
  then show ?thesis by (simp add: b64u_def p urlsafe_b64decode_def b64decode_encode)
qed

lemma b64u_encode_chars: "c \<in> set (b64u_encode b) \<Longrightarrow> c \<noteq> CHR ''.'' \<and> \<not> is_space c"
proof -
  have "list_all (\<lambda>c. to_urlsafe c \<noteq> CHR ''.'' \<and> \<not> is_space (to_urlsafe c)) B64_CHARS"
    by (simp add: B64_CHARS_def to_urlsafe_def is_space_def)
  then show "c \<in> set (b64u_encode b) \<Longrightarrow> c \<noteq> CHR ''.'' \<and> \<not> is_space c"
    using b64encode_chars [of _ b] by (auto simp: b64u_encode_def is_b64_char_def list_all_iff)
qed

text \<open>A token of three parts, and its parts.\<close>

definition token :: "bytes \<Rightarrow> bytes \<Rightarrow> bytes \<Rightarrow> string" where
  "token h p sg = b64u_encode h @ [CHR ''.''] @ b64u_encode p @ [CHR ''.''] @ b64u_encode sg"

lemma token_parts: "strip (token h p sg) = token h p sg"
    "split_on (CHR ''.'') (token h p sg) = [b64u_encode h, b64u_encode p, b64u_encode sg]"
proof -
  have "\<not> is_space (CHR ''.'')" by (simp add: is_space_def)
  then show "strip (token h p sg) = token h p sg"
    by (intro strip_no_space) (auto simp: token_def dest: b64u_encode_chars)
  have free: "CHR ''.'' \<notin> set (b64u_encode b)" for b using b64u_encode_chars by blast
  show "split_on (CHR ''.'') (token h p sg) = [b64u_encode h, b64u_encode p, b64u_encode sg]"
    by (simp add: token_def split_on_append split_on_free free)
qed


section \<open>What a confirmed signature means\<close>

lemma find_key_Inr:
  assumes "find_key jwks kid = Inr k"
  shows "\<exists>v ks. jitem jwks ''keys'' = Inr v \<and> jiter v = Inr ks \<and> k \<in> set ks \<and> jget k ''kid'' = Inr kid"
proof -
  from assms obtain v ks kids where v: "jitem jwks ''keys'' = Inr v" "jiter v = Inr ks" "rmap (\<lambda>k. jget k ''kid'') ks = Inr kids"
    and f: "(case filter (\<lambda>(k, i). i = kid) (zip ks kids) of [] \<Rightarrow> Err IndexError | (k, i) # _ \<Rightarrow> Ok k) = Inr k"
    unfolding find_key_def rbind_Inr_iff by blast
  from f obtain xs i where "filter (\<lambda>(k, i). i = kid) (zip ks kids) = (k, i) # xs" by (auto split: list.splits)
  then have "(k, i) \<in> set (filter (\<lambda>(k, i). i = kid) (zip ks kids))" by simp
  then have "(k, kid) \<in> set (zip ks kids)" by auto
  from rmap_zip_member [OF v(3) this] v(1,2) show ?thesis by blast
qed

lemma jwt_block_mark:
  assumes "jo_sig_ok o' = None" "jo_sig_ok (fst (jwt_block R get parts hdr pl o')) = Some True"
  shows "\<exists>iss disc uri jwks kid key en sg. jitem pl ''iss'' = Inr (JStr iss)
    \<and> rbind (get (rstrip_slash iss @ ''/.well-known/openid-configuration'')) json_loads_bytes = Inr disc
    \<and> jitem disc ''jwks_uri'' = Inr (JStr uri) \<and> rbind (get uri) json_loads_bytes = Inr jwks
    \<and> jget hdr ''kid'' = Inr kid \<and> find_key jwks kid = Inr key \<and> jwk_numbers key = Inr en
    \<and> b64u (parts ! 2) = Inr sg \<and> rsa256_ok R en sg (utf8 (parts ! 0 @ [CHR ''.''] @ parts ! 1))"
proof -
  note mark = need_mark [where Q = "\<lambda>o'. jo_sig_ok o' = Some True" and s = o']
  have n: "\<not> jo_sig_ok o' = Some True" using assms(1) by simp
  from assms(2) [unfolded jwt_block_def, simplified mark [OF n]] show ?thesis
    unfolding rbind_Inr_iff jstr_Inr verified_Inr by (elim exE conjE) (hypsubst, blast)
qed

lemma jwt_block_claims:
  "jo_claims (catch (\<lambda>e o'. o'\<lparr>jo_error := Some e\<rparr>) (jwt_block R get parts hdr pl)
     \<lparr>jo_iss = iss, jo_alg = alg, jo_kid = kid, jo_claims = cs, jo_sig_ok = None, jo_jwks_uri = None, jo_error = None\<rparr>) = cs"
  by (simp add: jwt_block_def catch_def need_def assign_def stop_def split: sum.split)

lemma find_key_Ok:
  assumes "jitem jwks ''keys'' = Inr (JList (pre @ key # post))" "jget key ''kid'' = Inr kid"
    and "\<And>k. k \<in> set pre \<Longrightarrow> \<exists>i. jget k ''kid'' = Inr i \<and> i \<noteq> kid" "\<And>k. k \<in> set post \<Longrightarrow> \<exists>i. jget k ''kid'' = Inr i"
  shows "find_key jwks kid = Inr key"
proof -
  let ?g = "\<lambda>k. case jget k ''kid'' of Inl e \<Rightarrow> JNull | Inr i \<Rightarrow> i"
  have total: "k \<in> set (pre @ key # post) \<Longrightarrow> jget k ''kid'' = Inr (?g k)" for k
    using assms(2) assms(3) [of k] assms(4) [of k] by auto
  have ids: "rmap (\<lambda>k. jget k ''kid'') (pre @ key # post) = Inr (map ?g (pre @ key # post))"
    using total by (rule rmap_Ok_total)
  have "filter (\<lambda>(k, i). i = kid) (zip pre (map ?g pre)) = []"
    using assms(3) by (auto simp: filter_empty_conv zip_map2 set_zip) (metis nth_mem sum.case(2))
  then show ?thesis by (simp add: find_key_def assms(1,2) jiter_def ids)
qed

lemma three_parts:
  assumes "length (split_on c s) = 3"
  obtains h p sg where "split_on c s = [h, p, sg]" "s = h @ [c] @ p @ [c] @ sg"
proof -
  from assms obtain h p sg where "split_on c s = [h, p, sg]" by (auto simp: length_Suc_conv numeral_3_eq_3)
  moreover from this have "s = h @ [c] @ p @ [c] @ sg" using join_split [of c s] by simp
  ultimately show thesis by (rule that)
qed


lemma genuine_accepted:
  assumes json: "json_ok (JObj hm)" "json_ok (JObj pm)" "map_of pm ''iss'' = Some (JStr iss)" "map_of hm ''kid'' = Some kid"
    and disc: "rbind (get (rstrip_slash iss @ ''/.well-known/openid-configuration'')) json_loads_bytes = Inr (JObj dm)"
      "map_of dm ''jwks_uri'' = Some (JStr uri)"
    and jwks: "rbind (get uri) json_loads_bytes = Inr (JObj jm)" "map_of jm ''keys'' = Some (JList (pre @ JObj km # post))"
      "map_of km ''kid'' = Some kid"
    and others: "\<And>k. k \<in> set pre \<Longrightarrow> \<exists>i. jget k ''kid'' = Inr i \<and> i \<noteq> kid" "\<And>k. k \<in> set post \<Longrightarrow> \<exists>i. jget k ''kid'' = Inr i"
    and key: "map_of km ''e'' = Some (JStr (b64u_encode e))" "map_of km ''n'' = Some (JStr (b64u_encode n))"
      "rsa_load R (from_big e, from_big n) = Inr ()"
    and sig: "rsa256_ok R (from_big e, from_big n) sg
        (utf8 (b64u_encode (utf8 (json_dumps (JObj hm))) @ [CHR ''.''] @ b64u_encode (utf8 (json_dumps (JObj pm)))))"
  shows "\<exists>o'. jwt_verify R get (token (utf8 (json_dumps (JObj hm))) (utf8 (json_dumps (JObj pm))) sg) = Inr (Token o')
    \<and> jo_sig_ok o' = Some True \<and> jo_error o' = None \<and> jo_claims o' = place_claims (JObj pm)"
proof -
  have item: "jitem (JObj m) k = of_option (KeyError k) (map_of m k)" for m k by (simp add: jitem_def)
  have k: "find_key (JObj jm) kid = Inr (JObj km)"
    by (rule find_key_Ok [OF _ _ others]) (simp_all add: item jwks jget_def)
  have hk: "jget (JObj hm) ''kid'' = Inr kid" "jget (JObj pm) ''iss'' = Inr (JStr iss)" "\<exists>x. jget (JObj hm) ''alg'' = Inr x"
    by (simp_all add: jget_def json)
  have num: "jwk_numbers (JObj km) = Inr (from_big e, from_big n)"
    by (simp add: jwk_numbers_def b64u_item_def item key jstr_def)
  show ?thesis using hk
    by (auto simp: jwt_verify_def token_parts Let_def json_loads_bytes_dumps [OF json(1)] json_loads_bytes_dumps [OF json(2)]
        catch_def jwt_block_def block_simps item json disc jwks jstr_def k num key sig [unfolded append_Cons append_Nil] simp del: json_ok.simps json_dumps.simps)
qed


section \<open>Properties\<close>

text \<open>C23: What a confirmed Google token means. If \<open>jwt_verify\<close> reports a good signature, the file is three
  base64url parts; the issuer named in the claims published, through its discovery document, a key set
  with a key under the header's \<open>kid\<close>; that key verifies the third part over the first two as they stand
  in the file; and the claims shown are those of the signed second part.\<close>

theorem jwt_verdict_sound:
  assumes "jwt_verify R get file = Inr (Token o')" and "jo_sig_ok o' = Some True"
  shows "\<exists>h p s hdr pl iss disc uri jwks kid key en sg. strip file = h @ [CHR ''.''] @ p @ [CHR ''.''] @ s
    \<and> rbind (b64u h) json_loads_bytes = Inr hdr \<and> rbind (b64u p) json_loads_bytes = Inr pl
    \<and> jitem pl ''iss'' = Inr (JStr iss)
    \<and> rbind (get (rstrip_slash iss @ ''/.well-known/openid-configuration'')) json_loads_bytes = Inr disc
    \<and> jitem disc ''jwks_uri'' = Inr (JStr uri) \<and> rbind (get uri) json_loads_bytes = Inr jwks
    \<and> jget hdr ''kid'' = Inr kid \<and> find_key jwks kid = Inr key \<and> jget key ''kid'' = Inr kid
    \<and> jwk_numbers key = Inr en \<and> b64u s = Inr sg \<and> rsa256_ok R en sg (utf8 (h @ [CHR ''.''] @ p))
    \<and> jo_claims o' = place_claims pl"
proof -
  let ?parts = "split_on (CHR ''.'') (strip file)"
  from assms(1) have len: "length ?parts = 3" by (auto simp: jwt_verify_def Let_def split: if_splits)
  from assms(1) len obtain hdr pl iss alg kid where
      hp: "rbind (b64u (?parts ! 0)) json_loads_bytes = Inr hdr" "rbind (b64u (?parts ! 1)) json_loads_bytes = Inr pl"
    and o': "o' = catch (\<lambda>e o'. o'\<lparr>jo_error := Some e\<rparr>) (jwt_block R get ?parts hdr pl)
         \<lparr>jo_iss = iss, jo_alg = alg, jo_kid = kid, jo_claims = place_claims pl, jo_sig_ok = None, jo_jwks_uri = None, jo_error = None\<rparr>"
      (is "_ = catch _ _ ?s")
    by (simp add: jwt_verify_def Let_def rbind_Inr_iff) blast
  from len obtain h p s where parts: "?parts = [h, p, s]" "strip file = h @ [CHR ''.''] @ p @ [CHR ''.''] @ s"
    by (rule three_parts)
  have "jo_sig_ok (fst (jwt_block R get ?parts hdr pl ?s)) = Some True"
    using catch_mark [where Q = "\<lambda>o'. jo_sig_ok o' = Some True", OF assms(2) [unfolded o']] by simp
  from jwt_block_mark [OF _ this] obtain iss disc uri jwks kid key en sg where
      m: "jitem pl ''iss'' = Inr (JStr iss)"
      "rbind (get (rstrip_slash iss @ ''/.well-known/openid-configuration'')) json_loads_bytes = Inr disc"
      "jitem disc ''jwks_uri'' = Inr (JStr uri)" "rbind (get uri) json_loads_bytes = Inr jwks"
      "jget hdr ''kid'' = Inr kid" "find_key jwks kid = Inr key" "jwk_numbers key = Inr en"
      "b64u s = Inr sg" "rsa256_ok R en sg (utf8 (h @ [CHR ''.''] @ p))"
    by (auto simp: parts(1))
  moreover have "jget key ''kid'' = Inr kid" using find_key_Inr [OF m(6)] by blast
  moreover have "jo_claims o' = place_claims pl"
    unfolding o' by (rule jwt_block_claims)
  ultimately show ?thesis using parts hp by (simp only: nth_Cons_0 nth_Cons_Suc One_nat_def) blast
qed


text \<open>A token that was issued properly is confirmed. For a token whose parts are the base64url forms of a
  JSON header, of JSON claims and of a signature, whose issuer serves a discovery document and a key set in
  which the first key under the header's \<open>kid\<close> verifies the signature, the verdict is a good signature and
  no error.\<close>

theorem jwt_genuine_accepted:
  assumes json: "json_ok (JObj hm)" "json_ok (JObj pm)" "map_of pm ''iss'' = Some (JStr iss)" "map_of hm ''kid'' = Some kid"
    and disc: "rbind (get (rstrip_slash iss @ ''/.well-known/openid-configuration'')) json_loads_bytes = Inr (JObj dm)"
      "map_of dm ''jwks_uri'' = Some (JStr uri)"
    and jwks: "rbind (get uri) json_loads_bytes = Inr (JObj jm)" "map_of jm ''keys'' = Some (JList (pre @ JObj km # post))"
      "map_of km ''kid'' = Some kid"
    and others: "\<And>k. k \<in> set pre \<Longrightarrow> \<exists>i. jget k ''kid'' = Inr i \<and> i \<noteq> kid" "\<And>k. k \<in> set post \<Longrightarrow> \<exists>i. jget k ''kid'' = Inr i"
    and key: "map_of km ''e'' = Some (JStr (b64u_encode e))" "map_of km ''n'' = Some (JStr (b64u_encode n))"
      "rsa_load R (from_big e, from_big n) = Inr ()"
    and sig: "rsa256_ok R (from_big e, from_big n) sg
        (utf8 (b64u_encode (utf8 (json_dumps (JObj hm))) @ [CHR ''.''] @ b64u_encode (utf8 (json_dumps (JObj pm)))))"
  shows "\<exists>o'. jwt_verify R get (token (utf8 (json_dumps (JObj hm))) (utf8 (json_dumps (JObj pm))) sg) = Inr (Token o')
    \<and> jo_sig_ok o' = Some True \<and> jo_error o' = None \<and> jo_claims o' = place_claims (JObj pm)"
  by (rule genuine_accepted [OF assms])

text \<open>A small issuer for the witnesses.\<close>

definition demo_jwk :: "(string \<times> json) list" where
  "demo_jwk = [(''kid'', JStr ''k''), (''e'', JStr (b64u_encode [3])), (''n'', JStr (b64u_encode [33]))]"

definition demo_jwks :: json where
  "demo_jwks = JObj [(''keys'', JList [JObj demo_jwk])]"

definition demo_idp :: fetch where
  "demo_idp url = Ok (utf8 (json_dumps (if url = ''u'' then demo_jwks else JObj [(''jwks_uri'', JStr ''u'')])))"

definition demo_rsa :: "nat jwt_lib" where
  "demo_rsa = \<lparr>rsa_load = (\<lambda>_. Ok ()), rsa256_ok = (\<lambda>en sg m. en = (3, 33) \<and> sg = [9]), cert_rsa256_ok = (\<lambda>c sg m. sg = [9])\<rparr>"

definition demo_header :: "(string \<times> json) list" where
  "demo_header = [(''alg'', JStr ''RS256''), (''kid'', JStr ''k'')]"

definition demo_claims :: "(string \<times> json) list" where
  "demo_claims = [(''iss'', JStr ''i''), (''sub'', JStr ''vm'')]"

definition demo_token :: string where
  "demo_token = token (utf8 (json_dumps (JObj demo_header))) (utf8 (json_dumps (JObj demo_claims))) [9]"

lemmas demo_issuer = demo_jwk_def demo_jwks_def demo_idp_def demo_rsa_def demo_header_def demo_claims_def

lemma demo_idp_serves:
  "rbind (demo_idp ''u'') json_loads_bytes = Inr demo_jwks"
  "url \<noteq> ''u'' \<Longrightarrow> rbind (demo_idp url) json_loads_bytes = Inr (JObj [(''jwks_uri'', JStr ''u'')])"
  by (simp_all add: demo_idp_def demo_jwks_def demo_jwk_def json_loads_bytes_dumps del: json_dumps.simps)

lemma demo_place: "place_claims (JObj demo_claims) = [(''sub'', JStr ''vm'')]"
  by (simp add: place_claims_def CLAIM_NAMES_def demo_claims_def)

lemma demo_discovery:
  "rbind (demo_idp (rstrip_slash ''i'' @ ''/.well-known/openid-configuration'')) json_loads_bytes = Inr (JObj [(''jwks_uri'', JStr ''u'')])"
  by (rule demo_idp_serves(2)) (simp add: rstrip_slash_def)

lemma demo_key_set:
  "rbind (demo_idp ''u'') json_loads_bytes = Inr (JObj [(''keys'', JList [JObj demo_jwk])])"
  using demo_idp_serves(1) by (simp add: demo_jwks_def)

lemma demo_token_confirmed:
  obtains o' where "jwt_verify demo_rsa demo_idp demo_token = Inr (Token o')" "jo_sig_ok o' = Some True"
proof -
  have "\<exists>o'. jwt_verify demo_rsa demo_idp demo_token = Inr (Token o') \<and> jo_sig_ok o' = Some True \<and> jo_error o' = None
      \<and> jo_claims o' = place_claims (JObj demo_claims)"
    unfolding demo_token_def
    by (rule genuine_accepted [OF _ _ _ _ demo_discovery _ demo_key_set, where pre = "[]" and km = demo_jwk and post = "[]" and kid = "JStr ''k''" and e = "[3]" and n = "[33]"])
      (simp_all add: demo_issuer from_big_def del: b64encode.simps)
  then show thesis using that by blast
qed

theorem jwt_genuine_accepted_witness:
  "\<exists>o'. jwt_verify demo_rsa demo_idp demo_token = Inr (Token o') \<and> jo_sig_ok o' = Some True \<and> jo_claims o' = [(''sub'', JStr ''vm'')]"
proof -
  have "\<exists>o'. jwt_verify demo_rsa demo_idp demo_token = Inr (Token o') \<and> jo_sig_ok o' = Some True \<and> jo_error o' = None
      \<and> jo_claims o' = place_claims (JObj demo_claims)"
    unfolding demo_token_def
    by (rule jwt_genuine_accepted [OF _ _ _ _ demo_discovery _ demo_key_set, where pre = "[]" and km = demo_jwk and post = "[]" and kid = "JStr ''k''" and e = "[3]" and n = "[33]"])
      (simp_all add: demo_issuer from_big_def del: b64encode.simps)
  then show ?thesis by (auto simp: demo_place)
qed

theorem jwt_verdict_sound_witness:
  "\<exists>o' h p s sg en. jwt_verify demo_rsa demo_idp demo_token = Inr (Token o') \<and> strip demo_token = h @ [CHR ''.''] @ p @ [CHR ''.''] @ s
     \<and> b64u s = Inr sg \<and> rsa256_ok demo_rsa en sg (utf8 (h @ [CHR ''.''] @ p))"
proof -
  obtain o' where o': "jwt_verify demo_rsa demo_idp demo_token = Inr (Token o')" "jo_sig_ok o' = Some True" by (rule demo_token_confirmed)
  from jwt_verdict_sound [OF o'] obtain h p s en sg where "strip demo_token = h @ [CHR ''.''] @ p @ [CHR ''.''] @ s"
      "b64u s = Inr sg" "rsa256_ok demo_rsa en sg (utf8 (h @ [CHR ''.''] @ p))"
    by blast
  with o'(1) show ?thesis by blast
qed

end
