(* ===== verification/Tpm.thy ===== *)
theory Tpm
  imports Jwt
begin

text \<open>
  The TPM 2.0 structures the verifiers take apart by hand: the RSA public area of \<open>nitrotpm_verify.py\<close>
  (\<open>tpm2b_public_rsa\<close>), and the attestation structure of a quote as \<open>nitrotpm_verify.py\<close> and
  \<open>azure_verify.py\<close> read it. Encoders written after the TPM specification give the round trips.
\<close>

section \<open>The public area\<close>

text \<open>\<open>tpm2b_public_rsa\<close>, its index \<open>i\<close> written out step by step.\<close>

definition tpm2b_public_rsa :: "bytes \<Rightarrow> (int \<times> int) res" where
  "tpm2b_public_rsa b =
     rbind (unpack_be 2 b 2) (\<lambda>ty. rbind (unpack_be 2 b 4) (\<lambda>name_alg.
     let i = 10 in rbind (unpack_be 2 b i) (\<lambda>pol. let i = i + 2 + nat pol in
     rbind (rassert (ty = 1) ValueError) (\<lambda>_.
     rbind (unpack_be 2 b i) (\<lambda>sym. let i = i + 2; i = (if sym \<noteq> 0x10 then i + 4 else i) in
     rbind (unpack_be 2 b i) (\<lambda>scheme. let i = i + 2; i = (if scheme \<noteq> 0x10 then i + 2 else i) in
     rbind (unpack_be 2 b i) (\<lambda>key_bits. let i = i + 2 in
     rbind (unpack_be 4 b i) (\<lambda>exp0. let exp = (if exp0 = 0 then 65537 else exp0); i = i + 4 in
     rbind (unpack_be 2 b i) (\<lambda>n. let i = i + 2 in
     Ok (from_big (slice b i (i + nat n)), exp))))))))))"

text \<open>An RSA public area as a TPM writes it.\<close>

record rsa_public =
  rp_name_alg :: nat
  rp_attributes :: nat
  rp_policy :: bytes
  rp_symmetric :: "(nat \<times> nat \<times> nat) option"
  rp_scheme :: "(nat \<times> nat) option"
  rp_key_bits :: nat
  rp_exponent :: nat
  rp_modulus :: bytes

definition u16 :: "nat \<Rightarrow> bytes" where "u16 n = to_big 2 (int n)"
definition u32 :: "nat \<Rightarrow> bytes" where "u32 n = to_big 4 (int n)"

definition rsa_public_area :: "rsa_public \<Rightarrow> bytes" where
  "rsa_public_area k = u16 1 @ u16 (rp_name_alg k) @ u32 (rp_attributes k) @ u16 (length (rp_policy k)) @ rp_policy k
     @ (case rp_symmetric k of None \<Rightarrow> u16 0x10 | Some (a, n, m) \<Rightarrow> u16 a @ u16 n @ u16 m)
     @ (case rp_scheme k of None \<Rightarrow> u16 0x10 | Some (a, h) \<Rightarrow> u16 a @ u16 h)
     @ u16 (rp_key_bits k) @ u32 (rp_exponent k) @ u16 (length (rp_modulus k)) @ rp_modulus k"

definition tpm2b :: "bytes \<Rightarrow> bytes" where
  "tpm2b a = u16 (length a) @ a"

definition rsa_public_ok :: "rsa_public \<Rightarrow> bool" where
  "rsa_public_ok k \<longleftrightarrow> length (rp_policy k) < 65536 \<and> length (rp_modulus k) < 65536 \<and> rp_exponent k < 2 ^ 32
     \<and> (case rp_symmetric k of None \<Rightarrow> True | Some (a, _, _) \<Rightarrow> a < 65536 \<and> a \<noteq> 0x10)
     \<and> (case rp_scheme k of None \<Rightarrow> True | Some (a, _) \<Rightarrow> a < 65536 \<and> a \<noteq> 0x10)"

section \<open>The quote\<close>

text \<open>The extraData of a \<open>TPMS_ATTEST\<close>, with the index after it, as both scripts find it.\<close>

definition attest_extra :: "bytes \<Rightarrow> (bytes \<times> nat) res" where
  "attest_extra m = rbind (unpack_be 2 m 6) (\<lambda>qn. let i = 6 + 2 + nat qn in
     rbind (unpack_be 2 m i) (\<lambda>en. let i = i + 2 in Ok (slice m i (i + nat en), i + nat en)))"

text \<open>The loop over the PCR selections: hash algorithm and bitmap.\<close>

fun pcr_selections :: "bytes \<Rightarrow> nat \<Rightarrow> nat \<Rightarrow> ((int \<times> bytes) list \<times> nat) res" where
  "pcr_selections m 0 i = Ok ([], i)"
| "pcr_selections m (Suc c) i = rbind (unpack_be 2 m i) (\<lambda>alg. rbind (unpack_be 1 m (i + 2)) (\<lambda>sz.
     let i = i + 3 in rbind (pcr_selections m c (i + nat sz)) (\<lambda>(sel, j). Ok ((alg, slice m i (i + nat sz)) # sel, j))))"

text \<open>From the clock on: \<open>clockInfo\<close> (17 bytes) and \<open>firmwareVersion\<close> (8) are skipped.\<close>

definition quote_info :: "bytes \<Rightarrow> nat \<Rightarrow> ((int \<times> bytes) list \<times> bytes) res" where
  "quote_info m i0 = (let i = i0 + 8 + 4 + 4 + 1 + 8 in
     rbind (unpack_be 4 m i) (\<lambda>cnt. rbind (pcr_selections m (nat cnt) (i + 4)) (\<lambda>(sel, j).
     rbind (unpack_be 2 m j) (\<lambda>dn. Ok (sel, slice m (j + 2) (j + 2 + nat dn))))))"

text \<open>\<open>TPMT_SIGNATURE\<close>: algorithm, hash, size, and the signature.\<close>

definition tpmt_signature :: "bytes \<Rightarrow> (int \<times> bytes) res" where
  "tpmt_signature sg = rbind (unpack_be 2 sg 0) (\<lambda>alg. rbind (unpack_be 2 sg 2) (\<lambda>halg. rbind (unpack_be 2 sg 4) (\<lambda>sz.
     Ok (alg, slice sg 6 (6 + nat sz)))))"

record attest =
  at_magic :: bytes
  at_type :: nat
  at_signer :: bytes
  at_extra :: bytes
  at_clock :: bytes
  at_firmware :: bytes
  at_pcrs :: "(nat \<times> bytes) list"
  at_digest :: bytes

definition TPM_GENERATED :: bytes where
  "TPM_GENERATED = [0xff, 0x54, 0x43, 0x47]"

definition attest_bytes :: "attest \<Rightarrow> bytes" where
  "attest_bytes a = at_magic a @ u16 (at_type a) @ tpm2b (at_signer a) @ tpm2b (at_extra a) @ at_clock a @ at_firmware a
     @ u32 (length (at_pcrs a)) @ concat (map (\<lambda>(h, s). u16 h @ [word_of_nat (length s)] @ s) (at_pcrs a)) @ tpm2b (at_digest a)"

definition attest_ok :: "attest \<Rightarrow> bool" where
  "attest_ok a \<longleftrightarrow> length (at_magic a) = 4 \<and> length (at_signer a) < 65536 \<and> length (at_extra a) < 65536 \<and> length (at_clock a) = 17
     \<and> length (at_firmware a) = 8 \<and> length (at_pcrs a) < 2 ^ 32 \<and> list_all (\<lambda>(h, s). h < 65536 \<and> length s < 256) (at_pcrs a)
     \<and> length (at_digest a) < 65536"

section \<open>Lemmas\<close>

lemma from_big_u16 [simp]: "n < 65536 \<Longrightarrow> from_big (u16 n) = int n"
  unfolding u16_def by (rule from_big_to_big) simp_all

lemma from_big_u32 [simp]: "n < 2 ^ 32 \<Longrightarrow> from_big (u32 n) = int n"
  unfolding u32_def by (rule from_big_to_big) simp_all

lemma length_u [simp]: "length (u16 n) = 2" "length (u32 n) = 4"
  by (simp_all add: u16_def u32_def)

text \<open>A field is read where it was written: what remains after it is what was written after it.\<close>

lemma bytes_drop:
  assumes "drop i m = x @ c"
  shows "slice m i (i + length x) = x" "drop (i + length x) m = c"
  using assms by (simp_all add: slice_def add.commute [of i] flip: drop_drop)

lemma unpack_drop:
  assumes "drop i m = x @ c" "0 < length x"
  shows "unpack_be (length x) m i = Inr (from_big x)"
proof -
  have "length (drop i m) = length x + length c" by (simp only: assms(1) length_append)
  then have "i + length x \<le> length m" using assms(2) unfolding length_drop by linarith
  then show ?thesis using bytes_drop(1) [OF assms(1)] by (simp add: unpack_be_def)
qed

lemma u16_drop:
  assumes "drop i m = u16 n @ c" "n < 65536"
  shows "unpack_be 2 m i = Inr (int n)" "drop (i + 2) m = c"
  using unpack_drop [OF assms(1)] bytes_drop(2) [OF assms(1)] assms(2) by simp_all

lemma u32_drop:
  assumes "drop i m = u32 n @ c" "n < 2 ^ 32"
  shows "unpack_be 4 m i = Inr (int n)" "drop (i + 4) m = c"
  using unpack_drop [OF assms(1)] bytes_drop(2) [OF assms(1)] assms(2) by simp_all

lemma tpm2b_drop:
  assumes "drop i m = tpm2b x @ c" "length x < 65536"
  shows "unpack_be 2 m i = Inr (int (length x))" "slice m (i + 2) (i + 2 + length x) = x" "drop (i + 2 + length x) m = c"
proof -
  from assms(1) have "drop i m = u16 (length x) @ x @ c" by (simp add: tpm2b_def)
  note 1 = u16_drop [OF this assms(2)]
  show "unpack_be 2 m i = Inr (int (length x))" by (rule 1)
  show "slice m (i + 2) (i + 2 + length x) = x" "drop (i + 2 + length x) m = c" using bytes_drop [OF 1(2)] by simp_all
qed

lemma symmetric_drop:
  assumes "drop i m = (case s of None \<Rightarrow> u16 0x10 | Some (a, n, md) \<Rightarrow> u16 a @ u16 n @ u16 md) @ c"
    and "case s of None \<Rightarrow> True | Some (a, _, _) \<Rightarrow> a < 65536 \<and> a \<noteq> 0x10"
  obtains v where "unpack_be 2 m i = Inr v" "drop (if v \<noteq> 0x10 then i + 2 + 4 else i + 2) m = c"
proof (cases s)
  case None
  with assms(1) have "drop i m = u16 0x10 @ c" by simp
  from u16_drop [OF this] that show thesis by simp
next
  case (Some x)
  obtain a n md where x: "x = (a, n, md)" by (cases x)
  have a: "a < 65536" "a \<noteq> 0x10" using assms(2) by (simp_all add: Some x)
  from assms(1) have "drop i m = u16 a @ (u16 n @ u16 md) @ c" by (simp add: Some x)
  note 1 = u16_drop [OF this a(1)]
  have "drop (i + 2 + 4) m = c" using bytes_drop(2) [OF 1(2)] by simp
  with 1(1) a(2) that show thesis by auto
qed

lemma scheme_drop:
  assumes "drop i m = (case s of None \<Rightarrow> u16 0x10 | Some (a, h) \<Rightarrow> u16 a @ u16 h) @ c"
    and "case s of None \<Rightarrow> True | Some (a, _) \<Rightarrow> a < 65536 \<and> a \<noteq> 0x10"
  obtains v where "unpack_be 2 m i = Inr v" "drop (if v \<noteq> 0x10 then i + 2 + 2 else i + 2) m = c"
proof (cases s)
  case None
  with assms(1) have "drop i m = u16 0x10 @ c" by simp
  from u16_drop [OF this] that show thesis by simp
next
  case (Some x)
  obtain a h where x: "x = (a, h)" by (cases x)
  have a: "a < 65536" "a \<noteq> 0x10" using assms(2) by (simp_all add: Some x)
  from assms(1) have "drop i m = u16 a @ u16 h @ c" by (simp add: Some x)
  note 1 = u16_drop [OF this a(1)]
  have "drop (i + 2 + 2) m = c" using bytes_drop(2) [OF 1(2)] by simp
  with 1(1) a(2) that show thesis by auto
qed

lemma public_reads:
  assumes "rsa_public_ok k"
  shows "tpm2b_public_rsa (tpm2b (rsa_public_area k) @ t)
     = Inr (from_big (rp_modulus k), if rp_exponent k = 0 then 65537 else int (rp_exponent k))"
proof -
  let ?i = "12 + length (rp_policy k)"
  define m where "m = tpm2b (rsa_public_area k) @ t"
  note ok = assms [unfolded rsa_public_ok_def]
  define R where "R = u16 (rp_key_bits k) @ u32 (rp_exponent k) @ tpm2b (rp_modulus k) @ t"
  have d2: "drop 2 m = u16 1 @ u16 (rp_name_alg k) @ u32 (rp_attributes k) @ tpm2b (rp_policy k)
     @ (case rp_symmetric k of None \<Rightarrow> u16 0x10 | Some (a, n, md) \<Rightarrow> u16 a @ u16 n @ u16 md)
     @ (case rp_scheme k of None \<Rightarrow> u16 0x10 | Some (a, h) \<Rightarrow> u16 a @ u16 h) @ R"
    by (simp add: m_def R_def rsa_public_area_def tpm2b_def)
  have u: "unpack_be 2 m 2 = Inr 1" using u16_drop(1) [OF d2] by simp
  note d4 = bytes_drop(2) [OF d2, simplified]
  have n: "unpack_be 2 m 4 = Inr (from_big (u16 (rp_name_alg k)))" using unpack_drop [OF d4] by simp
  note d6 = bytes_drop(2) [OF d4, simplified]
  note d10 = bytes_drop(2) [OF d6, simplified]
  have p: "unpack_be 2 m 10 = Inr (int (length (rp_policy k)))" using tpm2b_drop(1) [OF d10] ok by simp
  have "drop ?i m = (case rp_symmetric k of None \<Rightarrow> u16 0x10 | Some (a, n, md) \<Rightarrow> u16 a @ u16 n @ u16 md)
     @ (case rp_scheme k of None \<Rightarrow> u16 0x10 | Some (a, h) \<Rightarrow> u16 a @ u16 h) @ R"
    using tpm2b_drop(3) [OF d10] ok by simp
  then obtain sym where s: "unpack_be 2 m ?i = Inr sym" and ds: "drop (if sym \<noteq> 0x10 then ?i + 2 + 4 else ?i + 2) m
     = (case rp_scheme k of None \<Rightarrow> u16 0x10 | Some (a, h) \<Rightarrow> u16 a @ u16 h) @ R"
    by (rule symmetric_drop) (use ok in blast)
  let ?j = "if sym \<noteq> 0x10 then ?i + 2 + 4 else ?i + 2"
  from ds obtain sch where c: "unpack_be 2 m ?j = Inr sch" and dc: "drop (if sch \<noteq> 0x10 then ?j + 2 + 2 else ?j + 2) m = R"
    by (rule scheme_drop) (use ok in blast)
  define l where "l = (if sch \<noteq> 0x10 then ?j + 2 + 2 else ?j + 2)"
  have dl: "drop l m = u16 (rp_key_bits k) @ u32 (rp_exponent k) @ tpm2b (rp_modulus k) @ t" using dc by (simp add: R_def l_def)
  have kb: "unpack_be 2 m l = Inr (from_big (u16 (rp_key_bits k)))" using unpack_drop [OF dl] by simp
  have de: "drop (l + 2) m = u32 (rp_exponent k) @ tpm2b (rp_modulus k) @ t" using bytes_drop(2) [OF dl] by simp
  have e: "unpack_be 4 m (l + 2) = Inr (int (rp_exponent k))" using u32_drop(1) [OF de] ok by simp
  have dm: "drop (l + 2 + 4) m = tpm2b (rp_modulus k) @ t" using bytes_drop(2) [OF de] by simp
  note md = tpm2b_drop(1,2) [OF dm]
  show ?thesis
    using s c kb e md ok unfolding l_def m_def [symmetric]
    by (cases "sym = 0x10"; cases "sch = 0x10") (simp_all add: tpm2b_public_rsa_def u n p add.assoc)
qed


lemma selections_drop:
  assumes "drop i m = concat (map (\<lambda>(h, s). u16 h @ [word_of_nat (length s)] @ s) ps) @ c"
    and "list_all (\<lambda>(h, s). h < 65536 \<and> length s < 256) ps"
  obtains j where "pcr_selections m (length ps) i = Inr (map (\<lambda>(h, s). (int h, s)) ps, j)" "drop j m = c"
proof -
  have "\<exists>j. pcr_selections m (length ps) i = Inr (map (\<lambda>(h, s). (int h, s)) ps, j) \<and> drop j m = c"
    using assms
  proof (induction ps arbitrary: i)
    case (Cons p ps)
    obtain h s where p: "p = (h, s)" by (cases p)
    have len: "h < 65536" "length s < 256" using Cons.prems(2) by (simp_all add: p)
    let ?z = "[word_of_nat (length s)] :: bytes" and ?r = "concat (map (\<lambda>(h, s). u16 h @ [word_of_nat (length s)] @ s) ps) @ c"
    from Cons.prems(1) have d: "drop i m = u16 h @ ?z @ s @ ?r" by (simp add: p)
    have u: "unpack_be 2 m i = Inr (int h)" by (rule u16_drop(1) [OF d len(1)])
    have d2: "drop (i + 2) m = ?z @ s @ ?r" by (rule u16_drop(2) [OF d len(1)])
    have "from_big ?z = int (length s)" using len(2) by (simp add: from_big_def unsigned_of_nat take_bit_nat_eq_self)
    then have z: "unpack_be 1 m (i + 2) = Inr (int (length s))" using unpack_drop [OF d2] by simp
    have d3: "drop (i + 3) m = s @ ?r" using bytes_drop(2) [OF d2] by (simp add: numeral_3_eq_3)
    have d4: "drop (i + 3 + length s) m = ?r" by (rule bytes_drop(2) [OF d3])
    have ps: "list_all (\<lambda>(h, s). h < 65536 \<and> length s < 256) ps" using Cons.prems(2) by simp
    from Cons.IH [OF d4 ps] obtain j where
      "pcr_selections m (length ps) (i + 3 + length s) = Inr (map (\<lambda>(h, s). (int h, s)) ps, j)" "drop j m = c" by blast
    then show ?case using u z bytes_drop(1) [OF d3] by (simp add: p)
  qed simp
  then show thesis using that by blast
qed

lemma attest_reads:
  assumes "attest_ok a"
  shows "attest_extra (attest_bytes a @ t) = Inr (at_extra a, 10 + length (at_signer a) + length (at_extra a))"
    and "quote_info (attest_bytes a @ t) (10 + length (at_signer a) + length (at_extra a))
      = Inr (map (\<lambda>(h, s). (int h, s)) (at_pcrs a), at_digest a)"
proof -
  define m where "m = attest_bytes a @ t"
  define R where "R = u32 (length (at_pcrs a)) @ concat (map (\<lambda>(h, s). u16 h @ [word_of_nat (length s)] @ s) (at_pcrs a)) @ tpm2b (at_digest a) @ t"
  note ok = assms [unfolded attest_ok_def]
  have d6: "drop 6 m = tpm2b (at_signer a) @ tpm2b (at_extra a) @ at_clock a @ at_firmware a @ R"
    using ok by (simp add: m_def attest_bytes_def R_def)
  let ?i = "8 + length (at_signer a)"
  have q: "unpack_be 2 m 6 = Inr (int (length (at_signer a)))" using tpm2b_drop(1) [OF d6] ok by simp
  have di: "drop ?i m = tpm2b (at_extra a) @ at_clock a @ at_firmware a @ R" using tpm2b_drop(3) [OF d6] ok by simp
  have e: "unpack_be 2 m ?i = Inr (int (length (at_extra a)))" "slice m (?i + 2) (?i + 2 + length (at_extra a)) = at_extra a"
    using tpm2b_drop(1,2) [OF di] ok by simp_all
  then show "attest_extra (attest_bytes a @ t) = Inr (at_extra a, 10 + length (at_signer a) + length (at_extra a))"
    using q by (simp add: attest_extra_def m_def [symmetric] add.assoc)
  let ?k = "10 + length (at_signer a) + length (at_extra a)"
  have "drop (?i + 2 + length (at_extra a)) m = at_clock a @ at_firmware a @ R" using tpm2b_drop(3) [OF di] ok by simp
  then have dk: "drop ?k m = (at_clock a @ at_firmware a) @ R" by simp
  have dn: "drop (?k + 8 + 4 + 4 + 1 + 8) m = R" using bytes_drop(2) [OF dk] ok by (simp add: add.assoc)
  note n = u32_drop [OF dn [unfolded R_def]]
  have n': "length (at_pcrs a) < 2 ^ 32" "list_all (\<lambda>(h, s). h < 65536 \<and> length s < 256) (at_pcrs a)" "length (at_digest a) < 65536" using ok by simp_all
  from n(2) [OF n'(1)] n'(2) obtain j where
      j: "pcr_selections m (length (at_pcrs a)) (?k + 8 + 4 + 4 + 1 + 8 + 4) = Inr (map (\<lambda>(h, s). (int h, s)) (at_pcrs a), j)"
    and dj: "drop j m = tpm2b (at_digest a) @ t"
    by (rule selections_drop)
  show "quote_info (attest_bytes a @ t) ?k = Inr (map (\<lambda>(h, s). (int h, s)) (at_pcrs a), at_digest a)"
    unfolding quote_info_def Let_def m_def [symmetric] n(1) [OF n'(1)] rbind_simps nat_int j prod.case tpm2b_drop(1,2) [OF dj n'(3)] ..
qed


section \<open>Properties\<close>

text \<open>The public area is read as a TPM writes it: for every RSA public area, with or without a policy,
  a symmetric algorithm and a scheme, \<open>tpm2b_public_rsa\<close> returns its modulus and its exponent, the
  exponent 0 standing for 65537, whatever bytes follow.\<close>

theorem public_area_roundtrip:
  assumes "rsa_public_ok k"
  shows "tpm2b_public_rsa (tpm2b (rsa_public_area k) @ t)
     = Inr (from_big (rp_modulus k), if rp_exponent k = 0 then 65537 else int (rp_exponent k))"
  by (rule public_reads [OF assms])

definition demo_public :: rsa_public where
  "demo_public = \<lparr>rp_name_alg = 11, rp_attributes = 0x300b2, rp_policy = [1, 2, 3], rp_symmetric = Some (6, 128, 0x43), rp_scheme = None,
     rp_key_bits = 2048, rp_exponent = 0, rp_modulus = [1, 5]\<rparr>"

lemma demo_public_ok: "rsa_public_ok demo_public"
  by (simp add: rsa_public_ok_def demo_public_def)

lemma demo_public_reads: "tpm2b_public_rsa (tpm2b (rsa_public_area demo_public) @ t) = Inr (261, 65537)"
  using public_reads [OF demo_public_ok] by (simp add: demo_public_def from_big_def)

theorem public_area_roundtrip_witness:
  "tpm2b_public_rsa (tpm2b (rsa_public_area demo_public) @ []) = Inr (261, 65537)"
  using public_area_roundtrip [OF demo_public_ok, of "[]"] by (simp add: demo_public_def from_big_def)

text \<open>The attestation structure is read as a TPM writes it: extraData is the data the TPM put there and
  nothing else, whatever the length of the signer's name, and the PCR selections and the PCR digest are
  those of the structure.\<close>

theorem quote_roundtrip:
  assumes "attest_ok a"
  shows "\<exists>i. attest_extra (attest_bytes a @ t) = Inr (at_extra a, i)
    \<and> quote_info (attest_bytes a @ t) i = Inr (map (\<lambda>(h, s). (int h, s)) (at_pcrs a), at_digest a)"
  using attest_reads [OF assms] by blast

definition demo_attest :: "bytes \<Rightarrow> attest" where
  "demo_attest x = \<lparr>at_magic = TPM_GENERATED, at_type = 0x8018, at_signer = [0, 11, 7], at_extra = x, at_clock = zeros 17, at_firmware = zeros 8,
     at_pcrs = [(11, [0xff, 0, 0])], at_digest = [9]\<rparr>"

lemma demo_attest_ok: "length x < 65536 \<Longrightarrow> attest_ok (demo_attest x)"
  by (simp add: attest_ok_def demo_attest_def TPM_GENERATED_def)

theorem quote_roundtrip_witness:
  "\<exists>i. attest_extra (attest_bytes (demo_attest [1, 2]) @ []) = Inr ([1, 2], i)
    \<and> quote_info (attest_bytes (demo_attest [1, 2]) @ []) i = Inr ([(11, [0xff, 0, 0])], [9])"
  using quote_roundtrip [OF demo_attest_ok, of "[1, 2]" "[]"] by (simp add: demo_attest_def)

end
