(* ===== verification/NitroTpm.thy ===== *)
theory NitroTpm
  imports Tpm Hashes
begin

text \<open>
  \<open>aws-nitro/nitrotpm_verify.py\<close>: the checks of a NitroTPM run. The endorsement key in the guest is
  compared with the one the EC2 control plane returns, and a quote is verified under the attestation key.
  The files of a run are a record, a missing file is \<open>None\<close>; parsing a DER public key is a parameter.
\<close>

section \<open>Files and results\<close>

record nt_files =
  nf_props :: "string option"
  nf_meta :: "string option"
  nf_ek_rsa :: "bytes option"
  nf_nv :: "string option"
  nf_ek_pub :: "bytes option"
  nf_api_ek :: "bytes option"
  nf_ak_pub :: "bytes option"
  nf_quote_sig :: "bytes option"
  nf_quote_msg :: "bytes option"
  nf_nonce256 :: "string option"

text \<open>A property of the TPM: the bytes that are decoded for printing, or the text as it is.\<close>

datatype tpm_prop = PropText bytes | PropRaw "string option"

record nt_out =
  no_instance :: "string option"
  no_zone :: "string option"
  no_type :: "string option"
  no_props :: "(string \<times> tpm_prop) list"
  no_ek_in_nv :: bool
  no_nv :: "string list"
  no_guest_ek :: "string option"
  no_api_ek :: "string option"
  no_ek_equal :: "bool option option"
  no_ek_error :: "pyerr option"
  no_quote_alg :: "string option"
  no_sig_ok :: "bool option"
  no_extra_ok :: "bool option"
  no_pcrs :: "(string \<times> string) list option"
  no_digest :: "string option"
  no_quote_error :: "pyerr option"

definition open_file :: "'a option \<Rightarrow> 'a res" where
  "open_file f = of_option FileNotFoundError f"

text \<open>\<open>n.to_bytes(k, "big")\<close> for \<open>n >= 0\<close>.\<close>

definition to_bytes_big :: "nat \<Rightarrow> int \<Rightarrow> bytes res" where
  "to_bytes_big k n = (if n < 256 ^ k then Ok (to_big k n) else Err (Raised ''OverflowError'' ''''))"

section \<open>The properties of the TPM\<close>

definition PROP_NAMES :: "string list" where
  "PROP_NAMES = [''TPM2_PT_MANUFACTURER'', ''TPM2_PT_VENDOR_STRING_1'', ''TPM2_PT_VENDOR_STRING_2'', ''TPM2_PT_FIRMWARE_VERSION_1'']"

text \<open>\<open>props[j:j + 120].split("raw:")[1].split()[0] if "raw:" in props[j:j + 120] else None\<close>.\<close>

definition raw_value :: "string \<Rightarrow> string option res" where
  "raw_value window = (case split_sub ''raw:'' window of
     _ # w # _ \<Rightarrow> (case split_ws w of [] \<Rightarrow> Err IndexError | v # _ \<Rightarrow> Ok (Some v))
   | _ \<Rightarrow> Ok None)"

definition prop_of :: "string \<Rightarrow> string option \<Rightarrow> tpm_prop" where
  "prop_of k raw = (if k = ''TPM2_PT_FIRMWARE_VERSION_1'' then PropRaw raw
     else case raw of None \<Rightarrow> PropRaw None
     | Some r \<Rightarrow> (case fromhex (drop 2 r) of Inr b \<Rightarrow> PropText b | Inl _ \<Rightarrow> PropRaw raw))"

definition tpm_props :: "string \<Rightarrow> (string \<times> tpm_prop) list res" where
  "tpm_props props = rmap (\<lambda>(k, j). rbind (raw_value (slice props j (j + 120))) (\<lambda>raw. Ok (k, prop_of k raw)))
     (concat (map (\<lambda>k. case find_sub k props of None \<Rightarrow> [] | Some j \<Rightarrow> [(k, j)]) PROP_NAMES))"

definition nv_indexes :: "string \<Rightarrow> string list" where
  "nv_indexes t = map (\<lambda>l. split_on (CHR '':'') l ! 0) (filter (starts_with ''0x'') (splitlines t))"

section \<open>The endorsement key\<close>

definition ek_prefix :: "bytes \<Rightarrow> string" where
  "ek_prefix b = take 16 (hex (sha256 b))"

definition ek_block :: "(bytes \<Rightarrow> int res) \<Rightarrow> nt_files \<Rightarrow> nt_out block" where
  "ek_block pub_modulus d =
     need (rbind (open_file (nf_ek_pub d)) tpm2b_public_rsa) (\<lambda>(ek_n, ek_e).
     need (to_bytes_big 256 ek_n) (\<lambda>nb. assign (\<lambda>r. r\<lparr>no_guest_ek := Some (ek_prefix nb)\<rparr>) (
     case nf_api_ek d of None \<Rightarrow> assign (\<lambda>r. r\<lparr>no_ek_equal := Some None\<rparr>) stop
     | Some der \<Rightarrow> need (pub_modulus der) (\<lambda>api_n. need (to_bytes_big 256 api_n) (\<lambda>ab.
         assign (\<lambda>r. r\<lparr>no_api_ek := Some (ek_prefix ab)\<rparr>) (
         assign (\<lambda>r. r\<lparr>no_ek_equal := Some (Some (api_n = ek_n))\<rparr>) stop))))))"

section \<open>The quote\<close>

text \<open>\<open>quote_extra_data_is_sha256_sentence\<close> compares with the content of \<open>nonce256.hex\<close>.\<close>

definition quote_block :: "'c jwt_lib \<Rightarrow> nt_files \<Rightarrow> nt_out block" where
  "quote_block R d =
     need (rbind (open_file (nf_ak_pub d)) tpm2b_public_rsa) (\<lambda>(ak_n, ak_e).
     need (rsa_load R (ak_e, ak_n)) (\<lambda>_.
     need (open_file (nf_quote_sig d)) (\<lambda>sig. need (open_file (nf_quote_msg d)) (\<lambda>msg.
     need (tpmt_signature sig) (\<lambda>(sig_alg, s). assign (\<lambda>r. r\<lparr>no_quote_alg := Some (py_hex sig_alg)\<rparr>) (
     need (verified (rsa256_ok R (ak_e, ak_n) s msg)) (\<lambda>_. assign (\<lambda>r. r\<lparr>no_sig_ok := Some True\<rparr>) (
     need (attest_extra msg) (\<lambda>(extra, i).
     need (rbind (open_file (nf_nonce256 d)) (\<lambda>t. fromhex (strip t))) (\<lambda>nonce256.
     assign (\<lambda>r. r\<lparr>no_extra_ok := Some (extra = nonce256)\<rparr>) (
     need (quote_info msg i) (\<lambda>(sel, dig).
     assign (\<lambda>r. r\<lparr>no_pcrs := Some (map (\<lambda>(alg, s). (py_hex alg, hex s)) sel)\<rparr>) (
     assign (\<lambda>r. r\<lparr>no_digest := Some (take 16 (hex dig))\<rparr>) stop)))))))))))))"

section \<open>One run\<close>

definition nt_start :: "nt_files \<Rightarrow> string \<Rightarrow> string \<Rightarrow> nt_out res" where
  "nt_start d props text0 = (let mt = key_values (split_ws text0) in
     rbind (tpm_props props) (\<lambda>ps. rbind (open_file (nf_nv d)) (\<lambda>nv.
     Ok \<lparr>no_instance = map_of mt ''instance'', no_zone = map_of mt ''zone'', no_type = map_of mt ''instance-type'', no_props = ps,
        no_ek_in_nv = (case nf_ek_rsa d of None \<Rightarrow> False | Some b \<Rightarrow> b \<noteq> []), no_nv = nv_indexes nv,
        no_guest_ek = None, no_api_ek = None, no_ek_equal = None, no_ek_error = None, no_quote_alg = None, no_sig_ok = None,
        no_extra_ok = None, no_pcrs = None, no_digest = None, no_quote_error = None\<rparr>)))"

text \<open>A run without \<open>tpm-properties.txt\<close> is passed over.\<close>

definition nitrotpm_run :: "(bytes \<Rightarrow> int res) \<Rightarrow> 'c jwt_lib \<Rightarrow> nt_files \<Rightarrow> nt_out option res" where
  "nitrotpm_run pub_modulus R d = (case nf_props d of None \<Rightarrow> Ok None
     | Some props \<Rightarrow> rbind (open_file (nf_meta d)) (\<lambda>text0. rbind (nt_start d props text0) (\<lambda>r.
         let r1 = catch (\<lambda>e r. r\<lparr>no_ek_error := Some e\<rparr>) (ek_block pub_modulus d) r in
         Ok (Some (catch (\<lambda>e r. r\<lparr>no_quote_error := Some e, no_sig_ok := Some False\<rparr>) (quote_block R d) r1)))))"


section \<open>Lemmas\<close>

lemma tpmt_signature_reads:
  assumes "alg < 65536" "length s < 65536"
  shows "tpmt_signature (u16 alg @ u16 h @ tpm2b s @ t) = Inr (int alg, s)"
proof -
  define m where "m = u16 alg @ u16 h @ tpm2b s @ t"
  have d0: "drop 0 m = u16 alg @ u16 h @ tpm2b s @ t" and d2: "drop 2 m = u16 h @ tpm2b s @ t" and d4: "drop 4 m = tpm2b s @ t"
    by (simp_all add: m_def)
  have 0: "unpack_be 2 m 0 = Inr (int alg)" by (rule u16_drop(1) [OF d0 assms(1)])
  have 2: "unpack_be 2 m 2 = Inr (from_big (u16 h))" using unpack_drop [OF d2] by simp
  note 4 = tpm2b_drop(1,2) [OF d4 assms(2)]
  show ?thesis using 0 2 4 unfolding tpmt_signature_def m_def [symmetric] by simp
qed

text \<open>The EK block writes none of the fields of the quote.\<close>

lemma ek_block_keeps:
  "no_sig_ok (catch (\<lambda>e r. r\<lparr>no_ek_error := Some e\<rparr>) (ek_block pm d) r) = no_sig_ok r"
  "no_extra_ok (catch (\<lambda>e r. r\<lparr>no_ek_error := Some e\<rparr>) (ek_block pm d) r) = no_extra_ok r"
  by (simp_all add: ek_block_def catch_def need_def assign_def stop_def split: sum.split prod.split option.split)

lemma quote_block_keeps:
  "no_ek_equal (catch (\<lambda>e r. r\<lparr>no_quote_error := Some e, no_sig_ok := Some False\<rparr>) (quote_block R d) r) = no_ek_equal r"
  by (simp add: quote_block_def catch_def need_def assign_def stop_def split: sum.split prod.split)

lemma quote_verdict:
  fixes R :: "'c jwt_lib"
  assumes "nf_ak_pub d = Some (tpm2b (rsa_public_area k) @ t)" "rsa_public_ok k"
    and "nf_quote_msg d = Some (attest_bytes a)" "attest_ok a"
    and "nf_quote_sig d = Some (u16 alg @ u16 h @ tpm2b s @ t')" "alg < 65536" "length s < 65536"
    and "nf_nonce256 d = Some (hex N @ [CHR 0x0A])"
    and "no_sig_ok r = None" "no_extra_ok r = None"
  defines "key \<equiv> (if rp_exponent k = 0 then 65537 else int (rp_exponent k), from_big (rp_modulus k))"
    and "r' \<equiv> catch (\<lambda>e r. r\<lparr>no_quote_error := Some e, no_sig_ok := Some False\<rparr>) (quote_block R d) r"
  shows "no_sig_ok r' = Some True \<longleftrightarrow> rsa_load R key = Inr () \<and> rsa256_ok R key s (attest_bytes a)"
    and "no_sig_ok r' = Some True \<Longrightarrow> no_extra_ok r' = Some (at_extra a = N)"
proof -
  obtain i where i: "attest_extra (attest_bytes a) = Inr (at_extra a, i)"
    "quote_info (attest_bytes a) i = Inr (map (\<lambda>(h, s). (int h, s)) (at_pcrs a), at_digest a)"
    using attest_reads [OF assms(4), of "[]"] by auto
  note run = quote_block_def catch_def open_file_def assms(1,3,5,8-10) public_reads [OF assms(2)] tpmt_signature_reads [OF assms(6,7)]
    i strip_hex block_simps
  show "no_sig_ok r' = Some True \<longleftrightarrow> rsa_load R key = Inr () \<and> rsa256_ok R key s (attest_bytes a)"
    by (cases "rsa_load R key"; cases "rsa256_ok R key s (attest_bytes a)") (simp_all add: r'_def key_def run)
  show "no_sig_ok r' = Some True \<Longrightarrow> no_extra_ok r' = Some (at_extra a = N)"
    by (cases "rsa_load R key"; cases "rsa256_ok R key s (attest_bytes a)") (simp_all add: r'_def key_def run)
qed


lemma nitrotpm_run_parts:
  assumes "nitrotpm_run pm R d = Inr (Some r)"
  obtains r0 where "no_sig_ok r0 = None" "no_extra_ok r0 = None" "no_ek_equal r0 = None"
    "r = catch (\<lambda>e r. r\<lparr>no_quote_error := Some e, no_sig_ok := Some False\<rparr>) (quote_block R d)
       (catch (\<lambda>e r. r\<lparr>no_ek_error := Some e\<rparr>) (ek_block pm d) r0)"
proof -
  from assms obtain props text0 r0 where s: "nt_start d props text0 = Inr r0"
    and r: "r = catch (\<lambda>e r. r\<lparr>no_quote_error := Some e, no_sig_ok := Some False\<rparr>) (quote_block R d)
       (catch (\<lambda>e r. r\<lparr>no_ek_error := Some e\<rparr>) (ek_block pm d) r0)"
    by (auto simp: nitrotpm_run_def Let_def rbind_Inr_iff split: option.splits)
  from s have "no_sig_ok r0 = None" "no_extra_ok r0 = None" "no_ek_equal r0 = None"
    by (auto simp: nt_start_def Let_def rbind_Inr_iff)
  with r that show thesis by blast
qed

lemma ek_verdict:
  assumes "nf_ek_pub d = Some (tpm2b (rsa_public_area k) @ t)" "rsa_public_ok k" "from_big (rp_modulus k) < 256 ^ 256"
    and "nf_api_ek d = Some der" "pm der = Inr n" "no_ek_equal r0 = None"
  shows "no_ek_equal (catch (\<lambda>e r. r\<lparr>no_ek_error := Some e\<rparr>) (ek_block pm d) r0) = Some (Some True) \<longleftrightarrow> n = from_big (rp_modulus k)"
  using assms(3,6)
  by (auto simp: ek_block_def catch_def open_file_def assms(1,4,5) public_reads [OF assms(2)] to_bytes_big_def block_simps)

section \<open>Properties\<close>

text \<open>C9: What a NitroTPM run shows, for files as a TPM writes them. The guest's endorsement key is found
  equal to the one of the control plane exactly when the moduli are equal; and the quote is reported as
  signed with the expected extraData exactly when the key of the attestation public area verifies the
  signature over the attestation structure and the structure's extraData is the value that the run's own
  file \<open>nonce256.hex\<close> holds. The script calls this value the SHA-256 of the public sentence, but reads no
  sentence and hashes nothing: any value the directory holds in that file passes.\<close>

theorem nitrotpm_verdict:
  assumes run: "nitrotpm_run pm R d = Inr (Some r)"
    and ek: "nf_ek_pub d = Some (tpm2b (rsa_public_area ek) @ t0)" "rsa_public_ok ek" "from_big (rp_modulus ek) < 256 ^ 256"
      "nf_api_ek d = Some der" "pm der = Inr n"
    and ak: "nf_ak_pub d = Some (tpm2b (rsa_public_area k) @ t)" "rsa_public_ok k"
    and quote: "nf_quote_msg d = Some (attest_bytes a)" "attest_ok a"
      "nf_quote_sig d = Some (u16 alg @ u16 h @ tpm2b s @ t')" "alg < 65536" "length s < 65536"
      "nf_nonce256 d = Some (hex N @ [CHR 0x0A])"
  shows "(no_ek_equal r = Some (Some True) \<longleftrightarrow> n = from_big (rp_modulus ek))
    \<and> (no_sig_ok r = Some True \<and> no_extra_ok r = Some True \<longleftrightarrow>
        rsa_load R (if rp_exponent k = 0 then 65537 else int (rp_exponent k), from_big (rp_modulus k)) = Inr ()
        \<and> rsa256_ok R (if rp_exponent k = 0 then 65537 else int (rp_exponent k), from_big (rp_modulus k)) s (attest_bytes a)
        \<and> at_extra a = N)"
proof -
  obtain r0 where r0: "no_sig_ok r0 = None" "no_extra_ok r0 = None" "no_ek_equal r0 = None"
    and r: "r = catch (\<lambda>e r. r\<lparr>no_quote_error := Some e, no_sig_ok := Some False\<rparr>) (quote_block R d)
       (catch (\<lambda>e r. r\<lparr>no_ek_error := Some e\<rparr>) (ek_block pm d) r0)"
    by (rule nitrotpm_run_parts [OF run])
  let ?r1 = "catch (\<lambda>e r. r\<lparr>no_ek_error := Some e\<rparr>) (ek_block pm d) r0"
  have "no_sig_ok ?r1 = None" "no_extra_ok ?r1 = None" using r0 by (simp_all add: ek_block_keeps)
  note q = quote_verdict [where R = R, OF ak quote this, folded r]
  have "no_ek_equal r = Some (Some True) \<longleftrightarrow> n = from_big (rp_modulus ek)"
    unfolding r quote_block_keeps by (rule ek_verdict [where pm = pm, OF ek r0(3)])
  then show ?thesis using q by auto
qed

definition demo_nt :: nt_files where
  "demo_nt = \<lparr>nf_props = Some [], nf_meta = Some [], nf_ek_rsa = None, nf_nv = Some [],
     nf_ek_pub = Some (tpm2b (rsa_public_area demo_public) @ []), nf_api_ek = Some [1], nf_ak_pub = Some (tpm2b (rsa_public_area demo_public) @ []),
     nf_quote_sig = Some (u16 0x14 @ u16 0xb @ tpm2b [9] @ []), nf_quote_msg = Some (attest_bytes (demo_attest [1, 2])),
     nf_nonce256 = Some (hex [1, 2] @ [CHR 0x0A])\<rparr>"

definition demo_tpm_rsa :: "nat jwt_lib" where
  "demo_tpm_rsa = \<lparr>rsa_load = (\<lambda>_. Ok ()), rsa256_ok = (\<lambda>en sg m. en = (65537, 261) \<and> sg = [9]), cert_rsa256_ok = (\<lambda>c sg m. False)\<rparr>"

theorem nitrotpm_verdict_witness:
  "\<exists>r. nitrotpm_run (\<lambda>_. Ok 261) demo_tpm_rsa demo_nt = Inr (Some r) \<and> no_ek_equal r = Some (Some True)
     \<and> no_sig_ok r = Some True \<and> no_extra_ok r = Some True"
proof -
  have "\<exists>r. nitrotpm_run (\<lambda>_. Ok 261) demo_tpm_rsa demo_nt = Inr (Some r)"
    by (simp add: nitrotpm_run_def demo_nt_def open_file_def nt_start_def tpm_props_def PROP_NAMES_def Let_def)
  then obtain r where r: "nitrotpm_run (\<lambda>_. Ok 261) demo_tpm_rsa demo_nt = Inr (Some r)" by blast
  have "rp_modulus demo_public = [1, 5]" "rp_exponent demo_public = 0" by (simp_all add: demo_public_def)
  then have m: "from_big (rp_modulus demo_public) = 261" "rp_exponent demo_public = 0" by (simp_all add: from_big_def)
  have "at_extra (demo_attest [1, 2]) = [1, 2]" by (simp add: demo_attest_def)
  then show ?thesis
    using nitrotpm_verdict [OF r, where ek = demo_public and k = demo_public and t0 = "[]" and t = "[]" and der = "[1]" and n = 261
        and a = "demo_attest [1, 2]" and alg = 20 and h = 11 and s = "[9]" and t' = "[]" and N = "[1, 2]"]
      r demo_attest_ok [of "[1, 2]"] demo_public_ok m
    by (simp add: demo_nt_def demo_tpm_rsa_def)
qed

end
