(* ===== verification/Der.thy ===== *)
theory Der
  imports Prelude
begin

text \<open>
  The two byte-level decoders of \<open>gcp-cvm/gcp_verify.py\<close>: DER type-length-value triples with the
  sequence reader built on them, and the small protobuf reader. Both advance an index over a buffer;
  their recursion ends because every step moves the index forward, and their theorems are round trips
  against the encodings they read.
\<close>

section \<open>DER\<close>

text \<open>\<open>buf[i]\<close> and \<open>buf[i + 1]\<close> raise out of range, a slice that is too short does not. The value is
  the tag, the contents and the index after them.\<close>

definition der_tlv :: "bytes \<Rightarrow> nat \<Rightarrow> (int \<times> bytes \<times> nat) res" where
  "der_tlv buf i = rbind (byte_at buf i) (\<lambda>tag. rbind (byte_at buf (i + 1)) (\<lambda>n0.
     let j = i + 2 in
     if n0 AND 0x80 \<noteq> 0 then
       (let k = nat (n0 AND 0x7f); n = nat (from_big (slice buf j (j + k))); j' = j + k in Ok (tag, slice buf j' (j' + n), j' + n))
     else Ok (tag, slice buf j (j + nat n0), j + nat n0)))"

text \<open>Values of the reader. \<open>DStr\<close> holds the bytes that are decoded for printing.\<close>

datatype der = DStr bytes | DInt int | DBool bool | DSeq "der list" | DNested | DOther int bytes

text \<open>\<open>int.from_bytes(v, "big", signed=True)\<close>.\<close>

definition from_big_signed :: "bytes \<Rightarrow> int" where
  "from_big_signed v = (if v \<noteq> [] \<and> 128 \<le> uint (v ! 0) then from_big v - 256 ^ length v else from_big v)"

lemma der_tlv_bounds:
  assumes "der_tlv buf i = Inr (t, v, i')"
  shows "i + 2 \<le> i'" "length v + 2 \<le> length buf" "i + 1 < length buf"
  using assms by (auto simp: der_tlv_def res_iff Let_def split: if_splits)

function (sequential) der_seq :: "bytes \<Rightarrow> der list res" and der_items :: "bytes \<Rightarrow> nat \<Rightarrow> der list res" where
  "der_seq buf = (case der_tlv buf 0 of Inl e \<Rightarrow> Err e
     | Inr (tag, body, _) \<Rightarrow> if tag = 0x30 then der_items body 0 else Err AssertionError)"
| "der_items body i = (if i < length body then
     (case der_tlv body i of Inl e \<Rightarrow> Err e
      | Inr (t, v, i') \<Rightarrow>
          (case (if t \<in> {0x0c, 0x16, 0x13} then Ok (DStr v)
             else if t = 0x02 then Ok (DInt (from_big_signed v))
             else if t = 0x01 then Ok (DBool (v \<noteq> [0]))
             else if t = 0x30 then
               (if length v < 128 then
                  (case der_seq ([0x30, word_of_nat (length v)] @ v) of Inl e \<Rightarrow> Err e | Inr ds \<Rightarrow> Ok (DSeq ds))
                else Ok DNested)
             else Ok (DOther t v)) of
             Inl e \<Rightarrow> Err e
           | Inr d \<Rightarrow> (case der_items body i' of Inl e \<Rightarrow> Err e | Inr ds \<Rightarrow> Ok (d # ds))))
     else Ok [])"
  by pat_completeness auto
termination
  by (relation "measures [\<lambda>x. case x of Inl buf \<Rightarrow> length buf | Inr (body, i) \<Rightarrow> Suc (length body),
        \<lambda>x. case x of Inl buf \<Rightarrow> 0 | Inr (body, i) \<Rightarrow> length body - i]")
    (auto dest: der_tlv_bounds)

declare der_seq.simps [simp del] der_items.simps [simp del]

section \<open>Protobuf\<close>

text \<open>\<open>varint()\<close> with its variables \<open>v\<close> and \<open>sh\<close>; it returns the value and the new index.\<close>

function varint :: "bytes \<Rightarrow> nat \<Rightarrow> int \<Rightarrow> nat \<Rightarrow> (int \<times> nat) res" where
  "varint buf i v sh = (if i < length buf then
     (let c = uint (buf ! i); v' = v OR push_bit sh (c AND 0x7f) in
      if c AND 0x80 = 0 then Ok (v', i + 1) else varint buf (i + 1) v' (sh + 7))
     else Err IndexError)"
  by pat_completeness auto
termination by (relation "measure (\<lambda>(buf, i, v, sh). length buf - i)") auto

declare varint.simps [simp del]

text \<open>\<open>PBytes\<close> holds the bytes that are shown as text when they are printable and as hex otherwise.\<close>

datatype pbval = PInt int | PBytes bytes

lemma varint_progress: "varint buf i v sh = Inr (x, i') \<Longrightarrow> i < i' \<and> i < length buf \<and> i' \<le> length buf"
proof (induction buf i v sh rule: varint.induct)
  case (1 buf i v sh)
  from "1.prems" have i: "i < length buf" by (subst (asm) varint.simps) (simp split: if_splits)
  show ?case
  proof (cases "uint (buf ! i) AND 0x80 = 0")
    case True
    with "1.prems" i show ?thesis by (subst (asm) varint.simps) (simp add: Let_def)
  next
    case False
    with "1.prems" i have "varint buf (i + 1) (v OR push_bit sh (uint (buf ! i) AND 0x7f)) (sh + 7) = Inr (x, i')"
      by (subst (asm) varint.simps) (simp add: Let_def)
    from "1.IH" [OF i refl refl False this] show ?thesis by simp
  qed
qed

text \<open>One field: \<open>None\<close> is the \<open>break\<close> on a wire type that is not known.\<close>

definition pb_field :: "bytes \<Rightarrow> nat \<Rightarrow> ((int \<times> pbval) \<times> nat) option res" where
  "pb_field buf i = rbind (varint buf i 0 0) (\<lambda>(tag, i1).
     let fld = drop_bit 3 tag; wt = tag AND 7 in
     if wt = 0 then rbind (varint buf i1 0 0) (\<lambda>(v, i2). Ok (Some ((fld, PInt v), i2)))
     else if wt = 2 then rbind (varint buf i1 0 0) (\<lambda>(n, i2). Ok (Some ((fld, PBytes (slice buf i2 (i2 + nat n))), i2 + nat n)))
     else if wt = 1 then rbind (unpack_le 8 buf i1) (\<lambda>v. Ok (Some ((fld, PInt v), i1 + 8)))
     else if wt = 5 then rbind (unpack_le 4 buf i1) (\<lambda>v. Ok (Some ((fld, PInt v), i1 + 4)))
     else Ok None)"

lemma pb_field_progress: "pb_field buf i = Inr (Some (f, i')) \<Longrightarrow> i < i'"
  by (auto simp: pb_field_def res_iff Let_def split: if_splits dest!: varint_progress)

function pb_loop :: "bytes \<Rightarrow> nat \<Rightarrow> (int \<times> pbval list) list \<Rightarrow> (int \<times> pbval list) list res" where
  "pb_loop buf i out = (if i < length buf then
     (case pb_field buf i of Inl e \<Rightarrow> Err e | Inr None \<Rightarrow> Ok out
      | Inr (Some (f, i')) \<Rightarrow> pb_loop buf i' (group_add (fst f) (snd f) out))
     else Ok out)"
  by pat_completeness auto
termination by (relation "measure (\<lambda>(buf, i, out). length buf - i)") (auto dest: pb_field_progress)

declare pb_loop.simps [simp del]

definition pb_decode :: "bytes \<Rightarrow> (int \<times> pbval list) list res" where
  "pb_decode buf = pb_loop buf 0 []"

section \<open>Round trip of the sequence reader\<close>

text \<open>The value of one element.\<close>

definition der_value :: "int \<Rightarrow> bytes \<Rightarrow> der res" where
  "der_value t v = (if t \<in> {0x0c, 0x16, 0x13} then Ok (DStr v)
     else if t = 0x02 then Ok (DInt (from_big_signed v))
     else if t = 0x01 then Ok (DBool (v \<noteq> [0]))
     else if t = 0x30 then (if length v < 128 then rbind (der_seq ([0x30, word_of_nat (length v)] @ v)) (\<lambda>ds. Ok (DSeq ds)) else Ok DNested)
     else Ok (DOther t v))"

lemma der_items_step:
  "der_items body i = (if i < length body then
     rbind (der_tlv body i) (\<lambda>(t, v, i'). rbind (der_value t v) (\<lambda>d. rbind (der_items body i') (\<lambda>ds. Ok (d # ds)))) else Ok [])"
  by (subst der_items.simps) (simp add: der_value_def rbind_def split: sum.split prod.split)

text \<open>The encoding rules: minimal lengths, minimal two's complement integers.\<close>

fun be_bytes :: "nat \<Rightarrow> bytes" where
  "be_bytes n = (if n < 256 then [word_of_nat n] else be_bytes (n div 256) @ [word_of_nat (n mod 256)])"

declare be_bytes.simps [simp del]

definition der_length :: "nat \<Rightarrow> bytes" where
  "der_length n = (if n < 128 then [word_of_nat n] else word_of_nat (128 + length (be_bytes n)) # be_bytes n)"

definition tlv :: "byte \<Rightarrow> bytes \<Rightarrow> bytes" where
  "tlv t v = t # der_length (length v) @ v"

function int_bytes :: "int \<Rightarrow> bytes" where
  "int_bytes n = (if -128 \<le> n \<and> n < 128 then [word_of_int n] else int_bytes (n div 256) @ [word_of_int n])"
  by pat_completeness auto
termination by (relation "measure (\<lambda>n. nat \<bar>n\<bar>)") auto

declare int_bytes.simps [simp del]

fun der_enc :: "der \<Rightarrow> bytes" where
  "der_enc (DStr v) = tlv 0x0c v"
| "der_enc (DInt n) = tlv 0x02 (int_bytes n)"
| "der_enc (DBool b) = tlv 0x01 [if b then 0xff else 0]"
| "der_enc (DSeq ds) = tlv 0x30 (concat (map der_enc ds))"
| "der_enc DNested = []"
| "der_enc (DOther t v) = tlv (word_of_int t) v"

text \<open>What a value looks like to the reader: a nested sequence of 128 bytes or more is only noted.\<close>

fun der_seen :: "der \<Rightarrow> der" where
  "der_seen (DSeq ds) = (if length (concat (map der_enc ds)) < 128 then DSeq (map der_seen ds) else DNested)"
| "der_seen d = d"

definition der_fits :: "bytes \<Rightarrow> bool" where
  "der_fits v \<longleftrightarrow> length (be_bytes (length v)) < 128"

fun der_ok :: "der \<Rightarrow> bool" where
  "der_ok (DStr v) = der_fits v"
| "der_ok (DInt n) = der_fits (int_bytes n)"
| "der_ok (DBool b) = True"
| "der_ok (DSeq ds) = ((\<forall>d \<in> set ds. der_ok d) \<and> der_fits (concat (map der_enc ds)))"
| "der_ok DNested = False"
| "der_ok (DOther t v) = (0 \<le> t \<and> t < 256 \<and> t \<notin> {0x01, 0x02, 0x0c, 0x13, 0x16, 0x30} \<and> der_fits v)"

lemma uint_byte_of_nat: "uint (word_of_nat n :: byte) = int (n mod 256)"
  by (simp add: uint_nat unat_of_nat)

lemma from_big_be_bytes: "from_big (be_bytes n) = int n"
proof (induction n rule: be_bytes.induct)
  case (1 n)
  show ?case
  proof (cases "n < 256")
    case True
    then show ?thesis by (subst be_bytes.simps) (simp add: from_big_def uint_byte_of_nat)
  next
    case False
    then have "from_big (be_bytes n) = int (n div 256) * 256 + int (n mod 256)"
      by (subst be_bytes.simps) (simp add: from_big_snoc 1 uint_byte_of_nat)
    then show ?thesis by (simp add: zdiv_int zmod_int)
  qed
qed

lemma from_big_signed_snoc: "xs \<noteq> [] \<Longrightarrow> from_big_signed (xs @ [b]) = from_big_signed xs * 256 + uint b"
  by (auto simp: from_big_signed_def from_big_snoc nth_append)

lemma int_bytes_ne [simp]: "int_bytes n \<noteq> []"
  by (subst int_bytes.simps) simp

lemma from_big_signed_int_bytes: "from_big_signed (int_bytes n) = n"
proof (induction n rule: int_bytes.induct)
  case (1 n)
  have u: "uint (word_of_int n :: byte) = n mod 256" by (simp add: uint_word_of_int)
  show ?case
  proof (cases "-128 \<le> n \<and> n < 128")
    case True
    have "n mod 256 = (if n < 0 then n + 256 else n)"
    proof (cases "n < 0")
      case neg: True
      have "n mod 256 = (n + 256) mod 256" by simp
      also have "\<dots> = n + 256" using True neg by (intro mod_pos_pos_trivial) simp_all
      finally show ?thesis using neg by simp
    qed (use True in simp)
    with True show ?thesis by (subst int_bytes.simps) (auto simp: from_big_signed_def from_big_def u)
  next
    case False
    then have e: "int_bytes n = int_bytes (n div 256) @ [word_of_int n]" by (subst int_bytes.simps) (simp only: if_False)
    have "from_big_signed (int_bytes n) = n div 256 * 256 + n mod 256"
      unfolding e by (simp only: from_big_signed_snoc int_bytes_ne 1 [OF False] u not_False_eq_True)
    then show ?thesis by simp
  qed
qed

lemma nth_append_shift: "(pre @ x) ! (length pre + k) = x ! k"
  by (simp add: nth_append)

lemma slice_shift: "slice (pre @ x) (length pre + i) (length pre + j) = slice x i j"
  by (simp add: slice_def)

lemma slice_shift2:
  "slice (pre @ x) (Suc (Suc (length pre + i))) (Suc (Suc (length pre + j))) = slice x (Suc (Suc i)) (Suc (Suc j))"
  "slice (pre @ x) (Suc (Suc (length pre))) (Suc (Suc (length pre + j))) = slice x (Suc (Suc 0)) (Suc (Suc j))"
  "slice (pre @ x) (Suc (Suc (length pre + i))) (Suc (Suc (length pre + i + j))) = slice x (Suc (Suc i)) (Suc (Suc (i + j)))"
  using slice_shift [of pre x "i + 2" "j + 2"] slice_shift [of pre x 2 "j + 2"] slice_shift [of pre x "i + 2" "i + j + 2"]
  by (simp_all add: numeral_2_eq_2 add.assoc)

text \<open>Reading at an index is reading the rest of the buffer.\<close>

lemma der_tlv_shift: "der_tlv (pre @ x) (length pre) = rbind (der_tlv x 0) (\<lambda>(t, v, i). Ok (t, v, length pre + i))"
  using nth_append_shift [of pre x 0] nth_append_shift [of pre x 1]
  by (simp add: der_tlv_def byte_at_def Let_def slice_shift2)

lemma top_bit: "0 \<le> c \<Longrightarrow> c < 256 \<Longrightarrow> c AND (128::int) = 0 \<longleftrightarrow> c < 128"
proof -
  assume c: "0 \<le> c" "c < 256"
  have "c AND 2 ^ 7 = 0 \<longleftrightarrow> \<not> bit c 7" by (rule and_exp_eq_0_iff_not_bit)
  also have "bit c 7 \<longleftrightarrow> odd (c div 128)" by (simp add: bit_iff_odd)
  also have "odd (c div 128) \<longleftrightarrow> \<not> c < 128"
  proof (cases "c < 128")
    case False
    then have "c div 128 = 1" using c by (intro int_div_pos_eq [of _ _ _ "c - 128"]) simp_all
    then show ?thesis using False by simp
  qed (use c in simp)
  finally show ?thesis by simp
qed

lemma low_bits: "c AND (127::int) = c mod 128"
  using take_bit_eq_mask [of 7 c] by (simp add: take_bit_eq_mod mask_eq_exp_minus_1)

lemma der_tlv_enc:
  assumes "der_fits v"
  shows "der_tlv (pre @ tlv t v @ r) (length pre) = Inr (uint t, v, length pre + length (tlv t v))"
proof -
  have "der_tlv (tlv t v @ r) 0 = Inr (uint t, v, length (tlv t v))"
  proof (cases "length v < 128")
    case True
    then show ?thesis
      by (simp add: der_tlv_def tlv_def der_length_def byte_at_def Let_def uint_byte_of_nat top_bit slice_def)
  next
    case False
    let ?b = "be_bytes (length v)"
    have k: "length ?b < 128" using assms by (simp add: der_fits_def)
    have u: "uint (word_of_nat (128 + length ?b) :: byte) = 128 + int (length ?b)"
      using k by (simp add: uint_byte_of_nat del: of_nat_add)
    have n: "(128 + int (length ?b)) AND 128 \<noteq> 0" "(128 + int (length ?b)) AND 127 = int (length ?b)"
      using k by (simp_all add: top_bit low_bits)
    have s: "slice (tlv t v @ r) 2 (2 + length ?b) = ?b"
      "slice (tlv t v @ r) (2 + length ?b) (2 + length ?b + length v) = v"
      using False by (simp_all add: tlv_def der_length_def slice_def)
    show ?thesis
      using False s n u by (simp add: der_tlv_def tlv_def der_length_def byte_at_def Let_def from_big_be_bytes numeral_2_eq_2 del: of_nat_add)
  qed
  then show ?thesis by (simp add: der_tlv_shift)
qed

lemma der_seq_enc: "der_fits v \<Longrightarrow> der_seq (tlv 0x30 v) = der_items v 0"
  using der_tlv_enc [of v "[]" "0x30" "[]"] by (subst der_seq.simps) simp

lemma der_items_enc:
  assumes "\<And>d. d \<in> set ds \<Longrightarrow> \<exists>t v. der_enc d = tlv t v \<and> der_fits v \<and> der_value (uint t) v = Inr (der_seen d)"
  shows "der_items (pre @ concat (map der_enc ds)) (length pre) = Inr (map der_seen ds)"
  using assms
proof (induction ds arbitrary: pre)
  case (Cons d ds)
  obtain t v where d: "der_enc d = tlv t v" "der_fits v" "der_value (uint t) v = Inr (der_seen d)"
    using Cons.prems [of d] by auto
  have "der_items ((pre @ tlv t v) @ concat (map der_enc ds)) (length (pre @ tlv t v)) = Inr (map der_seen ds)"
    using Cons.prems by (intro Cons.IH) simp
  then show ?case
    using der_tlv_enc [OF d(2), of pre t "concat (map der_enc ds)"]
    by (subst der_items_step) (simp add: d, simp add: tlv_def)
qed (subst der_items_step, simp)

lemma der_value_enc: "der_ok d \<Longrightarrow> \<exists>t v. der_enc d = tlv t v \<and> der_fits v \<and> der_value (uint t) v = Inr (der_seen d)"
proof (induction d)
  case (DSeq ds)
  let ?v = "concat (map der_enc ds)"
  have "der_items ?v 0 = Inr (map der_seen ds)"
    using der_items_enc [of ds "[]"] DSeq by simp
  moreover have "der_seq ([0x30, word_of_nat (length ?v)] @ ?v) = der_items ?v 0" if "length ?v < 128"
    using der_seq_enc [of ?v] DSeq.prems that by (simp add: tlv_def der_length_def)
  ultimately show ?case using DSeq.prems
    by (intro exI [of _ "0x30"] exI [of _ ?v]) (simp add: der_value_def)
next
  case (DInt n)
  then show ?case by (intro exI [of _ "0x02"] exI [of _ "int_bytes n"]) (simp add: der_value_def from_big_signed_int_bytes)
next
  case (DBool b)
  have "be_bytes 1 = [1]" by (subst be_bytes.simps) simp
  then show ?case by (intro exI [of _ "0x01"] exI [of _ "[if b then 0xff else 0]"]) (simp add: der_value_def der_fits_def)
next
  case (DStr v)
  then show ?case by (intro exI [of _ "0x0c"] exI [of _ v]) (simp add: der_value_def)
next
  case (DOther t v)
  then have "uint (word_of_int t :: byte) = t" by (simp add: uint_word_of_int)
  with DOther show ?case by (intro exI [of _ "word_of_int t"] exI [of _ v]) (simp add: der_value_def)
qed simp

lemma der_seq_reads:
  assumes "\<forall>d \<in> set ds. der_ok d" "der_fits (concat (map der_enc ds))"
  shows "der_seq (der_enc (DSeq ds)) = Inr (map der_seen ds)"
proof -
  have "der_items (concat (map der_enc ds)) 0 = Inr (map der_seen ds)"
    using der_items_enc [of ds "[]"] assms(1) by (simp add: der_value_enc)
  then show ?thesis using assms(2) by (simp add: der_seq_enc)
qed

section \<open>Round trip of the protobuf reader\<close>

fun varint_enc :: "nat \<Rightarrow> bytes" where
  "varint_enc n = (if n < 128 then [word_of_nat n] else word_of_nat (128 + n mod 128) # varint_enc (n div 128))"

declare varint_enc.simps [simp del]

text \<open>The wire form of a field and its value; bytes of 64 and 32 bits are one more form the reader knows.\<close>

datatype pb_wire = WVarint nat | WBytes bytes | WFixed64 nat | WFixed32 nat

definition pb_enc :: "nat \<times> pb_wire \<Rightarrow> bytes" where
  "pb_enc f = (case f of (k, WVarint n) \<Rightarrow> varint_enc (8 * k) @ varint_enc n
     | (k, WBytes b) \<Rightarrow> varint_enc (8 * k + 2) @ varint_enc (length b) @ b
     | (k, WFixed64 n) \<Rightarrow> varint_enc (8 * k + 1) @ to_little 8 (int n)
     | (k, WFixed32 n) \<Rightarrow> varint_enc (8 * k + 5) @ to_little 4 (int n))"

definition pb_seen :: "pb_wire \<Rightarrow> pbval" where
  "pb_seen w = (case w of WVarint n \<Rightarrow> PInt (int n) | WBytes b \<Rightarrow> PBytes b | WFixed64 n \<Rightarrow> PInt (int n) | WFixed32 n \<Rightarrow> PInt (int n))"

definition pb_ok :: "pb_wire \<Rightarrow> bool" where
  "pb_ok w = (case w of WFixed64 n \<Rightarrow> n < 2 ^ 64 | WFixed32 n \<Rightarrow> n < 2 ^ 32 | _ \<Rightarrow> True)"

lemma or_push: "0 \<le> v \<Longrightarrow> v < 2 ^ sh \<Longrightarrow> v OR push_bit sh w = v + 2 ^ sh * (w :: int)"
proof -
  assume "0 \<le> v" "v < 2 ^ sh"
  then have v: "take_bit sh v = v" by (simp add: take_bit_int_eq_self)
  have "take_bit sh v + push_bit sh w = take_bit sh v OR push_bit sh w"
    by (rule disjunctive_add_eq_or) (auto simp: bit_eq_iff bit_simps)
  then show ?thesis by (simp add: v push_bit_eq_mult mult.commute)
qed

lemma varint_enc_read:
  "0 \<le> v \<Longrightarrow> v < 2 ^ sh \<Longrightarrow>
     varint (pre @ varint_enc n @ r) (length pre) v sh = Inr (v + 2 ^ sh * int n, length pre + length (varint_enc n))"
proof (induction n arbitrary: pre v sh rule: varint_enc.induct)
  case (1 n)
  show ?case
  proof (cases "n < 128")
    case True
    then have e: "varint_enc n = [word_of_nat n]" by (subst varint_enc.simps) simp
    have "uint (word_of_nat n :: byte) = int n" using True by (simp add: uint_byte_of_nat)
    then show ?thesis using True 1(2,3)
      by (subst varint.simps) (simp add: e Let_def top_bit low_bits or_push)
  next
    case False
    let ?b = "word_of_nat (128 + n mod 128) :: byte"
    have e: "varint_enc n = ?b # varint_enc (n div 128)" using False by (subst varint_enc.simps) simp
    have u: "uint ?b = 128 + int (n mod 128)" by (simp add: uint_byte_of_nat del: of_nat_add)
    have t: "uint ?b AND 128 \<noteq> 0" "uint ?b AND 127 = int (n mod 128)"
      unfolding u by (simp_all add: top_bit low_bits zmod_int)
    let ?v = "v + 2 ^ sh * int (n mod 128)"
    have b: "0 \<le> ?v" "?v < 2 ^ (sh + 7)"
    proof -
      show "0 \<le> ?v" using 1(2) by simp
      have "2 ^ sh * int (n mod 128) \<le> 2 ^ sh * 127" by (intro mult_left_mono) simp_all
      with 1(3) have "?v < 2 ^ sh + 2 ^ sh * 127" by (rule add_less_le_mono)
      then show "?v < 2 ^ (sh + 7)" by (simp only: power_add) simp
    qed
    have "varint ((pre @ [?b]) @ varint_enc (n div 128) @ r) (length (pre @ [?b])) ?v (sh + 7)
        = Inr (?v + 2 ^ (sh + 7) * int (n div 128), length (pre @ [?b]) + length (varint_enc (n div 128)))"
      by (rule 1(1) [OF False b])
    moreover have "?v + 2 ^ (sh + 7) * int (n div 128) = v + 2 ^ sh * int n"
    proof -
      have "int n = 128 * int (n div 128) + int (n mod 128)"
        by (simp only: zdiv_int zmod_int of_nat_numeral mult_div_mod_eq)
      then show ?thesis by (simp add: power_add algebra_simps)
    qed
    ultimately show ?thesis
      using 1(2,3) t by (subst varint.simps) (simp add: e Let_def or_push del: push_bit_and)
  qed
qed

lemma varint_read: "varint (pre @ varint_enc n @ r) (length pre) 0 0 = Inr (int n, length pre + length (varint_enc n))"
  using varint_enc_read [of 0 0 pre n r] by simp

lemma varint_read_after:
  "varint (pre @ varint_enc m @ varint_enc n @ r) (length pre + length (varint_enc m)) 0 0
     = Inr (int n, length pre + length (varint_enc m) + length (varint_enc n))"
  using varint_read [of "pre @ varint_enc m" n r] by simp

lemma tag_bits:
  assumes "w < 8"
  shows "drop_bit 3 (int (8 * k + w)) = int k" "int (8 * k + w) AND 7 = int w"
proof -
  have n: "(8 * k + w) div 8 = k" "(8 * k + w) mod 8 = w" using assms by simp_all
  have "int (8 * k + w) div 8 = int ((8 * k + w) div 8)" "int (8 * k + w) mod 8 = int ((8 * k + w) mod 8)"
    by (simp_all only: zdiv_int zmod_int of_nat_numeral)
  then have "int (8 * k + w) div 8 = int k" "int (8 * k + w) mod 8 = int w" by (simp_all only: n)
  moreover have "int (8 * k + w) AND 7 = int (8 * k + w) mod 8"
    using take_bit_eq_mask [of 3 "int (8 * k + w)"] by (simp add: take_bit_eq_mod mask_eq_exp_minus_1)
  ultimately show "drop_bit 3 (int (8 * k + w)) = int k" "int (8 * k + w) AND 7 = int w"
    by (simp_all only: drop_bit_eq_div) (simp only: power3_eq_cube, simp)
qed

lemma pb_field_enc:
  assumes "pb_ok w"
  shows "pb_field (pre @ pb_enc (k, w) @ r) (length pre) = Inr (Some ((int k, pb_seen w), length pre + length (pb_enc (k, w))))"
proof -
  note tags = tag_bits [of 0 k] tag_bits [of 1 k] tag_bits [of 2 k] tag_bits [of 5 k]
  have s: "slice (pre @ varint_enc m @ x @ r) (length pre + length (varint_enc m)) (length pre + length (varint_enc m) + length x) = x" for m x
    by (simp add: slice_def)
  show ?thesis
  proof (cases w)
    case (WVarint n)
    then show ?thesis using tags
      by (simp add: pb_field_def pb_enc_def pb_seen_def varint_read varint_read_after Let_def)
  next
    case (WBytes b)
    then show ?thesis using tags
      by (simp add: pb_field_def pb_enc_def pb_seen_def varint_read varint_read_after Let_def slice_def)
  next
    case (WFixed64 n)
    then show ?thesis using tags assms s [of "8 * k + 1" "to_little 8 (int n)"]
      by (simp add: pb_field_def pb_enc_def pb_seen_def pb_ok_def varint_read Let_def unpack_le_def from_little_to_little)
  next
    case (WFixed32 n)
    then show ?thesis using tags assms s [of "8 * k + 5" "to_little 4 (int n)"]
      by (simp add: pb_field_def pb_enc_def pb_seen_def pb_ok_def varint_read Let_def unpack_le_def from_little_to_little)
  qed
qed

lemma pb_loop_enc:
  assumes "list_all (\<lambda>f. pb_ok (snd f)) fs"
  shows "pb_loop (pre @ concat (map pb_enc fs)) (length pre) out
    = Inr (foldl (\<lambda>d f. group_add (int (fst f)) (pb_seen (snd f)) d) out fs)"
  using assms
proof (induction fs arbitrary: pre out)
  case (Cons f fs)
  obtain k w where f: "f = (k, w)" by (cases f)
  have w: "pb_ok w" using Cons.prems by (simp add: f)
  have ne: "pb_enc (k, w) \<noteq> []" by (subst pb_enc_def) (simp add: varint_enc.simps split: pb_wire.split)
  have "pb_loop ((pre @ pb_enc f) @ concat (map pb_enc fs)) (length (pre @ pb_enc f)) (group_add (int k) (pb_seen w) out)
      = Inr (foldl (\<lambda>d f. group_add (int (fst f)) (pb_seen (snd f)) d) (group_add (int k) (pb_seen w) out) fs)"
    using Cons.prems by (intro Cons.IH) simp
  then show ?case
    using pb_field_enc [OF w, of pre k "concat (map pb_enc fs)"] ne by (subst pb_loop.simps) (simp add: f)
qed (subst pb_loop.simps, simp)

section \<open>Properties\<close>

text \<open>C28: The sequence reader reads DER. For every list of values encoded by the DER rules, with short
  and long lengths and minimal signed integers, \<open>der_seq\<close> returns those values in order; a nested
  sequence whose contents are 128 bytes or longer is reported without its contents.\<close>

theorem der_roundtrip:
  assumes "der_ok (DSeq ds)"
  shows "der_seq (der_enc (DSeq ds)) = Inr (map der_seen ds)"
  using der_seq_reads assms by simp

theorem der_roundtrip_witness:
  "der_seq (der_enc (DSeq [DStr [0x65, 0x75], DInt (-300), DSeq [DBool True]])) = Inr [DStr [0x65, 0x75], DInt (-300), DSeq [DBool True]]"
proof -
  have "der_ok (DSeq [DStr [0x65, 0x75], DInt (-300), DSeq [DBool True]])"
    by (simp add: der_fits_def be_bytes.simps int_bytes.simps tlv_def der_length_def)
  from der_roundtrip [OF this] show ?thesis by (simp add: tlv_def der_length_def)
qed

text \<open>The protobuf reader reads protobuf. For every list of fields in the four wire forms it knows,
  it returns the dictionary from field numbers to the lists of their values in the order sent.\<close>

theorem pb_roundtrip:
  assumes "list_all (\<lambda>f. pb_ok (snd f)) fs"
  shows "pb_decode (concat (map pb_enc fs)) = Inr (group_all (int \<circ> fst) (pb_seen \<circ> snd) fs)"
  using pb_loop_enc [of fs "[]" "[]"] assms by (simp add: pb_decode_def group_all_def)

theorem pb_roundtrip_witness:
  "pb_decode (concat (map pb_enc [(1, WBytes [0x61]), (2, WVarint 300), (1, WFixed32 7)])) = Inr [(1, [PBytes [0x61], PInt 7]), (2, [PInt 300])]"
  using pb_roundtrip [of "[(1, WBytes [0x61]), (2, WVarint 300), (1, WFixed32 7)]"]
  by (simp add: pb_ok_def pb_seen_def group_all_def)

end
