(* ===== verification/GcpVerify.thy ===== *)
theory GcpVerify
  imports Attempt Der Certs PyText Hashes Jwt
begin

text \<open>
  \<open>gcp-cvm/gcp_verify.py\<close>: the verification of an SEV-SNP report against the KDS, of an Intel TDX quote
  against its embedded certificates, and of a vTPM endorsement key certificate against its issuer.
  Each fills a record inside one \<open>try\<close>, so an exception leaves the checks before it in place.
\<close>

section \<open>The packages\<close>

text \<open>\<open>p256_load\<close>: the public key with these coordinates (an exception when they are not a point of the
  curve); \<open>p256_ok\<close> and \<open>ecdsa256_ok\<close>: the ECDSA-SHA256 check of \<open>(r, s)\<close> over the bytes returns, for
  such a key and for a certificate's key; \<open>rsa15_issued p c\<close>: the check of \<open>c\<close>'s signature with PKCS1v15
  padding under \<open>p\<close>'s key returns. \<open>san\<close> and \<open>aia_issuers\<close> are the two extensions by class, the second
  one the addresses of its \<open>caIssuers\<close> entries.\<close>

record 'c gpki = "'c pki" +
  p256_load :: "int \<times> int \<Rightarrow> unit res"
  p256_ok :: "int \<times> int \<Rightarrow> int \<times> int \<Rightarrow> bytes \<Rightarrow> bool"
  ecdsa256_ok :: "'c \<Rightarrow> int \<times> int \<Rightarrow> bytes \<Rightarrow> bool"
  rsa15_issued :: "'c \<Rightarrow> 'c \<Rightarrow> bool"
  cert_der :: "'c \<Rightarrow> bytes"
  issuer_name :: "'c \<Rightarrow> string"
  not_before :: "'c \<Rightarrow> string"
  san :: "'c \<Rightarrow> string list res"
  aia_issuers :: "'c \<Rightarrow> string list res"

text \<open>The checks written out here are made on the certificate part of the package.\<close>

abbreviation "pki_of P \<equiv> pki.truncate P"

section \<open>SEV-SNP\<close>

record snp_out =
  so_signing_key :: signing_key
  so_chip_id_zero :: bool
  so_chip_id_prefix :: string
  so_host_data :: string
  so_report_sig_ok :: "bool option"
  so_chain_ok :: "bool option"
  so_hwid :: "bool option"
  so_error :: "pyerr option"

text \<open>The links are checked with the RSA form only.\<close>

fun links_verified :: "('c \<Rightarrow> 'c \<Rightarrow> bool) \<Rightarrow> ('c \<times> 'c) list \<Rightarrow> unit res" where
  "links_verified ok [] = Ok ()"
| "links_verified ok ((child, parent) # ls) = rbind (verified (ok parent child)) (\<lambda>_. links_verified ok ls)"

definition nth_res :: "'a list \<Rightarrow> nat \<Rightarrow> 'a res" where
  "nth_res xs i = (if i < length xs then Ok (xs ! i) else Err IndexError)"

definition snp_block :: "'c gpki \<Rightarrow> fetch \<Rightarrow> bytes \<Rightarrow> gcp_report \<Rightarrow> snp_out block" where
  "snp_block P get rep f =
     need (rbind (get (vcek_url ''Milan'' (g_chip_id f) (tcb_parts (g_reported_tcb f)))) (load_der P)) (\<lambda>vcek.
     need (rbind (get (chain_url ''vcek'' ''Milan'')) (load_pem_chain P)) (\<lambda>chain.
     need (nth_res chain 0) (\<lambda>ask. need (nth_res chain 1) (\<lambda>ark.
     need (verified (sig_ok (pki_of P) rep vcek)) (\<lambda>_. assign (\<lambda>s. s\<lparr>so_report_sig_ok := Some True\<rparr>) (
     need (links_verified (rsa_issued P) [(vcek, ask), (ask, ark), (ark, ark)]) (\<lambda>_. assign (\<lambda>s. s\<lparr>so_chain_ok := Some True\<rparr>) (
     assign (\<lambda>s. s\<lparr>so_hwid := Some (hwid_equals (pki_of P) vcek (g_chip_id f) = Some True)\<rparr>) stop))))))))"

definition snp_verify :: "'c gpki \<Rightarrow> fetch \<Rightarrow> bytes \<Rightarrow> gcp_report \<Rightarrow> snp_out" where
  "snp_verify P get rep f = catch (\<lambda>e s. s\<lparr>so_error := Some e\<rparr>) (snp_block P get rep f)
     \<lparr>so_signing_key = fl_signing_key (g_flags f), so_chip_id_zero = g_chip_id_zero f, so_chip_id_prefix = take 16 (g_chip_id f),
      so_host_data = g_host_data f, so_report_sig_ok = None, so_chain_ok = None, so_hwid = None, so_error = None\<rparr>"

section \<open>TDX\<close>

record tdx_header =
  h_version :: int
  h_att_key_type :: int
  h_tee_type :: string
  h_qe_vendor_id :: string
  h_user_data :: string

record tdx_body =
  b_tee_tcb_svn :: string
  b_mrseam :: string
  b_seam_attributes :: string
  b_td_attributes :: string
  b_xfam :: string
  b_mrtd :: string
  b_mrconfigid :: string
  b_mrowner :: string
  b_mrownerconfig :: string
  b_rtmr0 :: string
  b_rtmr1 :: string
  b_rtmr2 :: string
  b_rtmr3 :: string
  b_report_data :: string

record tdx_sig =
  t_sig :: bytes
  t_ak :: bytes
  t_cert_data_type :: int
  t_cert_data_size :: int
  t_cert_data :: bytes

definition tdx_parse :: "bytes \<Rightarrow> (tdx_header \<times> tdx_body \<times> tdx_sig) res" where
  "tdx_parse q =
     rbind (unpack_le 2 q 0) (\<lambda>ver. rbind (unpack_le 2 q 2) (\<lambda>akt. rbind (unpack_le 4 q 4) (\<lambda>tee.
     let body = slice q 48 (48 + 584) in
     rbind (unpack_le 4 q (48 + 584)) (\<lambda>sig_len.
     let sg = slice q (48 + 584 + 4) (48 + 584 + 4 + nat sig_len) in
     rbind (unpack_le 2 sg 128) (\<lambda>cdt. rbind (unpack_le 4 sg 130) (\<lambda>cds.
     Ok (\<lparr>h_version = ver, h_att_key_type = akt, h_tee_type = py_hex tee, h_qe_vendor_id = hex (slice q 12 28), h_user_data = hex (slice q 28 48)\<rparr>,
        \<lparr>b_tee_tcb_svn = hex (slice body 0 16), b_mrseam = hex (slice body 16 64), b_seam_attributes = hex (slice body 112 120),
         b_td_attributes = hex (slice body 120 128), b_xfam = hex (slice body 128 136), b_mrtd = hex (slice body 136 184),
         b_mrconfigid = hex (slice body 184 232), b_mrowner = hex (slice body 232 280), b_mrownerconfig = hex (slice body 280 328),
         b_rtmr0 = hex (slice body 328 376), b_rtmr1 = hex (slice body 376 424), b_rtmr2 = hex (slice body 424 472), b_rtmr3 = hex (slice body 472 520),
         b_report_data = hex (slice body 520 584)\<rparr>,
        \<lparr>t_sig = slice sg 0 64, t_ak = slice sg 64 128, t_cert_data_type = cdt, t_cert_data_size = cds, t_cert_data = slice sg 134 (134 + nat cds)\<rparr>)))))))"

record tdx_out =
  to_header :: tdx_header
  to_mrtd :: string
  to_report_data :: string
  to_td_attributes :: string
  to_cert_data_type :: int
  to_quote_sig_ok :: "bool option"
  to_qe_binds_ak :: "bool option"
  to_qe_report_sig_ok :: "bool option"
  to_pck_chain :: "string list option"
  to_root_is_intel :: "bool option"
  to_pck_ext :: "bool option"
  to_error :: "pyerr option"

text \<open>Two big-endian integers of 32 bytes.\<close>

definition pair256 :: "bytes \<Rightarrow> int \<times> int" where
  "pair256 b = (from_big (take 32 b), from_big (drop 32 b))"

definition INTEL_ROOT_URL :: string where
  "INTEL_ROOT_URL = ''https://certificates.trustedservices.intel.com/Intel_SGX_Provisioning_Certification_RootCA.pem''"

definition SGX_EXT_OID :: string where
  "SGX_EXT_OID = ''1.2.840.113741.1.13.1''"

text \<open>The QE certification data: \<open>qe_report\<close>, its signature, the authentication data, the PEM chain.\<close>

definition qe_block :: "'c gpki \<Rightarrow> fetch \<Rightarrow> tdx_sig \<Rightarrow> tdx_out block" where
  "qe_block P get s = (let cd = t_cert_data s; qe_report = slice cd 0 384; qe_sig = slice cd 384 448 in
     need (unpack_le 2 cd 448) (\<lambda>auth_size.
     let auth = slice cd 450 (450 + nat auth_size); p = 450 + nat auth_size in
     need (unpack_le 2 cd p) (\<lambda>ctype. need (unpack_le 4 cd (p + 2)) (\<lambda>csize.
     let pem = slice cd (p + 6) (p + 6 + nat csize) in
     assign (\<lambda>o'. o'\<lparr>to_qe_binds_ak := Some (slice qe_report 320 352 = sha256 (t_ak s @ auth))\<rparr>) (
     need (load_pem_chain P pem) (\<lambda>certs. need (nth_res certs 0) (\<lambda>pck.
     need (verified (ecdsa256_ok P pck (pair256 qe_sig) qe_report)) (\<lambda>_. assign (\<lambda>o'. o'\<lparr>to_qe_report_sig_ok := Some True\<rparr>) (
     need (links_verified (ec_issued P) (zip certs (tl certs))) (\<lambda>_. let root = last certs in
     need (verified (ec_issued P root root)) (\<lambda>_. assign (\<lambda>o'. o'\<lparr>to_pck_chain := Some (map (subject P) certs)\<rparr>) (
     need (rbind (get INTEL_ROOT_URL) (load_pem P)) (\<lambda>intel_root.
     assign (\<lambda>o'. o'\<lparr>to_root_is_intel := Some (cert_der P root = cert_der P intel_root)\<rparr>) (
     assign (\<lambda>o'. o'\<lparr>to_pck_ext := Some (ext_value (pki_of P) pck SGX_EXT_OID \<noteq> None)\<rparr>) stop))))))))))))))"

definition tdx_block :: "'c gpki \<Rightarrow> fetch \<Rightarrow> bytes \<Rightarrow> tdx_sig \<Rightarrow> tdx_out block" where
  "tdx_block P get q s =
     need (p256_load P (pair256 (t_ak s))) (\<lambda>_.
     need (verified (p256_ok P (pair256 (t_ak s)) (pair256 (t_sig s)) (take (48 + 584) q))) (\<lambda>_.
     assign (\<lambda>o'. o'\<lparr>to_quote_sig_ok := Some True\<rparr>) (if t_cert_data_type s = 6 then qe_block P get s else stop)))"

definition tdx_start :: "tdx_header \<Rightarrow> tdx_body \<Rightarrow> tdx_sig \<Rightarrow> tdx_out" where
  "tdx_start h b s = \<lparr>to_header = h, to_mrtd = take 32 (b_mrtd b), to_report_data = b_report_data b, to_td_attributes = b_td_attributes b,
     to_cert_data_type = t_cert_data_type s, to_quote_sig_ok = None, to_qe_binds_ak = None, to_qe_report_sig_ok = None,
     to_pck_chain = None, to_root_is_intel = None, to_pck_ext = None, to_error = None\<rparr>"

definition tdx_verify :: "'c gpki \<Rightarrow> fetch \<Rightarrow> bytes \<Rightarrow> tdx_out res" where
  "tdx_verify P get q = rbind (tdx_parse q) (\<lambda>(h, b, s).
     Ok (catch (\<lambda>e o'. o'\<lparr>to_error := Some e\<rparr>) (tdx_block P get q s) (tdx_start h b s)))"

section \<open>The endorsement key certificate\<close>

text \<open>The value of Google's instance extension: the named elements of the sequence, else the protobuf
  fields, else the exception of the sequence reader.\<close>

datatype gce_ext =
    GceFields "(string \<times> der) list"
  | GceProtobuf "(int \<times> pbval list) list"
  | GceFailed pyerr

record ek_out =
  ek_subject :: string
  ek_issuer :: string
  ek_not_before :: string
  ek_san :: "string list option"
  ek_oids :: "string list"
  ek_gce_raw :: "string option"
  ek_gce :: "gce_ext option"
  ek_issuer_sig_ok :: "bool option"
  ek_issuer_of_issuer :: "string option"
  ek_error :: "pyerr option"

definition GCE_OID :: string where "GCE_OID = ''1.3.6.1.4.1.11129.2.1.21''"

definition GCE_NAMES :: "string list" where
  "GCE_NAMES = [''zone'', ''project_number'', ''project_id'', ''instance_id'', ''instance_name'', ''security_properties'']"

text \<open>The OCTET STRING wrapper: \<open>raw[1]\<close> raises when nothing follows the tag.\<close>

definition unwrap_octets :: "bytes \<Rightarrow> bytes res" where
  "unwrap_octets raw = (if take 1 raw = [0x04] then
     rbind (byte_at raw 1) (\<lambda>n. Ok (if n AND 0x80 \<noteq> 0 then drop (2 + nat (n AND 0x7f)) raw else drop 2 raw)) else Ok raw)"

definition gce_fields :: "der list \<Rightarrow> (string \<times> der) list" where
  "gce_fields items = map (\<lambda>i. (if i < length GCE_NAMES then GCE_NAMES ! i else ''field'' @ dec (int i), items ! i)) [0..<length items]"

definition gce_decode :: "bytes \<Rightarrow> gce_ext" where
  "gce_decode raw = (case der_seq raw of Inr items \<Rightarrow> GceFields (gce_fields items)
     | Inl ex \<Rightarrow> (case pb_decode raw of Inr pb \<Rightarrow> GceProtobuf pb | Inl _ \<Rightarrow> GceFailed ex))"

text \<open>The loop over the extensions; a later one of the same kind overwrites.\<close>

fun ek_exts :: "(string \<times> bytes) list \<Rightarrow> ek_out \<Rightarrow> ek_out res" where
  "ek_exts [] o' = Ok o'"
| "ek_exts ((oid, v) # es) o' = (if oid = GCE_OID then
     rbind (unwrap_octets v) (\<lambda>raw. ek_exts es (o'\<lparr>ek_gce_raw := Some (take 120 (hex raw)), ek_gce := Some (gce_decode raw)\<rparr>))
     else ek_exts es o')"

definition ek_issuer_block :: "'c gpki \<Rightarrow> fetch \<Rightarrow> 'c \<Rightarrow> ek_out block" where
  "ek_issuer_block P get cert =
     need (aia_issuers P cert) (\<lambda>urls. need (nth_res urls 0) (\<lambda>url. need (get url) (\<lambda>raw.
     need (if take 1 raw = [0x30] then load_der P raw else load_pem P raw) (\<lambda>issuer.
     need (verified (if is_rsa P issuer then rsa15_issued P issuer cert else ec_issued P issuer cert)) (\<lambda>_.
     assign (\<lambda>o'. o'\<lparr>ek_issuer_sig_ok := Some True\<rparr>) (
     assign (\<lambda>o'. o'\<lparr>ek_issuer_of_issuer := Some (issuer_name P issuer)\<rparr>) stop))))))"

definition ek_verify :: "'c gpki \<Rightarrow> fetch \<Rightarrow> bytes \<Rightarrow> ek_out res" where
  "ek_verify P get file = rbind (load_der P file) (\<lambda>cert.
     rbind (ek_exts (exts P cert)
       \<lparr>ek_subject = subject P cert, ek_issuer = issuer_name P cert, ek_not_before = not_before P cert,
        ek_san = (case san P cert of Inl _ \<Rightarrow> None | Inr ns \<Rightarrow> Some (map (take 120) ns)), ek_oids = map fst (exts P cert),
        ek_gce_raw = None, ek_gce = None, ek_issuer_sig_ok = None, ek_issuer_of_issuer = None, ek_error = None\<rparr>) (\<lambda>o'.
     Ok (catch (\<lambda>e o'. o'\<lparr>ek_error := Some e\<rparr>) (ek_issuer_block P get cert) o')))"

section \<open>The rows of a run\<close>

text \<open>\<open>report.bin\<close> and \<open>quote.bin\<close> are judged when they are long enough; the nonce is the hex SHA-512 of
  the sentence.\<close>

record gcp_files =
  gf_metadata :: "string option"
  gf_sentence :: "string option"
  gf_report :: "bytes option"
  gf_quote :: "bytes option"
  gf_eks :: "bytes list"
  gf_tokens :: "string list"

record gcp_row =
  gr_zone :: "string option"
  gr_machine :: "string option"
  gr_tee :: "string option"
  gr_captured :: "string option"
  gr_snp :: "(snp_out \<times> bool) option"
  gr_tdx :: "(tdx_out \<times> bool) option"
  gr_ek :: "ek_out list"
  gr_tokens :: "jwt_result list"

definition judge_report :: "'c gpki \<Rightarrow> fetch \<Rightarrow> string \<Rightarrow> bytes option \<Rightarrow> (snp_out \<times> bool) option res" where
  "judge_report P get nonce file = (case file of
     Some b \<Rightarrow> if 1184 \<le> length b then
       (let rep = take 1184 b in rbind (gcp_snp_parse rep) (\<lambda>f. Ok (Some (snp_verify P get rep f, g_report_data f = nonce)))) else Ok None
   | None \<Rightarrow> Ok None)"

definition judge_quote :: "'c gpki \<Rightarrow> fetch \<Rightarrow> string \<Rightarrow> bytes option \<Rightarrow> (tdx_out \<times> bool) option res" where
  "judge_quote P get nonce file = (case file of
     Some q \<Rightarrow> if 700 < length q then rbind (tdx_verify P get q) (\<lambda>t. Ok (Some (t, to_report_data t = nonce))) else Ok None
   | None \<Rightarrow> Ok None)"

definition gcp_run :: "'c gpki \<Rightarrow> 'c jwt_lib \<Rightarrow> fetch \<Rightarrow> gcp_files \<Rightarrow> gcp_row res" where
  "gcp_run P R get d =
     rbind (of_option FileNotFoundError (gf_metadata d)) (\<lambda>text0. let mt = key_values (split_ws text0) in
     rbind (of_option FileNotFoundError (gf_sentence d)) (\<lambda>sent. let nonce = hex (sha512 (utf8 sent)) in
     rbind (judge_report P get nonce (gf_report d)) (\<lambda>snp.
     rbind (judge_quote P get nonce (gf_quote d)) (\<lambda>tdx.
     rbind (rmap (ek_verify P get) (filter (\<lambda>b. b \<noteq> []) (gf_eks d))) (\<lambda>eks.
     rbind (rmap (jwt_verify R get) (filter (\<lambda>t. t \<noteq> []) (gf_tokens d))) (\<lambda>toks.
     Ok \<lparr>gr_zone = map_of mt ''zone'', gr_machine = map_of mt ''machine-type'', gr_tee = map_of mt ''tee'',
        gr_captured = map_of mt ''captured'', gr_snp = snp, gr_tdx = tdx, gr_ek = eks, gr_tokens = toks\<rparr>))))))"

section \<open>Lemmas\<close>

lemma links_verified_Inr: "links_verified ok ls = Inr u \<longleftrightarrow> list_all (\<lambda>(child, parent). ok parent child) ls"
  by (induction ls) (auto simp: res_iff)

lemma nth_res_Inr: "nth_res xs i = Inr x \<longleftrightarrow> i < length xs \<and> x = xs ! i"
  by (auto simp: nth_res_def)

lemma zip_tl_links: "list_all (\<lambda>(child, parent). ok parent child) (zip xs (tl xs)) \<longleftrightarrow> (\<forall>i. Suc i < length xs \<longrightarrow> ok (xs ! Suc i) (xs ! i))"
  by (auto simp: list_all_length nth_tl)

lemma tdx_parse_report_data:
  assumes "tdx_parse q = Inr (h, b, s)"
  shows "b_report_data b = hex (slice q 568 632)"
proof -
  have "slice (slice q 48 632) 520 584 = slice q 568 632" by (simp add: slice_def drop_take)
  with assms show ?thesis unfolding tdx_parse_def Let_def rbind_Inr_iff sum.inject prod.inject
    by (elim exE conjE) (hypsubst, simp only: tdx_body.select_convs add_num_simps numeral_plus_numeral)
qed

text \<open>The parts of the QE certification data, and what a quote establishes with them: the links from a
  self-signed root to the quote.\<close>

definition qe_auth :: "tdx_sig \<Rightarrow> bytes" where
  "qe_auth s = slice (t_cert_data s) 450 (450 + nat (from_little (slice (t_cert_data s) 448 450)))"

definition qe_pem :: "tdx_sig \<Rightarrow> bytes" where
  "qe_pem s = (let p = 450 + nat (from_little (slice (t_cert_data s) 448 450)) in
     slice (t_cert_data s) (p + 6) (p + 6 + nat (from_little (slice (t_cert_data s) (p + 2) (p + 2 + 4)))))"

definition quote_chain :: "'c gpki \<Rightarrow> bytes \<Rightarrow> tdx_sig \<Rightarrow> 'c list \<Rightarrow> bool" where
  "quote_chain P q s certs \<longleftrightarrow>
     (let qe_report = slice (t_cert_data s) 0 384; qe_sig = slice (t_cert_data s) 384 448 in
      load_pem_chain P (qe_pem s) = Inr certs \<and> certs \<noteq> [] \<and> ec_issued P (last certs) (last certs)
      \<and> (\<forall>i. Suc i < length certs \<longrightarrow> ec_issued P (certs ! Suc i) (certs ! i))
      \<and> ecdsa256_ok P (hd certs) (pair256 qe_sig) qe_report
      \<and> slice qe_report 320 352 = sha256 (t_ak s @ qe_auth s)
      \<and> p256_ok P (pair256 (t_ak s)) (pair256 (t_sig s)) (take 632 q))"

lemma qe_block_done:
  assumes "qe_block P get s o1 = (o2, None)"
  obtains certs intel where "load_pem_chain P (qe_pem s) = Inr certs"
    "certs \<noteq> []" "ec_issued P (last certs) (last certs)" "\<forall>i. Suc i < length certs \<longrightarrow> ec_issued P (certs ! Suc i) (certs ! i)"
    "ecdsa256_ok P (hd certs) (pair256 (slice (t_cert_data s) 384 448)) (slice (t_cert_data s) 0 384)"
    "rbind (get INTEL_ROOT_URL) (load_pem P) = Inr intel"
    "to_qe_binds_ak o2 = Some (slice (slice (t_cert_data s) 0 384) 320 352 = sha256 (t_ak s @ qe_auth s))"
    "to_root_is_intel o2 = Some (cert_der P (last certs) = cert_der P intel)"
    "to_report_data o2 = to_report_data o1" "to_cert_data_type o2 = to_cert_data_type o1"
proof -
  let ?n = "nat (from_little (slice (t_cert_data s) 448 450))"
  let ?c = "nat (from_little (slice (t_cert_data s) (450 + ?n + 2) (450 + ?n + 2 + 4)))"
  from assms obtain certs pck intel where
    l: "load_pem_chain P (slice (t_cert_data s) (450 + ?n + 6) (450 + ?n + 6 + ?c)) = Inr certs"
    and k: "nth_res certs 0 = Inr pck" "ecdsa256_ok P pck (pair256 (slice (t_cert_data s) 384 448)) (slice (t_cert_data s) 0 384)"
    and i: "list_all (\<lambda>(child, parent). ec_issued P parent child) (zip certs (tl certs))" "ec_issued P (last certs) (last certs)"
    and r: "rbind (get INTEL_ROOT_URL) (load_pem P) = Inr intel"
    and o2: "to_qe_binds_ak o2 = Some (slice (slice (t_cert_data s) 0 384) 320 352 = sha256 (t_ak s @ slice (t_cert_data s) 450 (450 + ?n)))"
      "to_root_is_intel o2 = Some (cert_der P (last certs) = cert_der P intel)"
      "to_report_data o2 = to_report_data o1" "to_cert_data_type o2 = to_cert_data_type o1"
    unfolding qe_block_def Let_def block_done unpack_le_Inr_iff verified_Inr links_verified_Inr
    by (elim exE conjE) (hypsubst, simp)
  from k(1) have "certs \<noteq> []" "pck = hd certs" by (auto simp: nth_res_Inr hd_conv_nth)
  with that l k(2) i r o2 show thesis by (simp add: qe_auth_def qe_pem_def Let_def zip_tl_links)
qed

lemma unwrap_tlv:
  assumes "der_fits v"
  shows "unwrap_octets (tlv 0x04 v) = Inr v"
proof (cases "length v < 128")
  case True
  then show ?thesis by (simp add: unwrap_octets_def tlv_def der_length_def byte_at_def uint_byte_of_nat top_bit)
next
  case False
  let ?b = "be_bytes (length v)"
  have k: "length ?b < 128" using assms by (simp add: der_fits_def)
  have u: "uint (word_of_nat (128 + length ?b) :: byte) = 128 + int (length ?b)"
    using k by (simp add: uint_byte_of_nat del: of_nat_add)
  have "(128 + int (length ?b)) AND 128 \<noteq> 0" "(128 + int (length ?b)) AND 127 = int (length ?b)"
    using k by (simp_all add: top_bit low_bits)
  then show ?thesis using False u
    by (simp add: unwrap_octets_def tlv_def der_length_def byte_at_def del: of_nat_add)
qed

lemma gce_fields_named: "length items \<le> length GCE_NAMES \<Longrightarrow> gce_fields items = zip GCE_NAMES items"
  by (auto simp: gce_fields_def intro!: nth_equalityI)

lemma ek_exts_skip: "GCE_OID \<notin> fst ` set es \<Longrightarrow> ek_exts es o' = Inr o'"
  by (induction es) auto

lemma ek_exts_append: "ek_exts (es @ es') o' = rbind (ek_exts es o') (ek_exts es')"
  by (induction es o' rule: ek_exts.induct) (auto simp: rbind_def split: sum.splits)

lemma ek_issuer_keeps: "ek_gce (catch (\<lambda>e o'. o'\<lparr>ek_error := Some e\<rparr>) (ek_issuer_block P get cert) o1) = ek_gce o1"
  by (simp add: ek_issuer_block_def catch_def need_def assign_def stop_def split: sum.split)

lemma ek_issuer_confirmed:
  assumes "ek_issuer_sig_ok o1 = None"
    and "ek_issuer_sig_ok (catch (\<lambda>e o'. o'\<lparr>ek_error := Some e\<rparr>) (ek_issuer_block P get cert) o1) = Some True"
  shows "\<exists>url urls raw issuer. aia_issuers P cert = Inr (url # urls) \<and> get url = Inr raw
    \<and> (if take 1 raw = [0x30] then load_der P raw else load_pem P raw) = Inr issuer
    \<and> (if is_rsa P issuer then rsa15_issued P issuer cert else ec_issued P issuer cert)"
proof (cases "aia_issuers P cert")
  case (Inr urls)
  with assms show ?thesis
    by (cases urls) (auto simp: ek_issuer_block_def catch_def need_def assign_def stop_def nth_res_def verified_def rassert_def
        split: sum.splits if_splits)
qed (use assms in \<open>simp add: ek_issuer_block_def catch_def need_def\<close>)

text \<open>A package for the witnesses: certificates are numbers, 5 is the root, it issued 4 and itself, and
  every signature holds.\<close>

definition demo_gpki :: "nat gpki" where
  "demo_gpki = \<lparr>ecdsa384_ok = (\<lambda>c rs m. True), is_rsa = (\<lambda>c. False), rsa_issued = (\<lambda>p c. False),
     ec_issued = (\<lambda>p c. (p, c) \<in> {(5, 4), (5, 5)}), exts = (\<lambda>c. [(GCE_OID, tlv 0x04 (der_enc (DSeq [DStr [0x7a]])))]),
     subject = (\<lambda>c. ''CN=demo''), spki_der = (\<lambda>c. []), load_pem = (\<lambda>b. Ok 5), load_der = (\<lambda>b. Ok 4),
     load_pem_chain = (\<lambda>b. Ok [4, 5]), issue_error = (\<lambda>p c. ''x''),
     p256_load = (\<lambda>xy. Ok ()), p256_ok = (\<lambda>xy rs m. True), ecdsa256_ok = (\<lambda>c rs m. True), rsa15_issued = (\<lambda>p c. False),
     cert_der = (\<lambda>c. [word_of_nat c]), issuer_name = (\<lambda>c. ''CN=demo''), not_before = (\<lambda>c. ''2026''),
     san = (\<lambda>c. Err ValueError), aia_issuers = (\<lambda>c. Ok [''u''])\<rparr>"

text \<open>A quote whose QE report binds the zero attestation key.\<close>

definition demo_cert_data :: bytes where
  "demo_cert_data = zeros 320 @ sha256 (zeros 64) @ zeros 32 @ zeros 64 @ [0, 0, 5, 0, 0, 0, 0, 0]"

definition demo_quote :: bytes where
  "demo_quote = zeros 632 @ [78, 2, 0, 0] @ zeros 128 @ [6, 0, 200, 1, 0, 0] @ demo_cert_data"

text \<open>What a good SEV-SNP row means.\<close>

lemma snp_block_marks:
  assumes "so_report_sig_ok o1 = None" "so_chain_ok o1 = None"
    and "so_chain_ok (fst (snp_block P get rep f o1)) = Some True"
  shows "\<exists>vcek ask ark rest. rbind (get (vcek_url ''Milan'' (g_chip_id f) (tcb_parts (g_reported_tcb f)))) (load_der P) = Inr vcek
    \<and> rbind (get (chain_url ''vcek'' ''Milan'')) (load_pem_chain P) = Inr (ask # ark # rest)
    \<and> sig_ok (pki_of P) rep vcek \<and> rsa_issued P ask vcek \<and> rsa_issued P ark ask \<and> rsa_issued P ark ark
    \<and> so_hwid (fst (snp_block P get rep f o1)) = Some (hwid_equals (pki_of P) vcek (g_chip_id f) = Some True)"
proof -
  have "\<not> so_chain_ok o1 = Some True" using assms(2) by simp
  note mark = need_mark [where Q = "\<lambda>s. so_chain_ok s = Some True" and s = o1, OF this]
  have "so_chain_ok (fst (need r k (o1\<lparr>so_report_sig_ok := v\<rparr>))) = Some True \<longleftrightarrow>
      (\<exists>x. r = Inr x \<and> so_chain_ok (fst (k x (o1\<lparr>so_report_sig_ok := v\<rparr>))) = Some True)" for r :: "unit res" and k v
    by (rule need_mark [where Q = "\<lambda>s. so_chain_ok s = Some True"]) (simp add: assms(2))
  note mark2 = this
  from assms(3) [unfolded snp_block_def, simplified mark assign_def mark2] obtain vcek chain where
      c: "rbind (get (vcek_url ''Milan'' (g_chip_id f) (tcb_parts (g_reported_tcb f)))) (load_der P) = Inr vcek"
        "rbind (get (chain_url ''vcek'' ''Milan'')) (load_pem_chain P) = Inr chain" "1 < length chain"
        "sig_ok (pki_of P) rep vcek" "links_verified (rsa_issued P) [(vcek, chain ! 0), (chain ! 0, chain ! 1), (chain ! 1, chain ! 1)] = Inr ()"
    by (auto simp: nth_res_Inr verified_Inr)
  then obtain ask ark rest where ch: "chain = ask # ark # rest" by (cases chain; cases "tl chain") auto
  from c(5) have l: "rsa_issued P ask vcek" "rsa_issued P ark ask" "rsa_issued P ark ark"
    by (simp_all add: links_verified_Inr ch del: links_verified.simps)
  have "so_hwid (fst (snp_block P get rep f o1)) = Some (hwid_equals (pki_of P) vcek (g_chip_id f) = Some True)"
    by (simp add: snp_block_def c ch block_simps nth_res_def verified_def l)
  with c l ch show ?thesis by blast
qed

lemma catch_hwid: "so_hwid (catch (\<lambda>e s. s\<lparr>so_error := Some e\<rparr>) b s) = so_hwid (fst (b s))"
  by (cases "b s"; cases "snd (b s)") (auto simp: catch_def)

section \<open>Properties\<close>

text \<open>C27: What a clean TDX verdict means. If the verification of a quote with QE certification data ran to
  its end, the QE report binds the attestation key, and the root is Intel's, then certificates embedded in
  the quote lead from a self-signed root whose bytes are those of Intel's root to a key that signed the QE
  report, that report holds the SHA-256 of the attestation key and its authentication data, the attestation
  key signed the first 632 bytes of the quote, and the REPORTDATA that is compared with the nonce lies in
  those bytes.\<close>

theorem tdx_verdict_sound:
  assumes "tdx_verify P get q = Inr t" and "to_error t = None" and "to_cert_data_type t = 6"
    and "to_qe_binds_ak t = Some True" and "to_root_is_intel t = Some True"
  shows "\<exists>h b s certs intel. tdx_parse q = Inr (h, b, s) \<and> quote_chain P q s certs
    \<and> rbind (get INTEL_ROOT_URL) (load_pem P) = Inr intel \<and> cert_der P (last certs) = cert_der P intel
    \<and> to_report_data t = hex (slice (take 632 q) 568 632)"
proof -
  from assms(1) obtain h b s where p: "tdx_parse q = Inr (h, b, s)"
    and t: "catch (\<lambda>e o'. o'\<lparr>to_error := Some e\<rparr>) (tdx_block P get q s) (tdx_start h b s) = t"
    by (auto simp: tdx_verify_def res_iff)
  have "tdx_block P get q s (tdx_start h b s) = (t, None)"
    by (rule catch_inv [OF t, where Q = "\<lambda>o'. to_error o' = None"]) (simp_all add: assms(2))
  then have q: "p256_ok P (pair256 (t_ak s)) (pair256 (t_sig s)) (take 632 q)"
    and b: "(if t_cert_data_type s = 6 then qe_block P get s else stop) ((tdx_start h b s)\<lparr>to_quote_sig_ok := Some True\<rparr>) = (t, None)"
    by (simp_all add: tdx_block_def block_done res_iff)
  have "t_cert_data_type s = 6"
    using b assms(3) by (cases "t_cert_data_type s = 6") (auto simp: stop_def tdx_start_def)
  with b have blk: "qe_block P get s ((tdx_start h b s)\<lparr>to_quote_sig_ok := Some True\<rparr>) = (t, None)" by simp
  obtain certs intel where c: "load_pem_chain P (qe_pem s) = Inr certs" "certs \<noteq> []"
    "ec_issued P (last certs) (last certs)" "\<forall>i. Suc i < length certs \<longrightarrow> ec_issued P (certs ! Suc i) (certs ! i)"
    "ecdsa256_ok P (hd certs) (pair256 (slice (t_cert_data s) 384 448)) (slice (t_cert_data s) 0 384)"
    "rbind (get INTEL_ROOT_URL) (load_pem P) = Inr intel"
    and o': "to_qe_binds_ak t = Some (slice (slice (t_cert_data s) 0 384) 320 352 = sha256 (t_ak s @ qe_auth s))"
    "to_root_is_intel t = Some (cert_der P (last certs) = cert_der P intel)"
    "to_report_data t = to_report_data ((tdx_start h b s)\<lparr>to_quote_sig_ok := Some True\<rparr>)"
    by (rule qe_block_done [OF blk])
  have k: "slice (slice (t_cert_data s) 0 384) 320 352 = sha256 (t_ak s @ qe_auth s)" "cert_der P (last certs) = cert_der P intel"
    using o'(1,2) assms(4,5) by simp_all
  have "quote_chain P q s certs" unfolding quote_chain_def Let_def using c(1-5) k(1) q by blast
  moreover have "to_report_data t = hex (slice (take 632 q) 568 632)"
    using tdx_parse_report_data [OF p] o'(3) by (simp add: slice_take tdx_start_def)
  ultimately show ?thesis using p c(6) k(2) by blast
qed

theorem tdx_verdict_sound_witness:
  "\<exists>t h b s certs. tdx_verify demo_gpki (\<lambda>_. Ok []) demo_quote = Inr t \<and> to_error t = None
     \<and> tdx_parse demo_quote = Inr (h, b, s) \<and> quote_chain demo_gpki demo_quote s certs"
proof -
  have len: "length demo_cert_data = 456" by (simp add: demo_cert_data_def length_sha256)
  obtain h b s where p: "tdx_parse demo_quote = Inr (h, b, s)" and s: "t_ak s = zeros 64" "t_cert_data s = demo_cert_data" "t_cert_data_type s = 6"
    by (simp add: tdx_parse_def demo_quote_def unpack_le_def slice_def len zeros_def Let_def)
  have cd: "slice (slice demo_cert_data 0 384) 320 352 = sha256 (zeros 64)" "slice demo_cert_data 450 450 = []"
    "unpack_le 2 demo_cert_data 448 = Inr 0" "unpack_le 2 demo_cert_data 450 = Inr 5" "unpack_le 4 demo_cert_data 452 = Inr 0"
    by (simp_all add: demo_cert_data_def slice_def length_sha256 unpack_le_def zeros_def)
  obtain t where t: "tdx_verify demo_gpki (\<lambda>_. Ok []) demo_quote = Inr t" "to_error t = None" "to_cert_data_type t = 6"
    "to_qe_binds_ak t = Some True" "to_root_is_intel t = Some True"
    using s by (simp add: tdx_verify_def p catch_def tdx_block_def qe_block_def cd Let_def block_simps
        demo_gpki_def nth_res_def tdx_start_def verified_def)
  then show ?thesis using tdx_verdict_sound [OF t] by blast
qed

text \<open>Google's instance extension is read as it is encoded. For an endorsement key certificate with one
  such extension, an OCTET STRING around a DER sequence of at most six values, the verdict names each value
  after its position, whatever the issuer check says; and the issuer is confirmed only if the certificate
  fetched from the first address of the certificate signed it.\<close>

theorem ek_extension_named:
  assumes "load_der P file = Inr cert" and "exts P cert = pre @ (GCE_OID, tlv 0x04 (der_enc (DSeq items))) # post"
    and "GCE_OID \<notin> fst ` set pre" "GCE_OID \<notin> fst ` set post"
    and "der_ok (DSeq items)" "der_fits (der_enc (DSeq items))" "length items \<le> 6"
  shows "\<exists>o'. ek_verify P get file = Inr o' \<and> ek_gce o' = Some (GceFields (zip GCE_NAMES (map der_seen items)))
    \<and> (ek_issuer_sig_ok o' = Some True \<longrightarrow> (\<exists>url urls raw issuer. aia_issuers P cert = Inr (url # urls) \<and> get url = Inr raw
         \<and> (if take 1 raw = [0x30] then load_der P raw else load_pem P raw) = Inr issuer
         \<and> (if is_rsa P issuer then rsa15_issued P issuer cert else ec_issued P issuer cert)))"
proof -
  have g: "gce_decode (der_enc (DSeq items)) = GceFields (zip GCE_NAMES (map der_seen items))"
    using der_seq_reads [of items] assms(5,7) by (simp add: gce_decode_def gce_fields_named GCE_NAMES_def)
  let ?s = "\<lparr>ek_subject = subject P cert, ek_issuer = issuer_name P cert, ek_not_before = not_before P cert,
    ek_san = (case san P cert of Inl _ \<Rightarrow> None | Inr ns \<Rightarrow> Some (map (take 120) ns)), ek_oids = map fst (exts P cert),
    ek_gce_raw = None, ek_gce = None, ek_issuer_sig_ok = None, ek_issuer_of_issuer = None, ek_error = None\<rparr>"
  obtain o1 where o1: "ek_exts (exts P cert) ?s = Inr o1" "ek_gce o1 = Some (GceFields (zip GCE_NAMES (map der_seen items)))" "ek_issuer_sig_ok o1 = None"
    using assms(3,4) unfolding assms(2) by (simp add: ek_exts_append ek_exts_skip unwrap_tlv [OF assms(6)] g del: der_enc.simps)
  let ?o = "catch (\<lambda>e o'. o'\<lparr>ek_error := Some e\<rparr>) (ek_issuer_block P get cert) o1"
  have "ek_verify P get file = Inr ?o" using o1(1) by (simp add: ek_verify_def assms(1))
  moreover have "ek_gce ?o = ek_gce o1" by (rule ek_issuer_keeps)
  ultimately show ?thesis using ek_issuer_confirmed [OF o1(3)] o1(2) by metis
qed

theorem ek_extension_named_witness:
  "\<exists>o'. ek_verify demo_gpki (\<lambda>_. Ok [0x30]) [1] = Inr o' \<and> ek_gce o' = Some (GceFields [(''zone'', DStr [0x7a])])"
proof -
  have f: "der_fits [0x7a]" "der_fits (tlv 0x0c [0x7a])" "der_fits (der_enc (DSeq [DStr [0x7a]]))"
    by (simp_all add: der_fits_def be_bytes.simps tlv_def der_length_def)
  show ?thesis
    using ek_extension_named [of demo_gpki "[1]" 4 "[]" "[DStr [0x7a]]" "[]" "\<lambda>_. Ok [0x30]"] f
    by (auto simp: demo_gpki_def GCE_NAMES_def)
qed


text \<open>What a row of a run says of its SEV-SNP report. When \<open>main\<close> writes a row whose report has the nonce
  of the run and a verified chain, the report file's first 1184 bytes carry the SHA-512 of the published
  sentence as REPORT_DATA and are signed by the certificate that AMD's server issues for the CHIP_ID and
  TCB in the same report, that certificate leads to a self-signed root, and the hwID flag of the row is
  the comparison of the certificate's extension with that CHIP_ID.\<close>

theorem gcp_row_sound:
  assumes "gcp_run P R get d = Inr row" and "gr_snp row = Some (s, True)" and "so_chain_ok s = Some True"
  shows "\<exists>sent raw rep vcek ask ark rest. gf_sentence d = Some sent \<and> gf_report d = Some raw \<and> rep = take 1184 raw \<and> length rep = 1184
    \<and> report_data_of rep = sha512 (utf8 sent) \<and> sig_ok (pki_of P) rep vcek
    \<and> rbind (get (vcek_url ''Milan'' (hex (chip_id_of rep)) (tcb_parts (from_little (slice rep 384 392))))) (load_der P) = Inr vcek
    \<and> rbind (get (chain_url ''vcek'' ''Milan'')) (load_pem_chain P) = Inr (ask # ark # rest)
    \<and> rsa_issued P ask vcek \<and> rsa_issued P ark ask \<and> rsa_issued P ark ark
    \<and> so_hwid s = Some (hwid_equals (pki_of P) vcek (hex (chip_id_of rep)) = Some True)"
proof -
  from assms(1,2) obtain sent where sent: "gf_sentence d = Some sent"
    and j: "judge_report P get (hex (sha512 (utf8 sent))) (gf_report d) = Inr (Some (s, True))"
    unfolding gcp_run_def Let_def rbind_Inr_iff of_option_Inr_iff sum.inject by (elim exE conjE) (hypsubst, simp)
  from j obtain raw f where raw: "gf_report d = Some raw" "1184 \<le> length raw" and f: "gcp_snp_parse (take 1184 raw) = Inr f"
    and s: "snp_verify P get (take 1184 raw) f = s" and n: "g_report_data f = hex (sha512 (utf8 sent))"
    by (auto simp: judge_report_def Let_def rbind_Inr_iff split: option.splits if_splits)
  have len: "length (take 1184 raw) = 1184" using raw(2) by simp
  have fields: "g_chip_id f = hex (chip_id_of (take 1184 raw))" "g_reported_tcb f = from_little (slice (take 1184 raw) 384 392)"
    "g_report_data f = hex (report_data_of (take 1184 raw))"
    using f gcp_snp_parse_value [of "take 1184 raw"] len by auto
  define o0 where "o0 = \<lparr>so_signing_key = fl_signing_key (g_flags f), so_chip_id_zero = g_chip_id_zero f, so_chip_id_prefix = take 16 (g_chip_id f),
      so_host_data = g_host_data f, so_report_sig_ok = None, so_chain_ok = None, so_hwid = None, so_error = None\<rparr>"
  have o0: "so_report_sig_ok o0 = None" "so_chain_ok o0 = None" by (simp_all add: o0_def)
  have s': "s = catch (\<lambda>e s. s\<lparr>so_error := Some e\<rparr>) (snp_block P get (take 1184 raw) f) o0"
    using s by (simp add: snp_verify_def o0_def)
  have "so_chain_ok (fst (snp_block P get (take 1184 raw) f o0)) = Some True"
    using catch_mark [where Q = "\<lambda>s. so_chain_ok s = Some True", OF assms(3) [unfolded s']] by simp
  from snp_block_marks [OF o0 this] obtain vcek ask ark rest where c:
      "rbind (get (vcek_url ''Milan'' (g_chip_id f) (tcb_parts (g_reported_tcb f)))) (load_der P) = Inr vcek"
      "rbind (get (chain_url ''vcek'' ''Milan'')) (load_pem_chain P) = Inr (ask # ark # rest)"
      "sig_ok (pki_of P) (take 1184 raw) vcek" "rsa_issued P ask vcek" "rsa_issued P ark ask" "rsa_issued P ark ark"
      "so_hwid (fst (snp_block P get (take 1184 raw) f o0)) = Some (hwid_equals (pki_of P) vcek (g_chip_id f) = Some True)"
    by blast
  have "so_hwid s = so_hwid (fst (snp_block P get (take 1184 raw) f o0))" by (simp add: s' catch_hwid)
  moreover have "report_data_of (take 1184 raw) = sha512 (utf8 sent)" using n fields(3) by simp
  ultimately show ?thesis using sent raw(1) len c fields(1,2) by metis
qed


theorem gcp_row_sound_witness:
  "\<exists>raw row s vcek. gcp_run (demo_gpki\<lparr>rsa_issued := \<lambda>p c. True\<rparr>) demo_rsa (\<lambda>_. Ok [])
       \<lparr>gf_metadata = Some [], gf_sentence = Some ''s'', gf_report = Some raw, gf_quote = None, gf_eks = [], gf_tokens = []\<rparr> = Inr row
     \<and> gr_snp row = Some (s, True) \<and> so_chain_ok s = Some True
     \<and> sig_ok (pki_of (demo_gpki\<lparr>rsa_issued := \<lambda>p c. True\<rparr>)) (take 1184 raw) vcek \<and> report_data_of (take 1184 raw) = sha512 (utf8 ''s'')"
proof -
  let ?P = "demo_gpki\<lparr>rsa_issued := \<lambda>p c. True\<rparr>"
  define raw where "raw = put_slice (zeros 1184) 0x50 0x90 (sha512 (utf8 ''s''))"
  define d where "d = \<lparr>gf_metadata = Some [], gf_sentence = Some ''s'', gf_report = Some raw, gf_quote = None, gf_eks = [], gf_tokens = []\<rparr>"
  have len: "length raw = 1184" and rd: "report_data_of raw = sha512 (utf8 ''s'')"
    unfolding raw_def report_data_of_def by (subst length_put_slice, simp_all) (rule slice_put_same, simp_all)
  have "\<exists>row s. gcp_run ?P demo_rsa (\<lambda>_. Ok []) d = Inr row \<and> gr_snp row = Some (s, True) \<and> so_chain_ok s = Some True"
    by (simp add: gcp_run_def d_def judge_report_def judge_quote_def len gcp_snp_parse_value rd Let_def snp_verify_def
        snp_block_def catch_def block_simps demo_gpki_def nth_res_def sig_ok_def verified_def pki.truncate_def)
  then obtain row s where row: "gcp_run ?P demo_rsa (\<lambda>_. Ok []) d = Inr row" "gr_snp row = Some (s, True)" "so_chain_ok s = Some True"
    by blast
  from gcp_row_sound [OF row] obtain vcek where "sig_ok (pki_of ?P) (take 1184 raw) vcek" "report_data_of (take 1184 raw) = sha512 (utf8 ''s'')"
    unfolding d_def by auto
  with row show ?thesis unfolding d_def by blast
qed

end
