(* ===== verification/AzureVerify.thy ===== *)
theory AzureVerify
  imports NitroTpm GcpVerify
begin

text \<open>
  \<open>azure-cvm/azure_verify.py\<close>: the HCL report with its runtime data, the SEV-SNP report against the THIM
  and KDS certificates, the vTPM quote under the key of the runtime data, and the MAA token. The IMDS
  document is checked by the \<open>openssl\<close> command line and is not modelled.
\<close>

section \<open>Files and results\<close>

record az_files =
  az_meta :: "string option"
  az_sentence :: "string option"
  az_hcl :: "bytes option"
  az_report :: "bytes option"
  az_thim_vcek :: "bytes option"
  az_thim_chain :: "bytes option"
  az_quote_msg :: "bytes option"
  az_quote_sig :: "bytes option"
  az_handle :: "string option"
  az_maa :: "string option"

record hcl_info =
  hi_size :: nat
  hi_magic :: bytes
  hi_version :: "int option"
  hi_report_size :: "int option"
  hi_runtime_bytes :: nat
  hi_keys :: "string list option"
  hi_vm :: "json option"

record az_snp =
  as_report :: azure_report
  as_binds :: bool
  as_sig_ok :: "bool option"
  as_chain :: "string list option"
  as_chain_ok :: "bool option"
  as_hwid :: "bool option"
  as_identical :: "bool option"
  as_error :: "pyerr option"

record az_quote =
  aq_len :: nat
  aq_extra_ok :: "bool option"
  aq_sig_ok :: "bool option"
  aq_note :: bool
  aq_handle :: "string option option"
  aq_error :: "pyerr option"

record az_row =
  ar_region :: "string option"
  ar_size :: "string option"
  ar_tee :: "string option"
  ar_captured :: "string option"
  ar_hcl :: hcl_info
  ar_snp :: "az_snp option"
  ar_quote :: "az_quote option"
  ar_maa :: "maa_out option"

section \<open>The HCL report\<close>

text \<open>\<open>hcl.find(b"{", start)\<close>; a start past the end finds nothing.\<close>

definition find_brace :: "bytes \<Rightarrow> nat \<Rightarrow> nat option" where
  "find_brace b start = map_option (\<lambda>i. start + i) (find_sub [0x7b] (drop start b))"

definition hcl_runtime :: "bytes \<Rightarrow> bytes res" where
  "hcl_runtime hcl = (if take 4 hcl = utf8 ''HCLA'' then
     rbind (unpack_le 4 hcl 32) (\<lambda>v. let hw_len = (if v \<in> {2, 3, 4, 5} then 1184 else 1024) in
     case find_brace hcl (32 + hw_len) of None \<Rightarrow> Ok []
     | Some j0 \<Rightarrow> rbind (unpack_le 4 hcl (j0 - 4)) (\<lambda>jl. Ok (slice hcl j0 (j0 + nat jl)))) else Ok [])"

text \<open>\<open>rtj\<close>: the object, or \<open>{}\<close> when the runtime data is no JSON object.\<close>

definition runtime_json :: "bytes \<Rightarrow> (string \<times> json) list option" where
  "runtime_json rt = (case json_loads_bytes rt of Inr (JObj m) \<Rightarrow> Some m | _ \<Rightarrow> None)"

definition hcl_of :: "bytes \<Rightarrow> bytes \<Rightarrow> hcl_info res" where
  "hcl_of hcl rt =
     rbind (if hcl = [] then Ok None else rbind (unpack_le 4 hcl 4) (\<lambda>v. Ok (Some v))) (\<lambda>ver.
     rbind (if hcl = [] then Ok None else rbind (unpack_le 4 hcl 8) (\<lambda>v. Ok (Some v))) (\<lambda>rs.
     Ok \<lparr>hi_size = length hcl, hi_magic = take 4 hcl, hi_version = ver, hi_report_size = rs, hi_runtime_bytes = length rt,
        hi_keys = map_option (map fst) (runtime_json rt),
        hi_vm = map_option (\<lambda>m. case map_of m ''vm-configuration'' of None \<Rightarrow> JNull | Some v \<Rightarrow> v) (runtime_json rt)\<rparr>))"

section \<open>The SEV-SNP report\<close>

definition verify_chain :: "'c pki \<Rightarrow> 'c \<Rightarrow> 'c list \<Rightarrow> string list res" where
  "verify_chain P leaf chain = rbind (nth_res chain 0) (\<lambda>ask. rbind (nth_res chain 1) (\<lambda>ark.
     rbind (links_verified (issued P) [(leaf, ask), (ask, ark), (ark, ark)]) (\<lambda>_.
     Ok (map (\<lambda>c. split_on (CHR '','') (subject P c) ! 0) (leaf # chain)))))"

definition az_snp_block :: "'c gpki \<Rightarrow> fetch \<Rightarrow> az_files \<Rightarrow> bytes \<Rightarrow> azure_report \<Rightarrow> az_snp block" where
  "az_snp_block P get d rep f =
     need (rbind (open_file (az_thim_vcek d)) (load_pem P)) (\<lambda>vcek. need (rbind (open_file (az_thim_chain d)) (load_pem_chain P)) (\<lambda>chain.
     need (verified (sig_ok (pki_of P) rep vcek)) (\<lambda>_. assign (\<lambda>s. s\<lparr>as_sig_ok := Some True\<rparr>) (
     need (verify_chain (pki_of P) vcek chain) (\<lambda>names. assign (\<lambda>s. s\<lparr>as_chain := Some names\<rparr>) (
     assign (\<lambda>s. s\<lparr>as_chain_ok := Some True\<rparr>) (
     assign (\<lambda>s. s\<lparr>as_hwid := Some (hwid_equals (pki_of P) vcek (a_chip_id f) = Some True)\<rparr>) (
     need (get (vcek_url ''Milan'' (a_chip_id f) (tcb_parts (a_reported_tcb f)))) (\<lambda>kds.
     assign (\<lambda>s. s\<lparr>as_identical := Some (kds = cert_der P vcek)\<rparr>) stop)))))))))"

definition az_judge_report :: "'c gpki \<Rightarrow> fetch \<Rightarrow> az_files \<Rightarrow> bytes \<Rightarrow> az_snp option res" where
  "az_judge_report P get d rt = (case az_report d of None \<Rightarrow> Ok None
     | Some raw \<Rightarrow> let rep = take 1184 raw in rbind (azure_snp_parse rep) (\<lambda>f.
         Ok (Some (catch (\<lambda>e s. s\<lparr>as_error := Some e\<rparr>) (az_snp_block P get d rep f)
           \<lparr>as_report = f, as_binds = (take 64 (a_report_data f) = hex (sha256 rt) \<and> drop 64 (a_report_data f) = replicate 64 (CHR ''0'')),
            as_sig_ok = None, as_chain = None, as_chain_ok = None, as_hwid = None, as_identical = None, as_error = None\<rparr>))))"

section \<open>The vTPM quote\<close>

text \<open>\<open>{k.get("kid"): k for k in rtj.get("keys", [])}.get("HCLAkPub")\<close>: the last key of that name. A list
  or an object cannot be a dictionary key.\<close>

definition hcl_ak :: "(string \<times> json) list \<Rightarrow> json option res" where
  "hcl_ak rtj = rbind (case map_of rtj ''keys'' of None \<Rightarrow> Ok [] | Some v \<Rightarrow> jiter v) (\<lambda>ks.
     rbind (rmap (\<lambda>k. rbind (jget k ''kid'') (\<lambda>i. case i of JList _ \<Rightarrow> Err TypeError | JObj _ \<Rightarrow> Err TypeError | _ \<Rightarrow> Ok (i, k))) ks) (\<lambda>ps.
     Ok (map_of (rev ps) (JStr ''HCLAkPub''))))"

text \<open>\<open>tpm2b_pubkey_from_json\<close>: \<open>n\<close> is read before \<open>e\<close>.\<close>

definition tpm2b_pubkey_from_json :: "'c jwt_lib \<Rightarrow> json \<Rightarrow> (int \<times> int) res" where
  "tpm2b_pubkey_from_json R entry = rbind (b64u_item entry ''n'') (\<lambda>n. rbind (b64u_item entry ''e'') (\<lambda>e.
     rbind (rsa_load R (from_big e, from_big n)) (\<lambda>_. Ok (from_big e, from_big n))))"

definition az_quote_block :: "'c jwt_lib \<Rightarrow> string \<Rightarrow> (string \<times> json) list \<Rightarrow> string option \<Rightarrow> bytes \<Rightarrow> bytes \<Rightarrow> az_quote block" where
  "az_quote_block R nonce_hex rtj handle m sig =
     need (rassert (take 4 m = TPM_GENERATED) AssertionError) (\<lambda>_. need (attest_extra m) (\<lambda>(extra, i).
     assign (\<lambda>q. q\<lparr>aq_extra_ok := Some (hex extra = take 64 nonce_hex \<or> hex extra = nonce_hex)\<rparr>) (
     need (hcl_ak rtj) (\<lambda>ak. need (tpmt_signature sig) (\<lambda>(alg, raw).
     (case ak of
        Some k \<Rightarrow> need (tpm2b_pubkey_from_json R k) (\<lambda>en. need (verified (rsa256_ok R en raw m)) (\<lambda>_.
          assign (\<lambda>q. q\<lparr>aq_sig_ok := Some True\<rparr>) (assign (\<lambda>q. q\<lparr>aq_handle := Some (map_option strip handle)\<rparr>) stop)))
      | None \<Rightarrow> assign (\<lambda>q. q\<lparr>aq_note := True\<rparr>) (assign (\<lambda>q. q\<lparr>aq_handle := Some (map_option strip handle)\<rparr>) stop)))))))"

definition az_judge_quote :: "'c jwt_lib \<Rightarrow> string \<Rightarrow> (string \<times> json) list \<Rightarrow> az_files \<Rightarrow> az_quote option" where
  "az_judge_quote R nonce_hex rtj d = (case (az_quote_msg d, az_quote_sig d) of
     (Some m, Some sig) \<Rightarrow> Some (catch (\<lambda>e q. q\<lparr>aq_error := Some e\<rparr>) (az_quote_block R nonce_hex rtj (az_handle d) m sig)
       \<lparr>aq_len = length m, aq_extra_ok = None, aq_sig_ok = None, aq_note = False, aq_handle = None, aq_error = None\<rparr>)
   | _ \<Rightarrow> None)"

section \<open>One run\<close>

definition azure_run :: "'c gpki \<Rightarrow> 'c jwt_lib \<Rightarrow> fetch \<Rightarrow> az_files \<Rightarrow> az_row res" where
  "azure_run P R get d =
     rbind (open_file (az_meta d)) (\<lambda>text0. let mt = key_values (split_ws text0) in
     rbind (open_file (az_sentence d)) (\<lambda>sent. let nonce_hex = hex (sha512 (utf8 sent));
       hcl = (case az_hcl d of None \<Rightarrow> [] | Some b \<Rightarrow> b) in
     rbind (hcl_runtime hcl) (\<lambda>rt. rbind (hcl_of hcl rt) (\<lambda>hi.
     rbind (az_judge_report P get d rt) (\<lambda>snp.
     let q = az_judge_quote R nonce_hex (case runtime_json rt of None \<Rightarrow> [] | Some m \<Rightarrow> m) d in
     rbind (case az_maa d of None \<Rightarrow> Ok None
       | Some t \<Rightarrow> if t = [] then Ok None else rbind (maa_verify (pki_of P) R get t) (\<lambda>m. Ok (Some m))) (\<lambda>maa.
     Ok \<lparr>ar_region = map_of mt ''region'', ar_size = map_of mt ''size'', ar_tee = map_of mt ''tee'', ar_captured = map_of mt ''captured'',
        ar_hcl = hi, ar_snp = snp, ar_quote = q, ar_maa = maa\<rparr>))))))"


section \<open>Lemmas\<close>

lemma verify_chain_Inr:
  assumes "verify_chain P leaf chain = Inr names"
  obtains ask ark rest where "chain = ask # ark # rest" "issued P ask leaf" "issued P ark ask" "issued P ark ark"
proof -
  from assms have c: "1 < length chain" "links_verified (issued P) [(leaf, chain ! 0), (chain ! 0, chain ! 1), (chain ! 1, chain ! 1)] = Inr ()"
    by (auto simp: verify_chain_def rbind_Inr_iff nth_res_Inr)
  then obtain ask ark rest where ch: "chain = ask # ark # rest" by (cases chain; cases "tl chain") auto
  with c(2) that show thesis by (simp add: links_verified_Inr del: links_verified.simps)
qed

lemma az_snp_block_marks:
  assumes "as_chain_ok s = None" "as_chain_ok (fst (az_snp_block P get d rep f s)) = Some True"
  obtains vb vcek cb ask ark rest where "az_thim_vcek d = Some vb" "load_pem P vb = Inr vcek" "az_thim_chain d = Some cb"
    "load_pem_chain P cb = Inr (ask # ark # rest)" "sig_ok (pki_of P) rep vcek"
    "issued (pki_of P) ask vcek" "issued (pki_of P) ark ask" "issued (pki_of P) ark ark"
proof -
  from assms(2) obtain vcek chain names where
      "rbind (open_file (az_thim_vcek d)) (load_pem P) = Inr vcek" "rbind (open_file (az_thim_chain d)) (load_pem_chain P) = Inr chain"
      "sig_ok (pki_of P) rep vcek" "verify_chain (pki_of P) vcek chain = Inr names"
    by (auto simp: az_snp_block_def need_mark [where Q = "\<lambda>s. as_chain_ok s = Some True"] assms(1) assign_def verified_Inr)
  then show thesis using that by (auto simp: rbind_Inr_iff open_file_def of_option_Inr_iff elim!: verify_chain_Inr)
qed

lemma az_quote_block_marks:
  assumes "aq_sig_ok q = None" "aq_sig_ok (fst (az_quote_block R nonce_hex rtj handle m sig q)) = Some True"
  obtains extra i k alg raw en where "take 4 m = TPM_GENERATED" "attest_extra m = Inr (extra, i)" "hcl_ak rtj = Inr (Some k)"
    "tpmt_signature sig = Inr (alg, raw)" "tpm2b_pubkey_from_json R k = Inr en" "rsa256_ok R en raw m"
    "aq_extra_ok (fst (az_quote_block R nonce_hex rtj handle m sig q)) = Some (hex extra = take 64 nonce_hex \<or> hex extra = nonce_hex)"
proof -
  from assms obtain extra i ak alg raw where
      1: "take 4 m = TPM_GENERATED" "attest_extra m = Inr (extra, i)" "hcl_ak rtj = Inr ak" "tpmt_signature sig = Inr (alg, raw)"
    by (auto simp: az_quote_block_def need_mark [where Q = "\<lambda>q. aq_sig_ok q = Some True"] assign_def rassert_Inr_iff)
  from assms(2) obtain k where k: "ak = Some k"
    by (cases ak) (auto simp: az_quote_block_def 1 block_simps assms(1))
  from assms(2) obtain en where 2: "tpm2b_pubkey_from_json R k = Inr en" "rsa256_ok R en raw m"
    by (auto simp: az_quote_block_def 1 k block_simps need_mark [where Q = "\<lambda>q. aq_sig_ok q = Some True"] assms(1) verified_Inr)
  have "aq_extra_ok (fst (az_quote_block R nonce_hex rtj handle m sig q)) = Some (hex extra = take 64 nonce_hex \<or> hex extra = nonce_hex)"
    by (simp add: az_quote_block_def 1 k 2 block_simps)
  with 1 2 k that show thesis by blast
qed


lemma hcl_ak_Some:
  assumes "hcl_ak rtj = Inr (Some k)"
  shows "\<exists>v ks. map_of rtj ''keys'' = Some v \<and> jiter v = Inr ks \<and> k \<in> set ks \<and> jget k ''kid'' = Inr (JStr ''HCLAkPub'')"
proof -
  let ?f = "\<lambda>k. rbind (jget k ''kid'') (\<lambda>i. case i of JList _ \<Rightarrow> Err TypeError | JObj _ \<Rightarrow> Err TypeError | _ \<Rightarrow> Ok (i, k))"
  from assms obtain ks ps where ks: "(case map_of rtj ''keys'' of None \<Rightarrow> Ok [] | Some v \<Rightarrow> jiter v) = Inr ks"
    and ps: "rmap ?f ks = Inr ps" "map_of (rev ps) (JStr ''HCLAkPub'') = Some k"
    by (auto simp: hcl_ak_def rbind_Inr_iff)
  from ps(2) have "(JStr ''HCLAkPub'', k) \<in> set ps" by (auto dest: map_of_SomeD)
  from rmap_Ok_member [OF ps(1) this] obtain x where "x \<in> set ks" "?f x = Inr (JStr ''HCLAkPub'', k)" by blast
  then obtain i where i: "jget x ''kid'' = Inr i" and
      c: "(case i of JList _ \<Rightarrow> Err TypeError | JObj _ \<Rightarrow> Err TypeError | _ \<Rightarrow> Ok (i, x)) = Inr (JStr ''HCLAkPub'', k)"
    unfolding rbind_Inr_iff by blast
  from c have "i = JStr ''HCLAkPub''" "x = k" by (cases i; simp)+
  with i \<open>x \<in> set ks\<close> have "k \<in> set ks \<and> jget k ''kid'' = Inr (JStr ''HCLAkPub'')" by simp
  with ks show ?thesis by (auto split: option.splits)
qed

lemma take_hex: "take (2 * n) (hex b) = hex (take n b)"
proof (induction b arbitrary: n)
  case (Cons x xs)
  have "hex (x # xs) = hex_byte x @ hex xs" "length (hex_byte x) = 2" by (simp_all add: hex_def hex_byte_def)
  then show ?case using Cons by (cases n) (simp_all add: hex_def)
qed simp

lemma hex_zeros: "hex (zeros n) = replicate (2 * n) (CHR ''0'')"
  by (induction n) (simp_all add: zeros_def hex_def hex_byte_def hex_digit_def)

lemma binds_runtime:
  assumes "take 64 (hex rd) = hex (sha256 rt)" "drop 64 (hex rd) = replicate 64 (CHR ''0'')"
  shows "rd = sha256 rt @ zeros 32"
proof -
  have "hex (zeros 32) = replicate 64 (CHR ''0'')" using hex_zeros [of 32] by simp
  then have "hex rd = hex (sha256 rt @ zeros 32)" using append_take_drop_id [of 64 "hex rd"] assms by (simp add: hex_append)
  then show ?thesis by simp
qed

lemma az_block_binds: "as_binds (catch (\<lambda>e s. s\<lparr>as_error := Some e\<rparr>) (az_snp_block P get d rep f) s) = as_binds s"
  by (simp add: az_snp_block_def catch_def need_def assign_def stop_def split: sum.split)

lemma az_block_extra: "aq_extra_ok (catch (\<lambda>e q. q\<lparr>aq_error := Some e\<rparr>) b q) = aq_extra_ok (fst (b q))"
  by (cases "b q"; cases "snd (b q)") (auto simp: catch_def)

section \<open>Properties\<close>

text \<open>C7: The chain of trust of an Azure row. When the row reports a bound report with a verified chain and a
  quote that is signed and carries our nonce, then: the certificates lead from a self-signed root to the
  key that signed the report; the report's REPORT_DATA is the SHA-256 of the runtime data of the HCL file,
  padded with zeros; a key of the name HCLAkPub in that runtime data verifies the signature of the quote;
  the quote starts with the TPM's magic number; and its extraData is the SHA-512 of the published sentence
  or the first half of it.\<close>

theorem azure_chain_of_trust:
  assumes run: "azure_run P R get d = Inr row"
    and snp: "ar_snp row = Some s" "as_binds s" "as_chain_ok s = Some True"
    and quote: "ar_quote row = Some q" "aq_sig_ok q = Some True" "aq_extra_ok q = Some True"
  shows "\<exists>sent raw rt rtj keys v ak en sg msg i extra vcek ask ark rest vb cb.
    az_sentence d = Some sent \<and> az_report d = Some raw \<and> hcl_runtime (case az_hcl d of None \<Rightarrow> [] | Some b \<Rightarrow> b) = Inr rt
    \<and> az_thim_vcek d = Some vb \<and> load_pem P vb = Inr vcek \<and> az_thim_chain d = Some cb \<and> load_pem_chain P cb = Inr (ask # ark # rest)
    \<and> issued (pki_of P) ask vcek \<and> issued (pki_of P) ark ask \<and> issued (pki_of P) ark ark
    \<and> sig_ok (pki_of P) (take 1184 raw) vcek \<and> report_data_of (take 1184 raw) = sha256 rt @ zeros 32
    \<and> runtime_json rt = Some rtj \<and> map_of rtj ''keys'' = Some v \<and> jiter v = Inr keys \<and> ak \<in> set keys
    \<and> jget ak ''kid'' = Inr (JStr ''HCLAkPub'') \<and> tpm2b_pubkey_from_json R ak = Inr en
    \<and> az_quote_msg d = Some msg \<and> take 4 msg = TPM_GENERATED \<and> rsa256_ok R en sg msg
    \<and> attest_extra msg = Inr (extra, i) \<and> (extra = take 32 (sha512 (utf8 sent)) \<or> extra = sha512 (utf8 sent))"
proof -
  from run obtain sent rt where sent: "az_sentence d = Some sent"
    and rt: "hcl_runtime (case az_hcl d of None \<Rightarrow> [] | Some b \<Rightarrow> b) = Inr rt"
    and r: "az_judge_report P get d rt = Inr (ar_snp row)"
    and q: "ar_quote row = az_judge_quote R (hex (sha512 (utf8 sent))) (case runtime_json rt of None \<Rightarrow> [] | Some m \<Rightarrow> m) d"
    unfolding azure_run_def Let_def rbind_Inr_iff open_file_def of_option_Inr_iff sum.inject by (elim exE conjE) (hypsubst, simp)
  from r snp(1) obtain raw f s0 where raw: "az_report d = Some raw" and f: "azure_snp_parse (take 1184 raw) = Inr f"
    and s: "s = catch (\<lambda>e s. s\<lparr>as_error := Some e\<rparr>) (az_snp_block P get d (take 1184 raw) f) s0"
    and s0: "as_chain_ok s0 = None" "as_binds s0 \<longleftrightarrow> take 64 (a_report_data f) = hex (sha256 rt) \<and> drop 64 (a_report_data f) = replicate 64 (CHR ''0'')"
    by (fastforce simp: az_judge_report_def Let_def rbind_Inr_iff split: option.splits)
  have "as_chain_ok (fst (az_snp_block P get d (take 1184 raw) f s0)) = Some True"
    using catch_mark [where Q = "\<lambda>s. as_chain_ok s = Some True", OF snp(3) [unfolded s]] by simp
  then obtain vb vcek cb ask ark rest where c: "az_thim_vcek d = Some vb" "load_pem P vb = Inr vcek" "az_thim_chain d = Some cb"
    "load_pem_chain P cb = Inr (ask # ark # rest)" "sig_ok (pki_of P) (take 1184 raw) vcek"
    "issued (pki_of P) ask vcek" "issued (pki_of P) ark ask" "issued (pki_of P) ark ark"
    by (rule az_snp_block_marks [OF s0(1)])
  have "a_report_data f = hex (report_data_of (take 1184 raw))"
    using f by (auto simp: azure_snp_parse_def rbind_Inr_iff)
  moreover have "as_binds s0" using snp(2) by (simp add: s az_block_binds)
  ultimately have rd: "report_data_of (take 1184 raw) = sha256 rt @ zeros 32" using s0(2) by (intro binds_runtime) simp_all
  let ?rtj = "case runtime_json rt of None \<Rightarrow> [] | Some m \<Rightarrow> m" and ?n = "hex (sha512 (utf8 sent))"
  from q quote(1) obtain msg sig where m1: "az_quote_msg d = Some msg" "az_quote_sig d = Some sig"
    by (auto simp: az_judge_quote_def split: option.splits)
  define q0 where "q0 = \<lparr>aq_len = length msg, aq_extra_ok = None, aq_sig_ok = None, aq_note = False, aq_handle = None, aq_error = None\<rparr>"
  note m = m1 and m3 = arg_cong [where f = aq_sig_ok, OF q0_def, simplified]
  have q': "q = catch (\<lambda>e q. q\<lparr>aq_error := Some e\<rparr>) (az_quote_block R ?n ?rtj (az_handle d) msg sig) q0"
    using q quote(1) by (simp add: az_judge_quote_def m q0_def)
  have "aq_sig_ok (fst (az_quote_block R ?n ?rtj (az_handle d) msg sig q0)) = Some True"
    using catch_mark [where Q = "\<lambda>s. aq_sig_ok s = Some True", OF quote(2) [unfolded q']] by simp
  then obtain extra i k alg sg en where a: "take 4 msg = TPM_GENERATED" "attest_extra msg = Inr (extra, i)" "hcl_ak ?rtj = Inr (Some k)"
    "tpmt_signature sig = Inr (alg, sg)" "tpm2b_pubkey_from_json R k = Inr en" "rsa256_ok R en sg msg"
    "aq_extra_ok (fst (az_quote_block R ?n ?rtj (az_handle d) msg sig q0)) = Some (hex extra = take 64 ?n \<or> hex extra = ?n)"
    by (rule az_quote_block_marks [OF m3])
  from hcl_ak_Some [OF a(3)] obtain rtj v ks where k: "runtime_json rt = Some rtj" "map_of rtj ''keys'' = Some v" "jiter v = Inr ks" "k \<in> set ks"
    "jget k ''kid'' = Inr (JStr ''HCLAkPub'')" by (cases "runtime_json rt") auto
  have "hex extra = take 64 ?n \<or> hex extra = ?n" using quote(3) a(7) by (simp add: q' az_block_extra)
  then have "extra = take 32 (sha512 (utf8 sent)) \<or> extra = sha512 (utf8 sent)" using take_hex [of 32 "sha512 (utf8 sent)"] by auto
  with sent raw rt c rd k a m(1) show ?thesis by blast
qed


text \<open>A run that passes.\<close>

definition demo_runtime :: bytes where
  "demo_runtime = utf8 (json_dumps (JObj [(''keys'', JList [JObj [(''kid'', JStr ''HCLAkPub''), (''e'', JStr (b64u_encode [3])), (''n'', JStr (b64u_encode [33]))]])]))"

definition demo_az :: az_files where
  "demo_az = \<lparr>az_meta = Some [], az_sentence = Some ''s'', az_hcl = Some ((utf8 ''HCLA'' @ zeros 28 @ [2, 0, 0, 0] @ zeros 1180) @ [255, 255, 0, 0] @ demo_runtime),
     az_report = Some (put_slice (zeros 1184) 0x50 0x90 (sha256 demo_runtime @ zeros 32)), az_thim_vcek = Some [], az_thim_chain = Some [],
     az_quote_msg = Some (attest_bytes (demo_attest (sha512 (utf8 ''s'')))), az_quote_sig = Some (u16 20 @ u16 11 @ tpm2b [9] @ []),
     az_handle = None, az_maa = None\<rparr>"

definition demo_az_pki :: "nat gpki" where
  "demo_az_pki = demo_gpki\<lparr>ec_issued := \<lambda>p c. True\<rparr>"

lemma hcl_runtime_value:
  assumes "take 4 hcl = utf8 ''HCLA''" "unpack_le 4 hcl 32 = Inr 2" "find_brace hcl 1216 = Some 1220" "unpack_le 4 hcl 1216 = Inr 65535"
    and "slice hcl 1220 66755 = rt"
  shows "hcl_runtime hcl = Inr rt"
  using assms by (simp add: hcl_runtime_def)

lemma demo_runtime_short: "length demo_runtime < 60000"
proof -
  have "b64u_encode [3] = ''Aw''" "b64u_encode [33] = ''IQ''"
    by (simp_all add: b64u_encode_def b64_digit_def B64_CHARS_def to_urlsafe_def)
  then show ?thesis
    by (simp add: demo_runtime_def quoted_def escape_char_def QUOTE_def BACKSLASH_def utf8_def utf8_char_def)
qed

lemma demo_hcl_runtime:
  "hcl_runtime ((utf8 ''HCLA'' @ zeros 28 @ [2, 0, 0, 0] @ zeros 1180) @ [255, 255, 0, 0] @ demo_runtime) = Inr demo_runtime"
proof -
  let ?pre = "utf8 ''HCLA'' @ zeros 28 @ [2, 0, 0, 0] @ zeros 1180"
  let ?hcl = "?pre @ [255, 255, 0, 0] @ demo_runtime"
  have len: "length (utf8 ''HCLA'') = 4" by (simp add: length_utf8_ascii is_ascii_def)
  then have pre: "length ?pre = 1216" by simp
  obtain r where r: "demo_runtime = 0x7b # r" by (simp add: demo_runtime_def utf8_def utf8_char_def)
  show ?thesis
  proof (rule hcl_runtime_value)
    show "take 4 ?hcl = utf8 ''HCLA''" using len by simp
    show "unpack_le 4 ?hcl 32 = Inr 2" using len by (simp add: unpack_le_def slice_def)
    have "drop 1216 ?hcl = [255, 255, 0, 0] @ demo_runtime" using pre by simp
    then show "find_brace ?hcl 1216 = Some 1220" by (simp add: find_brace_def r)
    show "unpack_le 4 ?hcl 1216 = Inr 65535" using pre by (simp add: unpack_le_def slice_def)
    have "drop 1220 ?hcl = demo_runtime" using pre by simp
    then show "slice ?hcl 1220 66755 = demo_runtime" using demo_runtime_short by (simp add: slice_def)
  qed
qed

lemma demo_runtime_json:
  "runtime_json demo_runtime = Some [(''keys'', JList [JObj [(''kid'', JStr ''HCLAkPub''), (''e'', JStr (b64u_encode [3])), (''n'', JStr (b64u_encode [33]))]])]"
  by (simp add: runtime_json_def demo_runtime_def json_loads_bytes_dumps del: json_dumps.simps)


lemma demo_az_report:
  obtains s where "az_judge_report demo_az_pki (\<lambda>_. Ok []) demo_az demo_runtime = Inr (Some s)" "as_binds s" "as_chain_ok s = Some True"
proof -
  let ?rep = "put_slice (zeros 1184) 0x50 0x90 (sha256 demo_runtime @ zeros 32)"
  have len: "length ?rep = 1184" by (subst length_put_slice) simp_all
  have rd: "report_data_of ?rep = sha256 demo_runtime @ zeros 32" unfolding report_data_of_def by (rule slice_put_same) simp_all
  have h: "take 64 (hex (sha256 demo_runtime @ zeros 32)) = hex (sha256 demo_runtime)"
    "drop 64 (hex (sha256 demo_runtime @ zeros 32)) = replicate 64 (CHR ''0'')"
    using hex_zeros [of 32] by (simp_all add: hex_append)
  have f: "azure_snp_parse ?rep = Inr \<lparr>a_version = from_little (slice ?rep 0 4), a_policy = py_hex (from_little (slice ?rep 8 16)),
      a_flags = flags_of (from_little (slice ?rep 72 76)), a_report_data = hex (report_data_of ?rep),
      a_measurement = hex (measurement_of ?rep), a_host_data = hex (host_data_of ?rep), a_report_id = hex (report_id_of ?rep),
      a_reported_tcb = from_little (slice ?rep 384 392), a_chip_id = hex (chip_id_of ?rep), a_chip_id_zero = (chip_id_of ?rep = zeros 64)\<rparr>"
    by (rule azure_snp_parse_value) (simp only: len order_refl)
  have t: "take 1184 ?rep = ?rep" by (rule take_all) (simp only: len order_refl)
  have "\<exists>s. az_judge_report demo_az_pki (\<lambda>_. Ok []) demo_az demo_runtime = Inr (Some s) \<and> as_binds s \<and> as_chain_ok s = Some True"
    by (simp add: az_judge_report_def demo_az_def t f rd h Let_def az_snp_block_def catch_def open_file_def block_simps
        demo_az_pki_def demo_gpki_def nth_res_def sig_ok_def verified_def pki.truncate_def verify_chain_def issued_def del: hex_eq_iff)
  then show thesis using that by blast
qed

lemma demo_az_quote:
  obtains q where "az_judge_quote demo_rsa (hex (sha512 (utf8 ''s''))) [(''keys'', JList [JObj [(''kid'', JStr ''HCLAkPub''),
      (''e'', JStr (b64u_encode [3])), (''n'', JStr (b64u_encode [33]))]])] demo_az = Some q" "aq_extra_ok q = Some True" "aq_sig_ok q = Some True"
proof -
  let ?a = "demo_attest (sha512 (utf8 ''s''))"
  obtain i where i: "attest_extra (attest_bytes ?a) = Inr (sha512 (utf8 ''s''), i)"
    using attest_reads(1) [OF demo_attest_ok, of "sha512 (utf8 ''s'')" "[]"] by (simp add: demo_attest_def)
  have magic: "take 4 (attest_bytes ?a) = TPM_GENERATED" by (simp add: attest_bytes_def demo_attest_def TPM_GENERATED_def)
  have sig: "tpmt_signature (u16 20 @ u16 11 @ tpm2b [9] @ []) = Inr (20, [9])" using tpmt_signature_reads [of 20 "[9]" 11 "[]"] by simp
  show thesis using that
    by (simp add: az_judge_quote_def demo_az_def az_quote_block_def catch_def magic i sig [simplified] block_simps hcl_ak_def jiter_def jget_def
        tpm2b_pubkey_from_json_def b64u_item_def jitem_def jstr_def demo_rsa_def from_big_def verified_def)
qed

lemma hcl_of_long: "12 \<le> length hcl \<Longrightarrow> \<exists>hi. hcl_of hcl rt = Inr hi"
  by (cases hcl) (simp_all add: hcl_of_def unpack_le_def)

theorem azure_chain_of_trust_witness:
  "\<exists>row s q vcek en. azure_run demo_az_pki demo_rsa (\<lambda>_. Ok []) demo_az = Inr row \<and> ar_snp row = Some s \<and> ar_quote row = Some q
     \<and> sig_ok (pki_of demo_az_pki) (take 1184 (the (az_report demo_az))) vcek
     \<and> rsa256_ok demo_rsa en [9] (the (az_quote_msg demo_az))"
proof -
  obtain s where s: "az_judge_report demo_az_pki (\<lambda>_. Ok []) demo_az demo_runtime = Inr (Some s)" "as_binds s" "as_chain_ok s = Some True"
    by (rule demo_az_report)
  obtain q where q: "az_judge_quote demo_rsa (hex (sha512 (utf8 ''s''))) [(''keys'', JList [JObj [(''kid'', JStr ''HCLAkPub''),
      (''e'', JStr (b64u_encode [3])), (''n'', JStr (b64u_encode [33]))]])] demo_az = Some q" "aq_extra_ok q = Some True" "aq_sig_ok q = Some True"
    by (rule demo_az_quote)
  let ?hcl = "(utf8 ''HCLA'' @ zeros 28 @ [2, 0, 0, 0] @ zeros 1180) @ [255, 255, 0, 0] @ demo_runtime"
  have f: "az_meta demo_az = Some []" "az_sentence demo_az = Some ''s''" "az_hcl demo_az = Some ?hcl" "az_maa demo_az = None"
    by (simp_all add: demo_az_def)
  obtain hi where hi: "hcl_of ?hcl demo_runtime = Inr hi" using hcl_of_long [of ?hcl demo_runtime] by auto
  have "\<exists>row. azure_run demo_az_pki demo_rsa (\<lambda>_. Ok []) demo_az = Inr row \<and> ar_snp row = Some s \<and> ar_quote row = Some q"
    unfolding azure_run_def open_file_def f Let_def of_option_simps rbind_simps option.case demo_hcl_runtime hi s(1) demo_runtime_json q(1)
    by simp
  then obtain row where row: "azure_run demo_az_pki demo_rsa (\<lambda>_. Ok []) demo_az = Inr row" "ar_snp row = Some s" "ar_quote row = Some q" by blast
  from azure_chain_of_trust [OF row(1) row(2) s(2,3) row(3) q(3,2)] obtain raw vcek en sg msg where
      "az_report demo_az = Some raw" "sig_ok (pki_of demo_az_pki) (take 1184 raw) vcek" "az_quote_msg demo_az = Some msg" "rsa256_ok demo_rsa en sg msg"
    by blast
  with row show ?thesis by (auto simp: demo_rsa_def)
qed

end
