(* ===== verification/AzureImds.thy ===== *)
theory AzureImds
  imports AzureVerify
begin

text \<open>
  The IMDS attested document of \<open>azure-cvm/azure_verify.py\<close> and its loop over the runs. The PKCS#7 message is
  checked by the \<open>openssl\<close> command line, which is the record \<open>imds_tools\<close>; what its manual says of
  \<open>smime -verify -noverify\<close> is \<open>imds_contract\<close>.
\<close>

section \<open>The command line\<close>

text \<open>\<open>smime_der p7\<close>: whether \<open>smime -verify -inform DER -noverify\<close> exits with 0, and what it prints;
  \<open>print_certs p7\<close>: the output of \<open>pkcs7 -print_certs -text\<close>. Both may time out or print no text.\<close>

record imds_tools =
  smime_der :: "bytes \<Rightarrow> (bool \<times> string) res"
  print_certs :: "bytes \<Rightarrow> string res"

text \<open>The manual: the signer is looked for among the certificates in the message (\<open>held\<close>), its own certificate
  is not checked, and the content is printed when the signature verifies.\<close>

definition imds_contract :: "imds_tools \<Rightarrow> (bytes \<Rightarrow> 'k list) \<Rightarrow> ('k \<Rightarrow> bytes \<Rightarrow> bool) \<Rightarrow> (bytes \<Rightarrow> string) \<Rightarrow> bool" where
  "imds_contract T held signs content \<longleftrightarrow>
     (\<forall>p7. smime_der T p7 = (if list_ex (\<lambda>k. signs k p7) (held p7) then Ok (True, content p7) else Ok (False, '''')))"

section \<open>The document\<close>

record imds_out =
  im_keys :: "string list"
  im_region :: json
  im_vm :: json
  im_signer :: "string list"
  im_encoding :: json
  im_payload :: "(string \<times> json) list"

text \<open>\<open>x and y\<close>, \<open>x or y\<close>.\<close>

definition jand :: "json \<Rightarrow> json \<Rightarrow> json" where
  "jand x y = (if jtruth x then y else x)"

definition jor :: "json \<Rightarrow> json \<Rightarrow> json" where
  "jor x y = (if jtruth x then x else y)"

definition subjects :: "string \<Rightarrow> string list" where
  "subjects t = take 1 (map strip (filter (\<lambda>l. find_sub ''Subject:'' l \<noteq> None) (splitlines t)))"

definition PAYLOAD_NAMES :: "string list" where
  "PAYLOAD_NAMES = [''vmId'', ''sku'', ''nonce'', ''timeStamp'']"

definition jitems :: "json \<Rightarrow> (string \<times> json) list res" where
  "jitems v = (case v of JObj m \<Rightarrow> Ok m | _ \<Rightarrow> Err AttributeError)"

definition imds_verify :: "imds_tools \<Rightarrow> string \<Rightarrow> imds_out res" where
  "imds_verify T file = rbind (json_loads file) (\<lambda>doc. rbind (jitem doc ''signature'') (\<lambda>sg.
     rbind (jstr TypeError sg) (\<lambda>sig. rbind (b64decode sig) (\<lambda>der.
     rbind (smime_der T der) (\<lambda>(ok, out).
     rbind (if ok then json_loads out else Ok (JObj [])) (\<lambda>payload.
     rbind (print_certs T der) (\<lambda>signer. let subj = subjects signer in
     rbind (jitems payload) (\<lambda>m.
     rbind (jget payload ''licenseType'') (\<lambda>lt. rbind (jget payload ''plan'') (\<lambda>plan.
     rbind (jget payload ''vmId'') (\<lambda>vm. rbind (jget doc ''encoding'') (\<lambda>enc.
     Ok \<lparr>im_keys = map fst m, im_region = jor (jand lt JNull) (jor plan (JObj [])), im_vm = vm, im_signer = subj, im_encoding = enc,
        im_payload = filter (\<lambda>(k, v). k \<in> set PAYLOAD_NAMES) m\<rparr>))))))))))))"

section \<open>All runs\<close>

text \<open>A run with its IMDS file; what the record shows of it, or the exception that ended its block.\<close>

definition azure_main :: "'c gpki \<Rightarrow> 'c jwt_lib \<Rightarrow> imds_tools \<Rightarrow> fetch \<Rightarrow> (az_files \<times> string option) list \<Rightarrow> (az_row \<times> imds_out res option) list res" where
  "azure_main P R T get ds = rmap (\<lambda>(d, imds). rbind (azure_run P R get d) (\<lambda>row. Ok (row, map_option (imds_verify T) imds))) ds"

section \<open>Properties\<close>

text \<open>The block believes any signer. For the command as its manual describes it, a document whose message
  carries the certificate it is signed with, whoever made it, is shown with the message's own \<open>vmId\<close> and
  values; and what the record calls the region is the plan of the purchase, or an empty object, whatever the
  message says.\<close>

theorem imds_believes_any_signer:
  assumes "imds_contract T held signs content" and "k \<in> set (held der)" "signs k der"
    and "content der = json_dumps (JObj m)" "json_ok (JObj m)" and "print_certs T der = Ok certs"
    and "json_loads file = Ok (JObj doc)" "map_of doc ''signature'' = Some (JStr (b64encode der))"
  shows "\<exists>r. imds_verify T file = Ok r \<and> im_keys r = map fst m
    \<and> im_vm r = (case map_of m ''vmId'' of None \<Rightarrow> JNull | Some v \<Rightarrow> v)
    \<and> map_of (im_payload r) ''vmId'' = map_of m ''vmId''
    \<and> im_region r = (case map_of m ''plan'' of None \<Rightarrow> JObj [] | Some v \<Rightarrow> if jtruth v then v else JObj [])"
proof -
  have s: "smime_der T der = Ok (True, json_dumps (JObj m))"
    using assms(1-4) by (auto simp: imds_contract_def list_ex_iff)
  have j: "json_loads (json_dumps (JObj m)) = Ok (JObj m)" by (rule json_loads_dumps [OF assms(5)])
  have f: "map_of (filter (\<lambda>(k, v). k \<in> set PAYLOAD_NAMES) m) ''vmId'' = map_of m ''vmId''"
    by (induction m) (auto simp: PAYLOAD_NAMES_def)
  have n: "jor (jand x JNull) y = y" for x y by (simp add: jor_def jand_def jtruth_def)
  have e: "jor JNull (JObj []) = JObj []" "jor v (JObj []) = (if jtruth v then v else JObj [])" "\<not> jtruth JNull" for v
    by (simp_all add: jor_def jtruth_def)
  show ?thesis
    by (simp add: imds_verify_def assms(6-8) jitem_def jget_def jitems_def jstr_def of_option_def b64decode_encode s j f n e
        Let_def del: json_dumps.simps split: option.split)
qed

section \<open>Witness\<close>

text \<open>A message of one byte that holds the certificate it is signed with.\<close>

definition forged :: "(string \<times> json) list" where
  "forged = [(''vmId'', JStr ''m''), (''licenseType'', JStr ''l''), (''plan'', JNull)]"

definition forger :: imds_tools where
  "forger = \<lparr>smime_der = (\<lambda>p7. if list_ex (\<lambda>k. k = hd p7) [1] then Ok (True, json_dumps (JObj forged)) else Ok (False, '''')),
     print_certs = (\<lambda>_. Ok ''Subject: CN = metadata.azure.com'')\<rparr>"

theorem imds_believes_any_signer_witness:
  "\<exists>r. imds_verify forger (json_dumps (JObj [(''signature'', JStr (b64encode [1]))])) = Ok r
    \<and> im_vm r = JStr ''m'' \<and> im_region r = JObj []"
proof -
  have c: "imds_contract forger (\<lambda>_. [1]) (\<lambda>k p7. k = hd p7) (\<lambda>_. json_dumps (JObj forged))"
    by (simp add: imds_contract_def forger_def del: json_dumps.simps)
  have l: "json_loads (json_dumps (JObj [(''signature'', JStr (b64encode [1]))])) = Ok (JObj [(''signature'', JStr (b64encode [1]))])"
    by (rule json_loads_dumps) simp
  have "json_ok (JObj forged)" "print_certs forger [1] = Ok ''Subject: CN = metadata.azure.com''" by (simp_all add: forged_def forger_def)
  from imds_believes_any_signer [OF c _ _ refl this l, of 1] show ?thesis
    by (simp add: forged_def jtruth_def del: json_dumps.simps) blast
qed

end
