(* ===== verification/NitroVerify.thy ===== *)
theory NitroVerify
  imports Cbor NitroTpm GcpVerify
begin

text \<open>
  \<open>aws-nitro/nitro_verify.py\<close>: the attestation documents of Nitro Enclaves, COSE_Sign1 arrays signed by a
  leaf certificate that chains to the AWS root. The CBOR codec, the X.509 package and Ed25519 are
  parameters; a certificate's fingerprint is the SHA-256 of its DER form.
\<close>

section \<open>Certificates\<close>

definition fingerprint :: "'c gpki \<Rightarrow> 'c \<Rightarrow> bytes" where
  "fingerprint P c = sha256 (cert_der P c)"

text \<open>\<open>root_cert\<close> on the entries (name, contents) of the archive.\<close>

definition root_cert :: "'c gpki \<Rightarrow> (string \<times> bytes) list \<Rightarrow> 'c res" where
  "root_cert P entries = (case filter (\<lambda>(n, b). last_n 4 n = ''.pem'') entries of [] \<Rightarrow> Err IndexError | (n, b) # _ \<Rightarrow> load_pem P b)"

text \<open>\<open>chain_ok\<close>: any exception, also \<open>bundle[0]\<close> of an empty bundle, is \<open>False\<close>.\<close>

definition nitro_links :: "'c \<Rightarrow> 'c list \<Rightarrow> 'c \<Rightarrow> ('c \<times> 'c) list" where
  "nitro_links leaf bundle root = (let chain = leaf # rev bundle in zip chain (tl chain @ [root]))"

definition nitro_chain_ok :: "'c gpki \<Rightarrow> 'c \<Rightarrow> 'c list \<Rightarrow> 'c \<Rightarrow> bool" where
  "nitro_chain_ok P leaf bundle root = (case links_verified (ec_issued P) (nitro_links leaf bundle root) of
     Inl e \<Rightarrow> False
   | Inr _ \<Rightarrow> fingerprint P (last (leaf # rev bundle)) = fingerprint P root
       \<or> (case bundle of [] \<Rightarrow> False | b # _ \<Rightarrow> fingerprint P b = fingerprint P root))"

record places =
  pl_subject :: string
  pl_issuer :: string
  pl_san :: "string list option"

definition places_of :: "'c gpki \<Rightarrow> 'c \<Rightarrow> places" where
  "places_of P c = \<lparr>pl_subject = subject P c, pl_issuer = issuer_name P c, pl_san = (case san P c of Inl _ \<Rightarrow> None | Inr ns \<Rightarrow> Some ns)\<rparr>"

section \<open>One document\<close>

record nitro_doc =
  nd_alg :: cbor
  nd_sig_ok :: bool
  nd_chain_ok :: bool
  nd_module_id :: cbor
  nd_timestamp :: cbor
  nd_digest :: cbor
  nd_pcr0 :: string
  nd_pcrs_zero :: bool
  nd_nonce_ok :: bool
  nd_user_data :: "bytes option"
  nd_key_is_spki :: "bool option"
  nd_leaf :: places
  nd_subjects :: "string list"
  nd_eph_ok :: "bool option"

datatype doc_result = NotCose nat pyerr | Doc nat nitro_doc

text \<open>The first \<open>try\<close>: tag, four parts, payload and protected header.\<close>

definition cose_parts :: "codec \<Rightarrow> bytes \<Rightarrow> (cbor \<times> cbor \<times> cbor \<times> cbor \<times> cbor) res" where
  "cose_parts K raw = rbind (loads K raw) (\<lambda>obj0. let obj = (case obj0 of CTag t v \<Rightarrow> v | _ \<Rightarrow> obj0) in
     rbind (unpack4 obj) (\<lambda>(protected, unprotected, payload_b, signature).
     rbind (loads_value K payload_b) (\<lambda>payload. rbind (loads_value K protected) (\<lambda>phdr.
     Ok (protected, payload_b, signature, payload, phdr)))))"

definition load_cbor_cert :: "'c gpki \<Rightarrow> cbor \<Rightarrow> 'c res" where
  "load_cbor_cert P v = (case v of CBytes b \<Rightarrow> load_der P b | _ \<Rightarrow> Err TypeError)"

text \<open>\<open>int.from_bytes(v[:half], "big")\<close> and \<open>int.from_bytes(v[half:], "big")\<close>; an array of numbers passes
  as bytes too.\<close>

definition octets :: "cbor \<Rightarrow> bytes res" where
  "octets v = (case v of CBytes b \<Rightarrow> Ok b
     | CList xs \<Rightarrow> rmap (\<lambda>x. case x of CInt n \<Rightarrow> if 0 \<le> n \<and> n < 256 then Ok (word_of_int n) else Err ValueError
         | CBool b \<Rightarrow> Ok (if b then 1 else 0) | _ \<Rightarrow> Err TypeError) xs
     | _ \<Rightarrow> Err TypeError)"

definition sig_pair :: "bytes \<Rightarrow> int \<times> int" where
  "sig_pair s = (let half = length s div 2 in (from_big (take half s), from_big (drop half s)))"

text \<open>\<open>all(v == bytes(len(v)) for k, v in pcrs.items() if k in (0, 1, 2))\<close>, up to the first false one.\<close>

fun all_zero :: "cbor list \<Rightarrow> bool res" where
  "all_zero [] = Ok True"
| "all_zero (v # vs) = (case v of
     CBytes b \<Rightarrow> if b = zeros (length b) then all_zero vs else Ok False
   | CText s \<Rightarrow> Ok False | CList xs \<Rightarrow> Ok False | CMap m \<Rightarrow> Ok False | _ \<Rightarrow> Err TypeError)"

definition pcrs_zero :: "cbor \<Rightarrow> bool res" where
  "pcrs_zero pcrs = (case pcrs of
     CMap m \<Rightarrow> all_zero (map snd (filter (\<lambda>(k, v). equals_int k 0 \<or> equals_int k 1 \<or> equals_int k 2) m))
   | _ \<Rightarrow> Err AttributeError)"

text \<open>\<open>(payload.get("user_data") or b"").decode(errors="replace")[:80] or None\<close>, the bytes before decoding.\<close>

definition user_data_of :: "cbor \<Rightarrow> bytes option res" where
  "user_data_of v = (if truth v then (case v of CBytes b \<Rightarrow> Ok (Some b) | _ \<Rightarrow> Err AttributeError) else Ok None)"

definition is_bytes :: "cbor \<Rightarrow> bytes option \<Rightarrow> bool" where
  "is_bytes v b = (case b of None \<Rightarrow> v = CNull | Some x \<Rightarrow> v = CBytes x)"

definition judge_doc :: "'c gpki \<Rightarrow> codec \<Rightarrow> (bytes \<Rightarrow> bytes \<Rightarrow> bytes \<Rightarrow> bool) \<Rightarrow> 'c \<Rightarrow> bytes \<Rightarrow> bytes option \<Rightarrow> bytes option
    \<Rightarrow> string \<Rightarrow> cbor \<times> cbor \<times> cbor \<times> cbor \<times> cbor \<Rightarrow> nitro_doc res" where
  "judge_doc P K ed_ok root N spki eph_sig name = (\<lambda>(protected, payload_b, signature, payload, phdr).
     rbind (get_int phdr 1) (\<lambda>alg.
     rbind (rbind (item_text payload ''certificate'') (load_cbor_cert P)) (\<lambda>leaf.
     rbind (rbind (rbind (item_text payload ''cabundle'') iterate) (rmap (load_cbor_cert P))) (\<lambda>bundle.
     rbind (octets signature) (\<lambda>s.
     let sig_ok = ecdsa384_ok P leaf (sig_pair s) (dumps K (sig_structure protected payload_b));
         ch = nitro_chain_ok P leaf bundle root in
     rbind (get_text payload ''module_id'') (\<lambda>mid. rbind (get_text payload ''timestamp'') (\<lambda>tm. rbind (get_text payload ''digest'') (\<lambda>dg.
     rbind (item_text payload ''pcrs'') (\<lambda>pcrs. rbind (rbind (item pcrs 0) hex_method) (\<lambda>p0. rbind (pcrs_zero pcrs) (\<lambda>pz.
     rbind (get_text payload ''nonce'') (\<lambda>nonce. rbind (rbind (get_text payload ''user_data'') user_data_of) (\<lambda>ud.
     rbind (get_text payload ''public_key'') (\<lambda>pk.
     Ok \<lparr>nd_alg = alg, nd_sig_ok = sig_ok, nd_chain_ok = ch, nd_module_id = mid, nd_timestamp = tm, nd_digest = dg,
        nd_pcr0 = take 16 p0, nd_pcrs_zero = pz, nd_nonce_ok = (nonce = CBytes N), nd_user_data = ud,
        nd_key_is_spki = (if truth pk then Some (is_bytes pk spki) else None), nd_leaf = places_of P leaf, nd_subjects = map (subject P) bundle,
        nd_eph_ok = (case (spki, eph_sig) of
           (Some k, Some e) \<Rightarrow> if name = ''doc-bound'' \<and> k \<noteq> [] \<and> e \<noteq> [] then Some (ed_ok k e N) else None
         | _ \<Rightarrow> None)\<rparr>))))))))))))))"

section \<open>The runs\<close>

record nitro_files =
  nn_meta :: "string option"
  nn_sentence :: "string option"
  nn_spki :: "bytes option"
  nn_eph_sig :: "bytes option"
  nn_docs :: "(string \<times> bytes) list"

record nitro_row =
  nr_instance :: "string option"
  nr_zone :: "string option"
  nr_docs :: "(string \<times> doc_result) list"

definition judge_raw :: "'c gpki \<Rightarrow> codec \<Rightarrow> (bytes \<Rightarrow> bytes \<Rightarrow> bytes \<Rightarrow> bool) \<Rightarrow> 'c \<Rightarrow> bytes \<Rightarrow> nitro_files \<Rightarrow> string \<times> bytes
    \<Rightarrow> (string \<times> doc_result) res" where
  "judge_raw P K ed_ok root N d = (\<lambda>(name, raw). case cose_parts K raw of
     Inl e \<Rightarrow> Ok (name, NotCose (length raw) e)
   | Inr parts \<Rightarrow> rbind (judge_doc P K ed_ok root N (nn_spki d) (nn_eph_sig d) name parts) (\<lambda>r. Ok (name, Doc (length raw) r)))"

definition nitro_run :: "'c gpki \<Rightarrow> codec \<Rightarrow> (bytes \<Rightarrow> bytes \<Rightarrow> bytes \<Rightarrow> bool) \<Rightarrow> 'c \<Rightarrow> nitro_files \<Rightarrow> nitro_row option res" where
  "nitro_run P K ed_ok root d = (if nn_docs d = [] then Ok None else
     rbind (open_file (nn_meta d)) (\<lambda>text0. let mt = key_values (split_ws text0) in
     rbind (open_file (nn_sentence d)) (\<lambda>sent. let N = sha512 (utf8 sent) in
     rbind (rmap (judge_raw P K ed_ok root N d) (nn_docs d)) (\<lambda>rs.
     Ok (Some \<lparr>nr_instance = map_of mt ''instance'', nr_zone = map_of mt ''zone'', nr_docs = rs\<rparr>)))))"

text \<open>\<open>main\<close>: the root certificate first, then the runs.\<close>

definition nitro_main :: "'c gpki \<Rightarrow> codec \<Rightarrow> (bytes \<Rightarrow> bytes \<Rightarrow> bytes \<Rightarrow> bool) \<Rightarrow> (string \<times> bytes) list res \<Rightarrow> nitro_files list \<Rightarrow> nitro_row list res" where
  "nitro_main P K ed_ok archive ds = rbind (rbind archive (root_cert P)) (\<lambda>root.
     rbind (rmap (nitro_run P K ed_ok root) ds) (\<lambda>rs. Ok (concat (map (\<lambda>r. case r of None \<Rightarrow> [] | Some x \<Rightarrow> [x]) rs))))"


section \<open>Lemmas\<close>

text \<open>The second comparison of fingerprints adds nothing: the first certificate of the bundle ends the chain.\<close>

lemma nitro_chain_ok_iff:
  "nitro_chain_ok P leaf bundle root \<longleftrightarrow> list_all (\<lambda>(c, p). ec_issued P p c) (nitro_links leaf bundle root)
     \<and> fingerprint P (last (leaf # rev bundle)) = fingerprint P root"
proof -
  have "(case bundle of [] \<Rightarrow> False | b # _ \<Rightarrow> fingerprint P b = fingerprint P root)
      \<Longrightarrow> fingerprint P (last (leaf # rev bundle)) = fingerprint P root"
    by (cases "bundle") (auto simp: last_rev)
  moreover have "links_verified (ec_issued P) ls = Inr () \<or> (\<exists>e. links_verified (ec_issued P) ls = Inl e)" for ls
    by (cases "links_verified (ec_issued P) ls") auto
  ultimately show ?thesis
    unfolding nitro_chain_ok_def using links_verified_Inr [of "ec_issued P" "nitro_links leaf bundle root" "()"]
    by (auto split: sum.splits)
qed

text \<open>The links: each certificate of the path from the leaf to the root is issued by the next one.\<close>

lemma nitro_links_path:
  "list_all (\<lambda>(c, p). I p c) (nitro_links leaf certs root) \<longleftrightarrow>
     (\<forall>i \<le> length certs. I ((leaf # rev certs @ [root]) ! Suc i) ((leaf # rev certs @ [root]) ! i))"
proof -
  let ?X = "leaf # rev certs @ [root]"
  have "zip ?X (tl ?X) = zip ((leaf # rev certs) @ [root]) (rev certs @ [root])" by simp
  also have "\<dots> = nitro_links leaf certs root" by (subst zip_append1) (simp add: nitro_links_def)
  finally have "list_all (\<lambda>(c, p). I p c) (nitro_links leaf certs root) = (\<forall>i. Suc i < length ?X \<longrightarrow> I (?X ! Suc i) (?X ! i))"
    using zip_tl_links [of I ?X] by simp
  also have "\<dots> \<longleftrightarrow> (\<forall>i \<le> length certs. I (?X ! Suc i) (?X ! i))" by (simp add: less_Suc_eq_le)
  finally show ?thesis .
qed

lemma nitro_run_doc:
  assumes "nitro_run P K ed_ok root d = Inr (Some row)" "(name, Doc n r) \<in> set (nr_docs row)"
  obtains sent raw parts where "nn_sentence d = Some sent" "(name, raw) \<in> set (nn_docs d)" "cose_parts K raw = Inr parts"
    "judge_doc P K ed_ok root (sha512 (utf8 sent)) (nn_spki d) (nn_eph_sig d) name parts = Inr r"
proof -
  from assms(1) obtain sent where sent: "nn_sentence d = Some sent"
    and rs: "rmap (judge_raw P K ed_ok root (sha512 (utf8 sent)) d) (nn_docs d) = Inr (nr_docs row)"
    by (auto simp: nitro_run_def Let_def rbind_Inr_iff open_file_def of_option_Inr_iff split: if_splits)
  from rmap_Ok_member [OF rs assms(2)] obtain x raw where x: "(x, raw) \<in> set (nn_docs d)"
    "judge_raw P K ed_ok root (sha512 (utf8 sent)) d (x, raw) = Inr (name, Doc n r)" by auto
  then show thesis using that sent by (auto simp: judge_raw_def rbind_Inr_iff split: sum.splits)
qed

lemma cose_parts_Inr:
  assumes "cose_parts K raw = Inr (protected, payload_b, signature, payload, phdr)"
  shows "loads_value K payload_b = Inr payload" "\<exists>obj u. loads K raw = Inr obj \<and>
    unpack4 (case obj of CTag t v \<Rightarrow> v | _ \<Rightarrow> obj) = Inr (protected, u, payload_b, signature)"
  using assms by (auto simp: cose_parts_def Let_def rbind_Inr_iff)

section \<open>Properties\<close>

text \<open>C8: What a good document of an enclave means. If a run reports a document with a verified signature, a
  chain to the AWS root and our nonce, the file decodes to a COSE_Sign1 array; its payload holds the SHA-512
  of the published sentence as nonce; the key of the certificate in the same payload verifies the signature
  over the Sig_structure of the protected header and the payload as they stand; each certificate from the
  leaf through the bundle to the root is issued by the next one, and the last of them has the fingerprint
  of the root. If in addition the bound document is reported with the enclave's key and its signature, that
  key stands in the signed payload and verifies the signature over the nonce.\<close>

theorem nitro_document_sound:
  assumes run: "nitro_run P K ed_ok root d = Inr (Some row)" "(name, Doc n r) \<in> set (nr_docs row)"
    and ok: "nd_sig_ok r" "nd_chain_ok r" "nd_nonce_ok r"
  shows "\<exists>sent raw protected payload_b signature m s lb leaf bv bs certs.
    nn_sentence d = Some sent \<and> (name, raw) \<in> set (nn_docs d)
    \<and> (\<exists>obj u. loads K raw = Inr obj \<and> unpack4 (case obj of CTag t v \<Rightarrow> v | _ \<Rightarrow> obj) = Inr (protected, u, payload_b, signature))
    \<and> loads_value K payload_b = Inr (CMap m) \<and> map_of m (CText ''nonce'') = Some (CBytes (sha512 (utf8 sent)))
    \<and> map_of m (CText ''certificate'') = Some (CBytes lb) \<and> load_der P lb = Inr leaf
    \<and> map_of m (CText ''cabundle'') = Some bv \<and> iterate bv = Inr bs \<and> rmap (load_cbor_cert P) bs = Inr certs
    \<and> octets signature = Inr s \<and> ecdsa384_ok P leaf (sig_pair s) (dumps K (sig_structure protected payload_b))
    \<and> (\<forall>i \<le> length certs. ec_issued P ((leaf # rev certs @ [root]) ! Suc i) ((leaf # rev certs @ [root]) ! i))
    \<and> fingerprint P (last (leaf # rev certs)) = fingerprint P root
    \<and> (nd_key_is_spki r = Some True \<and> nd_eph_ok r = Some True \<longrightarrow>
        (\<exists>k e. nn_spki d = Some k \<and> map_of m (CText ''public_key'') = Some (CBytes k) \<and> nn_eph_sig d = Some e \<and> ed_ok k e (sha512 (utf8 sent))))"
proof -
  obtain sent raw parts where sent: "nn_sentence d = Some sent" "(name, raw) \<in> set (nn_docs d)" and cp: "cose_parts K raw = Inr parts"
    and j: "judge_doc P K ed_ok root (sha512 (utf8 sent)) (nn_spki d) (nn_eph_sig d) name parts = Inr r"
    by (rule nitro_run_doc [OF run])
  obtain protected payload_b signature payload phdr where parts: "parts = (protected, payload_b, signature, payload, phdr)" by (cases parts)
  note cose = cose_parts_Inr [OF cp [unfolded parts]]
  from j obtain m lv leaf bv bs certs s where
      m: "payload = CMap m" "map_of m (CText ''certificate'') = Some lv" "load_cbor_cert P lv = Inr leaf"
        "map_of m (CText ''cabundle'') = Some bv" "iterate bv = Inr bs" "rmap (load_cbor_cert P) bs = Inr certs" "octets signature = Inr s"
    and r: "nd_sig_ok r = ecdsa384_ok P leaf (sig_pair s) (dumps K (sig_structure protected payload_b))"
        "nd_chain_ok r = nitro_chain_ok P leaf certs root"
        "nd_nonce_ok r \<longleftrightarrow> (case map_of m (CText ''nonce'') of None \<Rightarrow> CNull | Some y \<Rightarrow> y) = CBytes (sha512 (utf8 sent))"
        "nd_key_is_spki r = (let pk = (case map_of m (CText ''public_key'') of None \<Rightarrow> CNull | Some y \<Rightarrow> y) in
           if truth pk then Some (is_bytes pk (nn_spki d)) else None)"
        "nd_eph_ok r = (case (nn_spki d, nn_eph_sig d) of
           (Some k, Some e) \<Rightarrow> if name = ''doc-bound'' \<and> k \<noteq> [] \<and> e \<noteq> [] then Some (ed_ok k e (sha512 (utf8 sent))) else None | _ \<Rightarrow> None)"
    unfolding judge_doc_def parts prod.case Let_def rbind_Inr_iff item_text_Inr get_text_Inr sum.inject
    by (elim exE conjE) (hypsubst, simp)
  from m(3) obtain lb where lb: "lv = CBytes lb" "load_der P lb = Inr leaf" by (cases lv) (auto simp: load_cbor_cert_def)
  have path: "\<forall>i \<le> length certs. ec_issued P ((leaf # rev certs @ [root]) ! Suc i) ((leaf # rev certs @ [root]) ! i)"
    and root: "fingerprint P (last (leaf # rev certs)) = fingerprint P root"
    using ok(2) by (simp_all add: r(2) nitro_chain_ok_iff nitro_links_path)
  have nonce: "map_of m (CText ''nonce'') = Some (CBytes (sha512 (utf8 sent)))" using ok(3) r(3) by (auto split: option.splits)
  have "nd_key_is_spki r = Some True \<and> nd_eph_ok r = Some True \<Longrightarrow>
      \<exists>k e. nn_spki d = Some k \<and> map_of m (CText ''public_key'') = Some (CBytes k) \<and> nn_eph_sig d = Some e \<and> ed_ok k e (sha512 (utf8 sent))"
    using r(4,5) by (auto simp: is_bytes_def Let_def split: option.splits if_splits)
  then show ?thesis using sent cose m lb nonce path root ok(1) unfolding r(1) by blast
qed


text \<open>A document that passes.\<close>

definition demo_payload :: cbor where
  "demo_payload = CMap [(CText ''certificate'', CBytes [1]), (CText ''cabundle'', CList [CBytes [2]]),
     (CText ''pcrs'', CMap [(CInt 0, CBytes [0])]), (CText ''nonce'', CBytes (sha512 (utf8 ''s'')))]"

definition demo_cose :: cbor where
  "demo_cose = CList [CBytes (dumps demo_codec (CMap [(CInt 1, CInt (-35))])), CMap [], CBytes (dumps demo_codec demo_payload), CBytes [1, 2]]"

definition demo_nitro :: nitro_files where
  "demo_nitro = \<lparr>nn_meta = Some [], nn_sentence = Some ''s'', nn_spki = None, nn_eph_sig = None, nn_docs = [(''doc-bound'', dumps demo_codec demo_cose)]\<rparr>"

lemma demo_loads: "loads demo_codec (dumps demo_codec v) = Inr (decoded v)"
  using demo_codec_round_trips by (simp add: round_trips_def)

theorem nitro_document_sound_witness:
  "\<exists>row n r leaf s m. nitro_run (demo_gpki\<lparr>ec_issued := \<lambda>p c. True\<rparr>) demo_codec (\<lambda>_ _ _. True) 4 demo_nitro = Inr (Some row)
     \<and> (''doc-bound'', Doc n r) \<in> set (nr_docs row) \<and> map_of m (CText ''nonce'') = Some (CBytes (sha512 (utf8 ''s'')))
     \<and> ecdsa384_ok demo_gpki leaf (sig_pair s) (dumps demo_codec (sig_structure (CBytes (dumps demo_codec (CMap [(CInt 1, CInt (-35))]))) (CBytes (dumps demo_codec demo_payload))))"
proof -
  let ?P = "demo_gpki\<lparr>ec_issued := \<lambda>p c. True\<rparr>"
  have parts: "cose_parts demo_codec (dumps demo_codec demo_cose) = Inr (CBytes (dumps demo_codec (CMap [(CInt 1, CInt (-35))])),
      CBytes (dumps demo_codec demo_payload), CBytes [1, 2], demo_payload, CMap [(CInt 1, CInt (-35))])"
    by (simp add: cose_parts_def demo_loads) (simp add: demo_cose_def unpack4_def loads_value_def demo_loads demo_payload_def)
  have "\<exists>r. judge_doc ?P demo_codec (\<lambda>_ _ _. True) 4 (sha512 (utf8 ''s'')) None None ''doc-bound''
      (CBytes (dumps demo_codec (CMap [(CInt 1, CInt (-35))])), CBytes (dumps demo_codec demo_payload), CBytes [1, 2], demo_payload, CMap [(CInt 1, CInt (-35))]) = Inr r
      \<and> nd_sig_ok r \<and> nd_chain_ok r \<and> nd_nonce_ok r"
    by (simp add: judge_doc_def demo_payload_def get_int_def item_text_def get_text_def load_cbor_cert_def iterate_def octets_def item_def hex_method_def
        pcrs_zero_def zeros_def user_data_of_def nitro_chain_ok_iff nitro_links_def demo_gpki_def Let_def)
  then obtain r where r: "judge_doc ?P demo_codec (\<lambda>_ _ _. True) 4 (sha512 (utf8 ''s'')) None None ''doc-bound''
      (CBytes (dumps demo_codec (CMap [(CInt 1, CInt (-35))])), CBytes (dumps demo_codec demo_payload), CBytes [1, 2], demo_payload, CMap [(CInt 1, CInt (-35))]) = Inr r"
      "nd_sig_ok r" "nd_chain_ok r" "nd_nonce_ok r" by blast
  obtain row where row: "nitro_run ?P demo_codec (\<lambda>_ _ _. True) 4 demo_nitro = Inr (Some row)"
    "(''doc-bound'', Doc (length (dumps demo_codec demo_cose)) r) \<in> set (nr_docs row)"
    by (simp add: nitro_run_def demo_nitro_def open_file_def judge_raw_def parts r(1) Let_def)
  from nitro_document_sound [OF row r(2-4)] obtain raw protected payload_b signature m s leaf where
      d: "(''doc-bound'', raw) \<in> set (nn_docs demo_nitro)" "\<exists>obj u. loads demo_codec raw = Inr obj \<and> unpack4 (case obj of CTag t v \<Rightarrow> v | _ \<Rightarrow> obj) = Inr (protected, u, payload_b, signature)"
      "loads_value demo_codec payload_b = Inr (CMap m)" "map_of m (CText ''nonce'') = Some (CBytes (sha512 (utf8 ''s'')))"
      "ecdsa384_ok ?P leaf (sig_pair s) (dumps demo_codec (sig_structure protected payload_b))"
    by (auto simp: demo_nitro_def)
  from d(1) have "raw = dumps demo_codec demo_cose" by (simp add: demo_nitro_def)
  with d(2) have "protected = CBytes (dumps demo_codec (CMap [(CInt 1, CInt (-35))]))" "payload_b = CBytes (dumps demo_codec demo_payload)"
    by (auto simp: demo_loads) (simp_all add: demo_cose_def unpack4_def)
  with d(4,5) row show ?thesis by (auto simp: demo_gpki_def)
qed

end
