(* ===== verification/Platform.thy ===== *)
theory Platform
  imports SnpReport PyText
begin

text \<open>
  The two places where the repository talks to the processor's firmware through \<open>ioctl\<close>:
  \<open>baremetal/snp_platform.py\<close> on the host (\<open>/dev/sev\<close>) and \<open>snp_report\<close> of the measurement server
  in the guest (\<open>/dev/sev-guest\<close>). The structures passed hold addresses of further buffers, so
  memory is a map from addresses to bytes; the kernel with the firmware behind it is a parameter, a
  function of the request, the structure, the memory and a state of its own.
\<close>

section \<open>Memory\<close>

type_synonym mem = "nat \<Rightarrow> byte"

definition read_mem :: "mem \<Rightarrow> nat \<Rightarrow> nat \<Rightarrow> bytes" where
  "read_mem m a n = map m [a..<a + n]"

definition write_mem :: "mem \<Rightarrow> nat \<Rightarrow> bytes \<Rightarrow> mem" where
  "write_mem m a bs = (\<lambda>i. if a \<le> i \<and> i < a + length bs then bs ! (i - a) else m i)"

text \<open>Buffers of \<open>n\<close> and \<open>k\<close> bytes that do not overlap.\<close>

definition apart :: "nat \<Rightarrow> nat \<Rightarrow> nat \<Rightarrow> nat \<Rightarrow> bool" where
  "apart a n b k \<longleftrightarrow> a + n \<le> b \<or> b + k \<le> a"

lemma length_read_mem [simp]: "length (read_mem m a n) = n"
  by (simp add: read_mem_def)

lemma read_write_same: "n = length bs \<Longrightarrow> read_mem (write_mem m a bs) a n = bs"
  by (rule nth_equalityI) (simp_all add: read_mem_def write_mem_def)

lemma read_write_apart: "apart a n b (length bs) \<Longrightarrow> read_mem (write_mem m b bs) a n = read_mem m a n"
  by (rule nth_equalityI) (auto simp: read_mem_def write_mem_def apart_def)

lemma slice_read_mem: "i \<le> j \<Longrightarrow> j \<le> n \<Longrightarrow> slice (read_mem m a n) i j = read_mem m (a + i) (j - i)"
  by (rule nth_equalityI) (simp_all add: slice_def read_mem_def add.assoc)

text \<open>Memory is a byte buffer too.\<close>

interpretation memory: byte_buffer "\<lambda>m i j. read_mem m i (j - i)" "\<lambda>m i j. write_mem m i" "\<lambda>_. 2 ^ 64"
proof unfold_locales
  fix i j k l :: nat and b :: mem and x :: bytes
  assume "length x = j - i" "l \<le> i \<or> j \<le> k" "i \<le> j"
  then show "read_mem (write_mem b i x) k (l - k) = read_mem b k (l - k)"
    by (auto simp: read_mem_def write_mem_def)
qed (simp_all add: read_write_same)

section \<open>The kernel\<close>

text \<open>\<open>open_dev\<close> is \<open>os.open\<close> of a device; \<open>ioctl\<close> gets the request number and the bytes of the
  structure and returns the number and text of the \<open>OSError\<close>, if it failed, and the structure, the
  memory and the state after the call (the structure is written back also when the call fails).\<close>

record 's kernel =
  open_dev :: "string \<Rightarrow> 's \<Rightarrow> unit res"
  ioctl :: "int \<Rightarrow> bytes \<Rightarrow> mem \<Rightarrow> 's \<Rightarrow> (int \<times> string) option \<times> bytes \<times> mem \<times> 's"

section \<open>The host: commands\<close>

definition CMD :: "(string \<times> int) list" where
  "CMD = [(''SEV_FACTORY_RESET'', 0), (''SEV_PLATFORM_STATUS'', 1), (''SEV_PEK_GEN'', 2), (''SEV_PEK_CSR'', 3), (''SEV_PDH_GEN'', 4),
     (''SEV_PDH_CERT_EXPORT'', 5), (''SEV_PEK_CERT_IMPORT'', 6), (''SEV_GET_ID'', 7), (''SEV_GET_ID2'', 8), (''SNP_PLATFORM_STATUS'', 9),
     (''SNP_COMMIT'', 10), (''SNP_SET_CONFIG'', 11), (''SNP_VLEK_LOAD'', 12)]"

definition cmd_id :: "string \<Rightarrow> int res" where
  "cmd_id name = of_option (KeyError name) (map_of CMD name)"

definition SEV_ISSUE_CMD :: int where "SEV_ISSUE_CMD = 0xC0105300"

text \<open>\<open>Issue\<close>, packed: command, address of its data, error.\<close>

definition issue_bytes :: "int \<Rightarrow> nat \<Rightarrow> int \<Rightarrow> bytes" where
  "issue_bytes c data e = to_little 4 c @ to_little 8 (int data) @ to_little 4 e"

definition errno_text :: "int \<times> string \<Rightarrow> string" where
  "errno_text e = ''errno '' @ dec (fst e) @ '' '' @ snd e"

definition issue :: "'s kernel \<Rightarrow> string \<Rightarrow> nat \<Rightarrow> mem \<Rightarrow> 's \<Rightarrow> (string option \<times> int \<times> mem \<times> 's) res" where
  "issue K name buf m s = rbind (cmd_id name) (\<lambda>c. rbind (open_dev K ''/dev/sev'' s) (\<lambda>_.
     case ioctl K SEV_ISSUE_CMD (issue_bytes c buf 0) m s of (err, io, m', s') \<Rightarrow>
     Ok (map_option errno_text err, from_little (slice io 12 16), m', s')))"

section \<open>The host: the three operations\<close>

record platform_status =
  ps_ioctl_error :: "string option"
  ps_fw_error :: int
  ps_api :: string
  ps_state :: int
  ps_rmp_init :: int
  ps_build :: int
  ps_mask_chip_id :: int
  ps_mask_chip_key :: int
  ps_vlek_en :: int
  ps_feature_info :: int
  ps_guests :: int
  ps_current_tcb :: string
  ps_reported_tcb :: string

definition status_of :: "string option \<Rightarrow> int \<Rightarrow> bytes \<Rightarrow> platform_status" where
  "status_of err fw b = (let flags = from_little (slice b 8 12) in
     \<lparr>ps_ioctl_error = err, ps_fw_error = fw, ps_api = dec (uint (b ! 0)) @ ''.'' @ dec (uint (b ! 1)), ps_state = uint (b ! 2),
      ps_rmp_init = uint (b ! 3) AND 1, ps_build = from_little (slice b 4 8),
      ps_mask_chip_id = flags AND 1, ps_mask_chip_key = drop_bit 1 flags AND 1, ps_vlek_en = drop_bit 2 flags AND 1,
      ps_feature_info = drop_bit 3 flags AND 1, ps_guests = from_little (slice b 12 16),
      ps_current_tcb = py_hex (from_little (slice b 16 24)), ps_reported_tcb = py_hex (from_little (slice b 24 32))\<rparr>)"

text \<open>\<open>buf\<close>, \<open>idbuf\<close>, \<open>req\<close>, \<open>cfg\<close>: where the interpreter puts the zeroed arrays.\<close>

definition status :: "'s kernel \<Rightarrow> nat \<Rightarrow> mem \<Rightarrow> 's \<Rightarrow> (platform_status \<times> mem \<times> 's) res" where
  "status K buf m s = rbind (issue K ''SNP_PLATFORM_STATUS'' buf (write_mem m buf (zeros 64)) s) (\<lambda>(err, fw, m', s').
     Ok (status_of err fw (read_mem m' buf 64), m', s'))"

record platform_id =
  pi_ioctl_error :: "string option"
  pi_fw_error :: int
  pi_length :: int
  pi_id :: string

definition get_id :: "'s kernel \<Rightarrow> nat \<Rightarrow> nat \<Rightarrow> mem \<Rightarrow> 's \<Rightarrow> (platform_id \<times> mem \<times> 's) res" where
  "get_id K idbuf req m s =
     (let m1 = write_mem (write_mem m idbuf (zeros 64)) req (to_little 8 (int idbuf) @ to_little 4 64 @ zeros 4) in
      rbind (issue K ''SEV_GET_ID2'' req m1 s) (\<lambda>(err, fw, m', s').
      Ok (\<lparr>pi_ioctl_error = err, pi_fw_error = fw, pi_length = from_little (slice (read_mem m' req 16) 8 12),
           pi_id = hex (read_mem m' idbuf 64)\<rparr>, m', s')))"

record platform_config =
  pc_ioctl_error :: "string option"
  pc_fw_error :: int
  pc_mask_chip_id :: int
  pc_mask_chip_key :: int

definition config_flags :: "int \<Rightarrow> int \<Rightarrow> int" where
  "config_flags mask_id mask_key = (mask_id AND 1) OR push_bit 1 (mask_key AND 1)"

definition set_config :: "'s kernel \<Rightarrow> nat \<Rightarrow> int \<Rightarrow> int \<Rightarrow> mem \<Rightarrow> 's \<Rightarrow> (platform_config \<times> mem \<times> 's) res" where
  "set_config K cfg mask_id mask_key m s =
     rbind (issue K ''SNP_SET_CONFIG'' cfg (write_mem m cfg (to_little 8 0 @ to_little 4 (config_flags mask_id mask_key) @ zeros 52)) s) (\<lambda>(err, fw, m', s').
     Ok (\<lparr>pc_ioctl_error = err, pc_fw_error = fw, pc_mask_chip_id = mask_id, pc_mask_chip_key = mask_key\<rparr>, m', s'))"

section \<open>The host: the command line\<close>

datatype platform_out = StatusOut platform_status | IdOut platform_id | ConfigOut platform_config | Usage

text \<open>Where the arrays of the three operations lie.\<close>

record buffers =
  bf_buf :: nat
  bf_idbuf :: nat
  bf_req :: nat
  bf_cfg :: nat

text \<open>\<open>a = sys.argv[1:]\<close>; the first argument selects the operation, and \<open>config\<close> reads one or two more.\<close>

definition platform_main :: "'s kernel \<Rightarrow> buffers \<Rightarrow> string list \<Rightarrow> mem \<Rightarrow> 's \<Rightarrow> (platform_out \<times> mem \<times> 's) res" where
  "platform_main K A a m s =
     (if take 1 a = [''status''] then rbind (status K (bf_buf A) m s) (\<lambda>(r, m', s'). Ok (StatusOut r, m', s'))
      else if take 1 a = [''id''] then rbind (get_id K (bf_idbuf A) (bf_req A) m s) (\<lambda>(r, m', s'). Ok (IdOut r, m', s'))
      else if take 1 a = [''config''] then
        rbind (if length a < 2 then Err IndexError else py_int (a ! 1)) (\<lambda>i.
        rbind (if 2 < length a then py_int (a ! 2) else Ok 0) (\<lambda>k.
        rbind (set_config K (bf_cfg A) i k m s) (\<lambda>(r, m', s'). Ok (ConfigOut r, m', s'))))
      else Ok (Usage, m, s))"

section \<open>The guest: \<open>snp_report\<close>\<close>

text \<open>\<open>Req\<close>: user data, VMPL, flags, reserved (96 bytes); \<open>Resp\<close>: status, size, reserved, report (4032 bytes);
  \<open>Ioctl\<close>: version, seven bytes of padding, the two addresses and \<open>exitinfo2\<close>. The user data of the callers
  is a SHA-512, 64 bytes.\<close>

definition SNP_GET_REPORT :: int where "SNP_GET_REPORT = 0xC0205300"

definition req_bytes :: "bytes \<Rightarrow> bytes" where
  "req_bytes user_data = take 64 user_data @ to_little 4 0 @ to_little 4 0 @ zeros 24"

definition ioctl_bytes :: "nat \<Rightarrow> nat \<Rightarrow> bytes" where
  "ioctl_bytes req resp = [1] @ zeros 7 @ to_little 8 (int req) @ to_little 8 (int resp) @ to_little 8 0"

definition guest_report :: "'s kernel \<Rightarrow> nat \<Rightarrow> nat \<Rightarrow> bytes \<Rightarrow> mem \<Rightarrow> 's \<Rightarrow> (bytes \<times> mem \<times> 's) res" where
  "guest_report K req resp user_data m s =
     (let m1 = write_mem (write_mem m req (req_bytes user_data)) resp (zeros 4032) in
      rbind (open_dev K ''/dev/sev-guest'' s) (\<lambda>_.
      case ioctl K SNP_GET_REPORT (ioctl_bytes req resp) m1 s of
        (Some e, io, m', s') \<Rightarrow> Err (Raised ''OSError'' (snd e))
      | (None, io, m', s') \<Rightarrow> let r = read_mem m' resp 4032; st = from_little (slice r 0 4) in
          rbind (rassert (st = 0 \<and> from_little (slice r 4 8) = 1184) (Raised ''RuntimeError'' (''fw_status '' @ dec st))) (\<lambda>_.
          Ok (take 1184 (slice r 32 4032), m', s'))))"

section \<open>What the firmware promises\<close>

text \<open>The commands as the firmware's documentation describes them. \<open>masks\<close> reads the two mask bits of the
  processor's state. \<open>SNP_SET_CONFIG\<close> takes the bits from the second field of its buffer,
  \<open>SNP_PLATFORM_STATUS\<close> fills a 64-byte buffer whose flags carry them, \<open>SEV_GET_ID2\<close> writes the identifier
  at the address in its buffer when the length there is large enough.\<close>

definition config_contract :: "'s kernel \<Rightarrow> ('s \<Rightarrow> int) \<Rightarrow> bool" where
  "config_contract K masks \<longleftrightarrow> (\<forall>s. open_dev K ''/dev/sev'' s = Ok ()) \<and>
     (\<forall>buf m s. buf < 2 ^ 64 \<longrightarrow> (\<exists>s'. ioctl K SEV_ISSUE_CMD (issue_bytes 11 buf 0) m s = (None, issue_bytes 11 buf 0, m, s')
        \<and> masks s' = from_little (read_mem m (buf + 8) 4) mod 4)) \<and>
     (\<forall>buf m s. buf < 2 ^ 64 \<longrightarrow> (\<exists>b s'. ioctl K SEV_ISSUE_CMD (issue_bytes 9 buf 0) m s = (None, issue_bytes 9 buf 0, write_mem m buf b, s')
        \<and> masks s' = masks s \<and> length b = 64 \<and> from_little (slice b 8 12) mod 4 = masks s))"

definition id_contract :: "'s kernel \<Rightarrow> ('s \<Rightarrow> bytes) \<Rightarrow> bool" where
  "id_contract K chip \<longleftrightarrow> (\<forall>s. open_dev K ''/dev/sev'' s = Ok () \<and> length (chip s) = 64) \<and>
     (\<forall>req m s. req < 2 ^ 64 \<and> 64 \<le> from_little (read_mem m (req + 8) 4) \<longrightarrow>
        (\<exists>s'. ioctl K SEV_ISSUE_CMD (issue_bytes 8 req 0) m s =
          (None, issue_bytes 8 req 0, write_mem (write_mem m (nat (from_little (read_mem m req 8))) (chip s)) (req + 8) (to_little 4 64), s')))"

definition report_contract :: "'s kernel \<Rightarrow> bool" where
  "report_contract K \<longleftrightarrow> (\<forall>s. open_dev K ''/dev/sev-guest'' s = Ok ()) \<and>
     (\<forall>req resp m s. req < 2 ^ 64 \<and> resp < 2 ^ 64 \<longrightarrow> (\<exists>rep s'. ioctl K SNP_GET_REPORT (ioctl_bytes req resp) m s =
        (None, ioctl_bytes req resp, write_mem m resp (to_little 4 0 @ to_little 4 1184 @ zeros 24 @ rep), s')
        \<and> length rep = 1184 \<and> report_data_of rep = read_mem m req 64))"

section \<open>Lemmas\<close>

lemma cmd_ids: "cmd_id ''SNP_PLATFORM_STATUS'' = Ok 9" "cmd_id ''SNP_SET_CONFIG'' = Ok 11" "cmd_id ''SEV_GET_ID2'' = Ok 8"
  by (simp_all add: cmd_id_def CMD_def)

lemma CMD_distinct: "distinct (map fst CMD)" "distinct (map snd CMD)"
  by (simp_all add: CMD_def)

lemma issue_bytes_error: "slice (issue_bytes c d e) 12 16 = to_little 4 e"
  by (simp add: issue_bytes_def slice_append_right slice_def)

lemma config_flags_value: "config_flags i k = i mod 2 + 2 * (k mod 2)"
proof -
  have "i AND 1 \<in> {0, 1}" "k AND 1 \<in> {0, 1}" by (auto simp: and_one_eq)
  then show ?thesis by (auto simp: config_flags_def and_one_eq push_bit_eq_mult)
qed

lemma two_bits: "f mod 4 = i mod 2 + 2 * (k mod 2) \<Longrightarrow> (f :: int) AND 1 = i mod 2 \<and> drop_bit 1 f AND 1 = k mod 2"
proof -
  assume f: "f mod 4 = i mod 2 + 2 * (k mod 2)"
  have "f mod 2 = f mod 4 mod 2" "f div 2 mod 2 = f mod 4 div 2" by presburger+
  moreover have "(i mod 2 + 2 * (k mod 2)) mod 2 = i mod 2" "(i mod 2 + 2 * (k mod 2)) div 2 = k mod 2" by simp_all
  ultimately have "f mod 2 = i mod 2" "f div 2 mod 2 = k mod 2" using f by simp_all
  then show ?thesis by (simp add: and_one_eq drop_bit_eq_div)
qed

text \<open>The laws of the memory behind the three operations.\<close>

lemma set_config_masks:
  assumes "config_contract K masks" "cfg < 2 ^ 64"
  obtains m' s' where "set_config K cfg i k m s = Inr (\<lparr>pc_ioctl_error = None, pc_fw_error = 0, pc_mask_chip_id = i, pc_mask_chip_key = k\<rparr>, m', s')"
    "masks s' = i mod 2 + 2 * (k mod 2)"
proof -
  define m1 where "m1 = write_mem m cfg (to_little 8 0 @ to_little 4 (config_flags i k) @ zeros 52)"
  from assms obtain s' where s': "ioctl K SEV_ISSUE_CMD (issue_bytes 11 cfg 0) m1 s = (None, issue_bytes 11 cfg 0, m1, s')"
      "masks s' = from_little (read_mem m1 (cfg + 8) 4) mod 4" and o: "open_dev K ''/dev/sev'' s = Ok ()"
    unfolding config_contract_def by blast
  have "read_mem m1 cfg 64 = to_little 8 0 @ to_little 4 (config_flags i k) @ zeros 52"
    unfolding m1_def by (rule read_write_same) simp
  then have "slice (read_mem m1 cfg 64) 8 12 = to_little 4 (config_flags i k)"
    by (simp add: slice_def del: to_little.simps)
  then have r: "read_mem m1 (cfg + 8) 4 = to_little 4 (config_flags i k)"
    by (simp add: slice_read_mem del: to_little.simps)
  have b: "0 \<le> config_flags i k" "config_flags i k < 4" unfolding config_flags_value by simp_all
  then have "from_little (read_mem m1 (cfg + 8) 4) = config_flags i k"
    unfolding r by (subst from_little_to_little) simp_all
  with b s'(2) have "masks s' = i mod 2 + 2 * (k mod 2)" by (simp add: config_flags_value)
  moreover have "set_config K cfg i k m s = Inr (\<lparr>pc_ioctl_error = None, pc_fw_error = 0, pc_mask_chip_id = i, pc_mask_chip_key = k\<rparr>, m1, s')"
    using s'(1) o by (simp add: set_config_def issue_def cmd_ids m1_def issue_bytes_error from_little_to_little)
  ultimately show thesis by (rule that [rotated])
qed

lemma status_masks:
  assumes "config_contract K masks" "buf < 2 ^ 64" "masks s = i mod 2 + 2 * (k mod 2)"
  obtains st m' s' where "status K buf m s = Inr (st, m', s')" "ps_ioctl_error st = None" "ps_fw_error st = 0"
    "ps_mask_chip_id st = i mod 2" "ps_mask_chip_key st = k mod 2" "masks s' = masks s"
proof -
  define m1 where "m1 = write_mem m buf (zeros 64)"
  from assms(1,2) obtain b s' where s': "ioctl K SEV_ISSUE_CMD (issue_bytes 9 buf 0) m1 s = (None, issue_bytes 9 buf 0, write_mem m1 buf b, s')"
      "masks s' = masks s" "length b = 64" "from_little (slice b 8 12) mod 4 = masks s" and o: "open_dev K ''/dev/sev'' s = Ok ()"
    unfolding config_contract_def by blast
  have st: "status K buf m s = Inr (status_of None 0 b, write_mem m1 buf b, s')"
    using s' o by (simp add: status_def issue_def cmd_ids issue_bytes_error from_little_to_little read_write_same flip: m1_def)
  have "from_little (slice b 8 12) AND 1 = i mod 2 \<and> drop_bit 1 (from_little (slice b 8 12)) AND 1 = k mod 2"
    by (rule two_bits) (simp only: s'(4) assms(3))
  then show thesis using s'(2) by (intro that [OF st]) (simp_all add: status_of_def Let_def)
qed

text \<open>A small processor that keeps the three contracts; its state holds the masks.\<close>

definition demo_ioctl :: "int \<Rightarrow> bytes \<Rightarrow> mem \<Rightarrow> int \<Rightarrow> (int \<times> string) option \<times> bytes \<times> mem \<times> int" where
  "demo_ioctl n io m s = (if n = SNP_GET_REPORT then
       (None, io, write_mem m (nat (from_little (slice io 16 24))) (to_little 4 0 @ to_little 4 1184 @ zeros 24 @
          put_slice (zeros 1184) 0x50 0x90 (read_mem m (nat (from_little (slice io 8 16))) 64)), s)
     else let c = from_little (slice io 0 4); p = nat (from_little (slice io 4 12)) in
       if c = 11 then (None, io, m, from_little (read_mem m (p + 8) 4) mod 4)
       else if c = 9 then (None, io, write_mem m p (zeros 8 @ to_little 4 (s mod 4) @ zeros 52), s)
       else (None, io, write_mem (write_mem m (nat (from_little (read_mem m p 8))) (replicate 64 7)) (p + 8) (to_little 4 64), s))"

definition demo_kernel :: "int kernel" where
  "demo_kernel = \<lparr>open_dev = (\<lambda>_ _. Ok ()), ioctl = demo_ioctl\<rparr>"

lemma issue_bytes_fields:
  assumes "0 \<le> c" "c < 2 ^ 32" "buf < 2 ^ 64"
  shows "from_little (slice (issue_bytes c buf e) 0 4) = c" "from_little (slice (issue_bytes c buf e) 4 12) = int buf"
  using assms by (simp_all add: issue_bytes_def slice_def from_little_to_little del: to_little.simps)

lemma demo_config_contract: "config_contract demo_kernel (\<lambda>s. s mod 4)"
proof -
  have n: "SEV_ISSUE_CMD \<noteq> SNP_GET_REPORT" by (simp add: SEV_ISSUE_CMD_def SNP_GET_REPORT_def)
  have s: "slice (zeros 8 @ to_little 4 (s mod 4) @ zeros 52) 8 12 = to_little 4 (s mod 4)" for s
    by (simp add: slice_def del: to_little.simps)
  show ?thesis
    unfolding config_contract_def
    by (auto simp: demo_kernel_def demo_ioctl_def n Let_def issue_bytes_fields s from_little_to_little simp del: to_little.simps)
qed

lemma demo_id_contract: "id_contract demo_kernel (\<lambda>s. replicate 64 7)"
  by (simp add: id_contract_def demo_kernel_def demo_ioctl_def Let_def issue_bytes_fields SEV_ISSUE_CMD_def SNP_GET_REPORT_def
      del: to_little.simps)

lemma demo_report_contract: "report_contract demo_kernel"
proof -
  have f: "from_little (slice (ioctl_bytes q p) 8 16) = int q" "from_little (slice (ioctl_bytes q p) 16 24) = int p"
    if "q < 2 ^ 64" "p < 2 ^ 64" for q p
    using that by (simp_all add: ioctl_bytes_def slice_def from_little_to_little del: to_little.simps)
  show ?thesis
    by (auto simp: report_contract_def demo_kernel_def demo_ioctl_def f report_data_of_def length_put_slice slice_put_same
        simp del: to_little.simps)
qed

definition demo_buffers :: buffers where
  "demo_buffers = \<lparr>bf_buf = 4096, bf_idbuf = 8192, bf_req = 12288, bf_cfg = 16384\<rparr>"

section \<open>Properties\<close>

text \<open>C13: The masks that are configured are the masks that are reported. On a processor that keeps its
  documented commands, \<open>config i k\<close> followed by \<open>status\<close> ends without an error on either side and shows
  the lowest bits of the two numbers given, whatever the numbers (negative ones too), wherever the two
  buffers lie and whatever was in memory; the other bits of the flags word do not disturb them.\<close>

theorem configured_masks_reported:
  assumes "config_contract K masks" "bf_cfg A < 2 ^ 64" "bf_buf A < 2 ^ 64" "py_int ti = Inr i" "py_int tk = Inr k"
  shows "\<exists>m1 s1 st m2 s2. platform_main K A [''config'', ti, tk] m s =
      Inr (ConfigOut \<lparr>pc_ioctl_error = None, pc_fw_error = 0, pc_mask_chip_id = i, pc_mask_chip_key = k\<rparr>, m1, s1)
    \<and> platform_main K A [''status''] m1 s1 = Inr (StatusOut st, m2, s2)
    \<and> ps_ioctl_error st = None \<and> ps_fw_error st = 0 \<and> ps_mask_chip_id st = i mod 2 \<and> ps_mask_chip_key st = k mod 2"
proof -
  obtain m1 s1 where c: "set_config K (bf_cfg A) i k m s = Inr (\<lparr>pc_ioctl_error = None, pc_fw_error = 0, pc_mask_chip_id = i, pc_mask_chip_key = k\<rparr>, m1, s1)"
      "masks s1 = i mod 2 + 2 * (k mod 2)"
    by (rule set_config_masks [OF assms(1,2)])
  obtain st m2 s2 where "status K (bf_buf A) m1 s1 = Inr (st, m2, s2)" "ps_ioctl_error st = None" "ps_fw_error st = 0"
      "ps_mask_chip_id st = i mod 2" "ps_mask_chip_key st = k mod 2"
    by (rule status_masks [OF assms(1,3) c(2)])
  with c(1) assms(4,5) show ?thesis by (simp add: platform_main_def)
qed

theorem configured_masks_reported_witness:
  "\<exists>m1 s1 st m2 s2. platform_main demo_kernel demo_buffers [''config'', '' -3'', ''0_2''] (\<lambda>_. 7) 0 =
      Inr (ConfigOut \<lparr>pc_ioctl_error = None, pc_fw_error = 0, pc_mask_chip_id = - 3, pc_mask_chip_key = 2\<rparr>, m1, s1)
    \<and> platform_main demo_kernel demo_buffers [''status''] m1 s1 = Inr (StatusOut st, m2, s2)
    \<and> ps_mask_chip_id st = 1 \<and> ps_mask_chip_key st = 0"
proof -
  have "py_int '' -3'' = Inr (- 3)" "py_int ''0_2'' = Inr 2"
    by (simp_all add: py_int_def strip_def is_space_def is_digit_def digits_value_def Let_def)
  moreover have "bf_cfg demo_buffers < 2 ^ 64" "bf_buf demo_buffers < 2 ^ 64" by (simp_all add: demo_buffers_def)
  ultimately obtain m1 s1 st m2 s2 where
      "platform_main demo_kernel demo_buffers [''config'', '' -3'', ''0_2''] (\<lambda>_. 7) 0 =
        Inr (ConfigOut \<lparr>pc_ioctl_error = None, pc_fw_error = 0, pc_mask_chip_id = - 3, pc_mask_chip_key = 2\<rparr>, m1, s1)"
      "platform_main demo_kernel demo_buffers [''status''] m1 s1 = Inr (StatusOut st, m2, s2)"
      "ps_mask_chip_id st = - 3 mod 2" "ps_mask_chip_key st = 2 mod 2"
    using configured_masks_reported [OF demo_config_contract] by blast
  then show ?thesis by auto
qed

text \<open>The identifier shown by \<open>id\<close> is the processor's own, the one the KDS knows as hwID: the command
  fills the buffer whose address stands in the request, so the 64 bytes read back are the identifier as
  long as request and buffer do not overlap.\<close>

theorem chip_id_shown:
  assumes "id_contract K chip" "bf_req A < 2 ^ 64" "bf_idbuf A < 2 ^ 64" "apart (bf_idbuf A) 64 (bf_req A) 16"
  shows "\<exists>m' s'. platform_main K A [''id''] m s =
    Inr (IdOut \<lparr>pi_ioctl_error = None, pi_fw_error = 0, pi_length = 64, pi_id = hex (chip s)\<rparr>, m', s')"
proof -
  let ?i = "bf_idbuf A" and ?r = "bf_req A"
  define q where "q = to_little 8 (int ?i) @ to_little 4 64 @ zeros 4"
  define m1 where "m1 = write_mem (write_mem m ?i (zeros 64)) ?r q"
  have q: "length q = 16" by (simp add: q_def)
  have r: "read_mem m1 ?r 16 = q" unfolding m1_def by (rule read_write_same) (simp add: q)
  have "slice (read_mem m1 ?r 16) 0 8 = to_little 8 (int ?i)" "slice (read_mem m1 ?r 16) 8 12 = to_little 4 64"
    by (simp_all add: r q_def slice_def del: to_little.simps)
  then have f: "from_little (read_mem m1 ?r 8) = int ?i" "from_little (read_mem m1 (?r + 8) 4) = 64"
    using assms(3) by (simp_all add: slice_read_mem from_little_to_little del: to_little.simps)
  with assms(1,2) obtain s' where s': "ioctl K SEV_ISSUE_CMD (issue_bytes 8 ?r 0) m1 s =
      (None, issue_bytes 8 ?r 0, write_mem (write_mem m1 ?i (chip s)) (?r + 8) (to_little 4 64), s')"
    and o: "open_dev K ''/dev/sev'' s = Ok ()" "length (chip s) = 64"
    unfolding id_contract_def by (metis nat_int order_refl)
  let ?m' = "write_mem (write_mem m1 ?i (chip s)) (?r + 8) (to_little 4 64)"
  have "read_mem ?m' ?i 64 = read_mem (write_mem m1 ?i (chip s)) ?i 64"
    using assms(4) by (intro read_write_apart) (auto simp: apart_def)
  also have "\<dots> = chip s" by (rule read_write_same) (simp add: o)
  finally have c: "read_mem ?m' ?i 64 = chip s" .
  have "slice (read_mem ?m' ?r 16) 8 12 = to_little 4 64"
    by (simp add: slice_read_mem read_write_same del: to_little.simps)
  with c s' o show ?thesis
    by (simp add: platform_main_def get_id_def issue_def cmd_ids issue_bytes_error from_little_to_little
        m1_def [symmetric] q_def [symmetric] del: to_little.simps)
qed

theorem chip_id_shown_witness:
  "\<exists>m' s'. platform_main demo_kernel demo_buffers [''id''] (\<lambda>_. 9) 0 =
    Inr (IdOut \<lparr>pi_ioctl_error = None, pi_fw_error = 0, pi_length = 64, pi_id = hex (replicate 64 7)\<rparr>, m', s')"
  using chip_id_shown [OF demo_id_contract, of demo_buffers "\<lambda>_. 9" 0] by (simp add: demo_buffers_def apart_def)

text \<open>The report the guest gets is about the bytes it asked for. With a firmware that keeps its documented
  command, \<open>snp_report\<close> returns a report of 1184 bytes whose REPORT_DATA is the 64 bytes given, provided
  the request and the response buffer do not overlap.\<close>

theorem guest_report_data:
  assumes "report_contract K" "req < 2 ^ 64" "resp < 2 ^ 64" "apart req 96 resp 4032" "length rd = 64"
  shows "\<exists>rep m' s'. guest_report K req resp rd m s = Inr (rep, m', s') \<and> length rep = 1184 \<and> report_data_of rep = rd"
proof -
  define m1 where "m1 = write_mem (write_mem m req (req_bytes rd)) resp (zeros 4032)"
  from assms(1-3) obtain rep s' where s': "ioctl K SNP_GET_REPORT (ioctl_bytes req resp) m1 s =
      (None, ioctl_bytes req resp, write_mem m1 resp (to_little 4 0 @ to_little 4 1184 @ zeros 24 @ rep), s')"
    and rep: "length rep = 1184" "report_data_of rep = read_mem m1 req 64" and o: "open_dev K ''/dev/sev-guest'' s = Ok ()"
    unfolding report_contract_def by blast
  have len: "length (req_bytes rd) = 96" by (simp add: req_bytes_def assms(5))
  have "read_mem m1 req 96 = read_mem (write_mem m req (req_bytes rd)) req 96"
    unfolding m1_def using assms(4) by (intro read_write_apart) simp
  also have "\<dots> = req_bytes rd" by (rule read_write_same) (simp add: len)
  finally have "slice (read_mem m1 req 96) 0 64 = rd" by (simp add: req_bytes_def slice_def assms(5))
  then have rd: "read_mem m1 req 64 = rd" by (simp add: slice_read_mem)
  define body where "body = to_little 4 0 @ to_little 4 1184 @ zeros 24 @ rep"
  have "length body = 1216" by (simp add: body_def rep(1))
  then have b: "slice (read_mem (write_mem m1 resp body) resp 4032) 0 1216 = body"
    by (simp add: slice_read_mem read_write_same)
  have f: "slice (read_mem (write_mem m1 resp body) resp 4032) 0 4 = to_little 4 0"
    "slice (read_mem (write_mem m1 resp body) resp 4032) 4 8 = to_little 4 1184"
    "take 1184 (slice (read_mem (write_mem m1 resp body) resp 4032) 32 4032) = rep"
    using arg_cong [OF b, where f = "\<lambda>x. slice x 0 4"] arg_cong [OF b, where f = "\<lambda>x. slice x 4 8"]
      arg_cong [OF b, where f = "\<lambda>x. take 1184 (drop 32 x)"]
    by (simp_all add: body_def slice_def rep(1) drop_take del: to_little.simps)
  show ?thesis
    using s' o f rep rd unfolding guest_report_def m1_def [symmetric] body_def [symmetric] Let_def
    by (simp add: from_little_to_little del: to_little.simps)
qed

theorem guest_report_data_witness:
  "\<exists>rep m' s'. guest_report demo_kernel 4096 8192 (replicate 64 5) (\<lambda>_. 9) 0 = Inr (rep, m', s') \<and> report_data_of rep = replicate 64 5"
  using guest_report_data [OF demo_report_contract, of 4096 8192 "replicate 64 5" "\<lambda>_. 9" 0] by (auto simp: apart_def)

end
