(* ===== verification/VlekVerify.thy ===== *)
theory VlekVerify
  imports Certs NitroTpm
begin

text \<open>
  The main loop of \<open>aws-vlek/vlek_verify.py\<close>: each run's report against the certificate the hypervisor
  handed over (the VLEK, or else the VCEK), that certificate's chain as published by the KDS, and which
  placements showed which key.
\<close>

section \<open>Files and rows\<close>

text \<open>\<open>vl_dir\<close> is the path of the run's directory; \<open>vl_report2\<close> and the chains may be missing.\<close>

record vlek_files =
  vl_dir :: string
  vl_report :: bytes
  vl_meta :: "string option"
  vl_sentence :: "string option"
  vl_vlek_pem :: "bytes option"
  vl_vcek_pem :: "bytes option"
  vl_vlek_chain :: "bytes option"
  vl_vcek_chain :: "bytes option"
  vl_report2 :: "bytes option"

text \<open>The value of an extension as \<open>exts\<close> finds it: bytes, or the text that \<open>str\<close> makes of anything else.\<close>

datatype ext_view = ExtBytes bytes | ExtText string

record 'c vlek_lib = "'c pki" +
  all_exts :: "'c \<Rightarrow> (string \<times> ext_view) list"

definition show_ext :: "ext_view \<Rightarrow> string" where
  "show_ext v = (case v of ExtBytes b \<Rightarrow> hex b | ExtText t \<Rightarrow> t)"

definition oid_name :: "string \<Rightarrow> string" where
  "oid_name oid = (case map_of OID oid of None \<Rightarrow> oid | Some n \<Rightarrow> n)"

definition cert_exts :: "'c vlek_lib \<Rightarrow> 'c \<Rightarrow> (string \<times> string) list" where
  "cert_exts P c = foldl (\<lambda>d (oid, v). AList.update (oid_name oid) (show_ext v) d) [] (all_exts P c)"

record vlek_row =
  vr_instance :: "string option"
  vr_az :: "string option"
  vr_type :: "string option"
  vr_captured :: "string option"
  vr_signing_key :: signing_key
  vr_mask_chip_key :: int
  vr_chip_id_zero :: bool
  vr_chip_id_prefix :: string
  vr_host_data :: string
  vr_nonce_ok :: bool
  vr_sig_ok :: bool
  vr_leaf :: string
  vr_leaf_subject :: string
  vr_leaf_exts :: "(string \<times> string) list"
  vr_leaf_pubkey :: string
  vr_chain :: "(string \<times> bool \<times> string) list"
  vr_moved :: "string list option"

section \<open>One run\<close>

text \<open>\<open>"vlek" in leafp\<close> looks at the whole path of the leaf, the directories included.\<close>

definition leaf_name :: "vlek_files \<Rightarrow> string" where
  "leaf_name d = (if vl_vlek_pem d \<noteq> None then ''vlek.pem'' else ''vcek.pem'')"

definition leaf_path :: "vlek_files \<Rightarrow> string" where
  "leaf_path d = vl_dir d @ ''/certs/'' @ leaf_name d"

definition leaf_file :: "vlek_files \<Rightarrow> bytes option" where
  "leaf_file d = (if vl_vlek_pem d \<noteq> None then vl_vlek_pem d else vl_vcek_pem d)"

definition chain_file :: "vlek_files \<Rightarrow> bytes option" where
  "chain_file d = (if find_sub ''vlek'' (leaf_path d) \<noteq> None then vl_vlek_chain d else vl_vcek_chain d)"

text \<open>The fields of two reports that differ, in the order of the code.\<close>

definition moved_fields :: "vlek_report \<Rightarrow> vlek_report \<Rightarrow> string list" where
  "moved_fields f f2 = (if v_report_id f2 \<noteq> v_report_id f then [''report_id''] else [])
     @ (if v_measurement f2 \<noteq> v_measurement f then [''measurement''] else [])
     @ (if v_host_data f2 \<noteq> v_host_data f then [''host_data''] else [])
     @ (if v_chip_id f2 \<noteq> v_chip_id f then [''chip_id''] else [])
     @ (if v_reported_tcb f2 \<noteq> v_reported_tcb f then [''reported_tcb''] else [])"

definition vlek_run :: "'c vlek_lib \<Rightarrow> vlek_files \<Rightarrow> vlek_row res" where
  "vlek_run P d = (let rep = vl_report d in rbind (vlek_parse rep) (\<lambda>f.
     rbind (open_file (vl_meta d)) (\<lambda>text0. let mt = key_values (split_ws text0) in
     rbind (open_file (vl_sentence d)) (\<lambda>sent.
     rbind (rbind (open_file (leaf_file d)) (load_pem P)) (\<lambda>leaf.
     rbind (case chain_file d of None \<Rightarrow> Ok [] | Some pem \<Rightarrow> vlek_chain_ok (pki.truncate P) leaf pem) (\<lambda>chain.
     rbind (case vl_report2 d of None \<Rightarrow> Ok None | Some r2 \<Rightarrow> rbind (vlek_parse r2) (\<lambda>f2. Ok (Some (moved_fields f f2)))) (\<lambda>moved.
     Ok \<lparr>vr_instance = map_of mt ''instance-id'', vr_az = map_of mt ''az'', vr_type = map_of mt ''type'', vr_captured = map_of mt ''captured'',
        vr_signing_key = fl_signing_key (v_flags f), vr_mask_chip_key = fl_mask_chip_key (v_flags f), vr_chip_id_zero = v_chip_id_zero f,
        vr_chip_id_prefix = take 16 (v_chip_id f), vr_host_data = v_host_data f, vr_nonce_ok = (hex (sha512 (utf8 sent)) = v_report_data f),
        vr_sig_ok = vlek_verify_sig (pki.truncate P) rep leaf, vr_leaf = leaf_name d, vr_leaf_subject = subject P leaf,
        vr_leaf_exts = cert_exts P leaf, vr_leaf_pubkey = take 16 (hex (sha256 (spki_der P leaf))), vr_chain = chain, vr_moved = moved\<rparr>)))))))"

section \<open>All runs\<close>

text \<open>\<open>keys\<close>: for each key fingerprint the placements that showed it.\<close>

definition vlek_keys :: "vlek_row list \<Rightarrow> (string \<times> string option list) list" where
  "vlek_keys rows = group_all vr_leaf_pubkey vr_az rows"

definition vlek_main :: "'c vlek_lib \<Rightarrow> vlek_files list \<Rightarrow> (vlek_row list \<times> (string \<times> string option list) list) res" where
  "vlek_main P ds = rbind (rmap (vlek_run P) ds) (\<lambda>rows. Ok (rows, vlek_keys rows))"

section \<open>Lemmas\<close>

lemma truncate_pki [simp]:
  "ecdsa384_ok (pki.truncate P) = ecdsa384_ok P" "is_rsa (pki.truncate P) = is_rsa P" "rsa_issued (pki.truncate P) = rsa_issued P"
  "ec_issued (pki.truncate P) = ec_issued P" "load_pem_chain (pki.truncate P) = load_pem_chain P" "load_pem (pki.truncate P) = load_pem P"
  "subject (pki.truncate P) = subject P" "spki_der (pki.truncate P) = spki_der P" "exts (pki.truncate P) = exts P"
  by (simp_all add: pki.truncate_def)

lemma moved_fields_Nil: "moved_fields f f2 = [] \<longleftrightarrow> v_report_id f2 = v_report_id f \<and> v_measurement f2 = v_measurement f
    \<and> v_host_data f2 = v_host_data f \<and> v_chip_id f2 = v_chip_id f \<and> v_reported_tcb f2 = v_reported_tcb f"
  by (simp add: moved_fields_def)

text \<open>What a run that returned computed.\<close>

lemma vlek_run_Inr:
  assumes "vlek_run P d = Inr row"
  obtains f sent leaf_pem leaf where "vlek_parse (vl_report d) = Inr f" "vl_sentence d = Some sent" "leaf_file d = Some leaf_pem"
    "load_pem P leaf_pem = Inr leaf" "vr_nonce_ok row = (hex (sha512 (utf8 sent)) = v_report_data f)"
    "vr_sig_ok row = sig_ok (pki.truncate P) (vl_report d) leaf" "vr_leaf_pubkey row = take 16 (hex (sha256 (spki_der P leaf)))"
    "(case chain_file d of None \<Rightarrow> Ok [] | Some pem \<Rightarrow> vlek_chain_ok (pki.truncate P) leaf pem) = Inr (vr_chain row)"
    "vr_moved row \<noteq> None \<Longrightarrow> \<exists>r2 f2. vl_report2 d = Some r2 \<and> vlek_parse r2 = Inr f2 \<and> vr_moved row = Some (moved_fields f f2)"
proof -
  from assms obtain f sent leaf chain moved where a: "vlek_parse (vl_report d) = Inr f" "open_file (vl_sentence d) = Inr sent"
      "rbind (open_file (leaf_file d)) (load_pem P) = Inr leaf"
      "(case chain_file d of None \<Rightarrow> Ok [] | Some pem \<Rightarrow> vlek_chain_ok (pki.truncate P) leaf pem) = Inr chain"
      "(case vl_report2 d of None \<Rightarrow> Ok None | Some r2 \<Rightarrow> rbind (vlek_parse r2) (\<lambda>f2. Ok (Some (moved_fields f f2)))) = Inr moved"
    and r: "vr_nonce_ok row = (hex (sha512 (utf8 sent)) = v_report_data f)" "vr_sig_ok row = vlek_verify_sig (pki.truncate P) (vl_report d) leaf"
      "vr_leaf_pubkey row = take 16 (hex (sha256 (spki_der P leaf)))" "vr_chain row = chain" "vr_moved row = moved"
    unfolding vlek_run_def Let_def rbind_Inr_iff sum.inject by (elim exE conjE) (hypsubst, simp)
  from a(2,3) obtain leaf_pem where "vl_sentence d = Some sent" "leaf_file d = Some leaf_pem" "load_pem P leaf_pem = Inr leaf"
    by (auto simp: open_file_def res_iff)
  with a r show thesis
    by (intro that [of f sent leaf_pem leaf]) (auto simp: vlek_verify_sig_eq rbind_Inr_iff split: option.splits)
qed

lemma find_sub_append: "find_sub p a = Some i \<Longrightarrow> find_sub p (a @ b) \<noteq> None"
proof (induction p a arbitrary: i rule: find_sub.induct)
  case (1 p)
  then show ?case by (cases b) (auto split: if_splits)
next
  case (2 p x xs)
  show ?case
  proof (cases "take (length p) (x # xs) = p")
    case True
    then have "length p \<le> length (x # xs)" by (metis length_take min.cobounded1)
    with True have "take (length p) ((x # xs) @ b) = p" by (simp only: take_append) simp
    then show ?thesis by simp
  next
    case False
    with "2.prems" obtain j where "find_sub p xs = Some j" by auto
    with False "2.IH" show ?thesis by simp
  qed
qed

text \<open>A small package: certificates are numbers, everything but number 1 is a good issuer.\<close>

definition demo_vlek_lib :: "nat vlek_lib" where
  "demo_vlek_lib = \<lparr>ecdsa384_ok = (\<lambda>_ _ _. True), is_rsa = (\<lambda>_. True), rsa_issued = (\<lambda>p c. p \<noteq> 1), ec_issued = (\<lambda>_ _. False),
     exts = (\<lambda>_. []), subject = (\<lambda>_. ''s''), spki_der = (\<lambda>c. [word_of_nat c]), load_pem = (\<lambda>b. Ok (unat (hd b))),
     load_der = (\<lambda>b. Ok (unat (hd b))), load_pem_chain = (\<lambda>b. Ok [unat (hd b), 9]), issue_error = (\<lambda>_ _. ''e''), all_exts = (\<lambda>_. [])\<rparr>"

definition demo_vlek :: vlek_files where
  "demo_vlek = \<lparr>vl_dir = ''aws-vlek/runs/i'', vl_report = put_slice (zeros 1184) 0x50 0x90 (sha512 (utf8 ''s'')), vl_meta = Some ''az=eu-west-1a'',
     vl_sentence = Some ''s'', vl_vlek_pem = None, vl_vcek_pem = Some [0], vl_vlek_chain = Some [1], vl_vcek_chain = Some [2], vl_report2 = None\<rparr>"

lemma demo_vlek_report: "length (vl_report demo_vlek) = 1184" "report_data_of (vl_report demo_vlek) = sha512 (utf8 ''s'')"
  unfolding demo_vlek_def report_data_of_def by (simp_all add: length_put_slice slice_put_same)

section \<open>Properties\<close>

text \<open>What a good row of the summary means. If a row has the nonce, the report's signature and every link
  of a chain that was checked, then the report of its run carries the SHA-512 of the published sentence, is
  signed by the certificate the hypervisor handed over, that certificate leads through the KDS chain of the
  run to a self-signed root, and the placement of the run is listed under the fingerprint of that
  certificate's key.\<close>

theorem vlek_summary_sound:
  assumes "vlek_main P ds = Inr (rows, keys)" and "row \<in> set rows" and "vr_nonce_ok row" "vr_sig_ok row"
    and "vr_chain row \<noteq> []" "\<forall>(label, ok, t) \<in> set (vr_chain row). ok"
  shows "\<exists>d \<in> set ds. \<exists>sent leaf_pem leaf chain_pem ask ark rest. vl_sentence d = Some sent
    \<and> report_data_of (vl_report d) = sha512 (utf8 sent) \<and> leaf_file d = Some leaf_pem \<and> load_pem P leaf_pem = Inr leaf
    \<and> sig_ok (pki.truncate P) (vl_report d) leaf
    \<and> chain_file d = Some chain_pem \<and> load_pem_chain P chain_pem = Inr (ask # ark # rest)
    \<and> issued (pki.truncate P) ask leaf \<and> issued (pki.truncate P) ark ask \<and> issued (pki.truncate P) ark ark
    \<and> vr_az row \<in> set (group_get keys (take 16 (hex (sha256 (spki_der P leaf)))))"
proof -
  from assms(1) have rows: "rmap (vlek_run P) ds = Inr rows" and keys: "keys = vlek_keys rows"
    by (auto simp: vlek_main_def res_iff)
  from rmap_Ok_member [OF rows assms(2)] obtain d where d: "d \<in> set ds" and run: "vlek_run P d = Inr row" by blast
  from run obtain f sent leaf_pem leaf where a: "vlek_parse (vl_report d) = Inr f" "vl_sentence d = Some sent" "leaf_file d = Some leaf_pem"
      "load_pem P leaf_pem = Inr leaf" "vr_nonce_ok row = (hex (sha512 (utf8 sent)) = v_report_data f)"
      "vr_sig_ok row = sig_ok (pki.truncate P) (vl_report d) leaf" "vr_leaf_pubkey row = take 16 (hex (sha256 (spki_der P leaf)))"
      "(case chain_file d of None \<Rightarrow> Ok [] | Some pem \<Rightarrow> vlek_chain_ok (pki.truncate P) leaf pem) = Inr (vr_chain row)"
    by (rule vlek_run_Inr)
  have "v_report_data f = hex (report_data_of (vl_report d))" using a(1) by (auto simp: vlek_parse_def res_iff split: prod.splits)
  with a(5) assms(3) have rd: "report_data_of (vl_report d) = sha512 (utf8 sent)" by simp
  from a(8) assms(5) obtain pem where pem: "chain_file d = Some pem" "vlek_chain_ok (pki.truncate P) leaf pem = Inr (vr_chain row)"
    by (cases "chain_file d") auto
  then obtain certs where certs: "load_pem_chain P pem = Inr certs" by (auto simp: vlek_chain_ok_def res_iff)
  then have "chain_ok (pki.truncate P) leaf certs" using vlek_chain_ok_rows(2) [OF pem(2)] assms(6) by simp
  then obtain ask ark rest where c: "certs = ask # ark # rest" "issued (pki.truncate P) ask leaf" "issued (pki.truncate P) ark ask"
      "issued (pki.truncate P) ark ark"
    by (auto simp: chain_ok_iff)
  have "vr_az row \<in> set (group_get keys (vr_leaf_pubkey row))"
    using assms(2) by (auto simp: keys vlek_keys_def group_all_get)
  with d rd a c certs pem(1) assms(4) show ?thesis by metis
qed

theorem vlek_summary_sound_witness:
  "\<exists>rows keys row leaf. vlek_main demo_vlek_lib [demo_vlek\<lparr>vl_dir := ''runs/i''\<rparr>] = Inr (rows, keys) \<and> row \<in> set rows
    \<and> sig_ok (pki.truncate demo_vlek_lib) (vl_report demo_vlek) leaf
    \<and> Some ''eu-west-1a'' \<in> set (group_get keys (take 16 (hex (sha256 (spki_der demo_vlek_lib leaf)))))"
proof -
  let ?d = "demo_vlek\<lparr>vl_dir := ''runs/i''\<rparr>"
  have az: "map_of (key_values (split_ws ''az=eu-west-1a'')) ''az'' = Some ''eu-west-1a''"
    by (simp add: key_values_def split_eq_def split_ws.simps is_space_def)
  have f: "find_sub ''vlek'' (leaf_path ?d) = None" by (simp add: demo_vlek_def leaf_path_def leaf_name_def)
  have "\<exists>row. vlek_run demo_vlek_lib ?d = Inr row \<and> vr_nonce_ok row \<and> vr_sig_ok row \<and> vr_chain row \<noteq> []
      \<and> (\<forall>(label, ok, t) \<in> set (vr_chain row). ok) \<and> vr_az row = Some ''eu-west-1a''"
    using demo_vlek_report f az
    by (simp add: vlek_run_def demo_vlek_def demo_vlek_lib_def open_file_def vlek_parse_value Let_def chain_file_def leaf_file_def
        vlek_chain_ok_def vlek_verify_sig_eq sig_ok_def verify_cert_def issued_def)
  then obtain row where r: "vlek_run demo_vlek_lib ?d = Inr row" "vr_nonce_ok row" "vr_sig_ok row" "vr_chain row \<noteq> []"
      "\<forall>(label, ok, t) \<in> set (vr_chain row). ok" "vr_az row = Some ''eu-west-1a''" by blast
  then have m: "vlek_main demo_vlek_lib [?d] = Inr ([row], vlek_keys [row])" by (simp add: vlek_main_def)
  show ?thesis
    using vlek_summary_sound [OF m _ r(2-5)] m r(6) by (simp add: demo_vlek_def) blast
qed

text \<open>C37: The directory's name can mislead the choice of the chain. The chain file is picked by looking for
  \<open>vlek\<close> anywhere in the path of the leaf, so under a directory such as \<open>aws-vlek\<close> a VCEK is checked
  against the chain of the VLEKs: a genuine VCEK is reported with a broken chain there, although the same
  files under a name without \<open>vlek\<close> give a chain without a fault.\<close>

theorem vlek_path_misleads:
  assumes "find_sub ''vlek'' (vl_dir d) = Some i" and "find_sub ''vlek'' (dir' @ ''/certs/vcek.pem'') = None"
    and "vl_vlek_pem d = None" "vl_vcek_pem d = Some leaf_pem" "load_pem P leaf_pem = Inr leaf"
    and "vl_vlek_chain d = Some pv" "load_pem_chain P pv = Inr (asvk # ark # rest)" "\<not> issued (pki.truncate P) asvk leaf"
    and "vl_vcek_chain d = Some pc" "load_pem_chain P pc = Inr certs" "chain_ok (pki.truncate P) leaf certs"
    and "vlek_run P d = Inr row" and "vlek_run P (d\<lparr>vl_dir := dir'\<rparr>) = Inr row'"
  shows "(\<exists>(label, ok, t) \<in> set (vr_chain row). \<not> ok) \<and> (\<forall>(label, ok, t) \<in> set (vr_chain row'). ok)
    \<and> vr_leaf_pubkey row' = vr_leaf_pubkey row"
proof -
  let ?d = "d\<lparr>vl_dir := dir'\<rparr>"
  have n: "leaf_name d = ''vcek.pem''" "leaf_name ?d = ''vcek.pem''" using assms(3) by (simp_all add: leaf_name_def)
  have "find_sub ''vlek'' (leaf_path d) \<noteq> None"
    unfolding leaf_path_def by (rule find_sub_append [OF assms(1)])
  then have f: "chain_file d = Some pv" using assms(6) by (simp add: chain_file_def)
  have f': "chain_file ?d = Some pc" using assms(2,9) n(2) by (simp add: chain_file_def leaf_path_def)
  have l: "leaf_file d = Some leaf_pem" "leaf_file ?d = Some leaf_pem" using assms(3,4) by (simp_all add: leaf_file_def)
  from assms(12) have a: "vlek_chain_ok (pki.truncate P) leaf pv = Inr (vr_chain row)" "vr_leaf_pubkey row = take 16 (hex (sha256 (spki_der P leaf)))"
    by (rule vlek_run_Inr, use f l assms(5) in simp_all)+
  from assms(13) have b: "vlek_chain_ok (pki.truncate P) leaf pc = Inr (vr_chain row')" "vr_leaf_pubkey row' = take 16 (hex (sha256 (spki_der P leaf)))"
    by (rule vlek_run_Inr, use f' l assms(5) in simp_all)+
  have "\<not> chain_ok (pki.truncate P) leaf (asvk # ark # rest)" using assms(8) by (simp add: chain_ok_def)
  then have "\<exists>(label, ok, t) \<in> set (vr_chain row). \<not> ok"
    using vlek_chain_ok_rows(2) [OF a(1), of "asvk # ark # rest"] assms(7) by auto
  moreover have "\<forall>(label, ok, t) \<in> set (vr_chain row'). ok"
    using vlek_chain_ok_rows(2) [OF b(1), of certs] assms(10,11) by simp
  ultimately show ?thesis by (simp add: a b)
qed

theorem vlek_path_misleads_witness:
  "\<exists>row row'. vlek_run demo_vlek_lib demo_vlek = Inr row \<and> vlek_run demo_vlek_lib (demo_vlek\<lparr>vl_dir := ''runs/i''\<rparr>) = Inr row'
    \<and> (\<exists>(label, ok, t) \<in> set (vr_chain row). \<not> ok) \<and> (\<forall>(label, ok, t) \<in> set (vr_chain row'). ok)"
proof -
  have f: "find_sub ''vlek'' (vl_dir demo_vlek) = Some 4" "find_sub ''vlek'' (''runs/i'' @ ''/certs/vcek.pem'') = None"
    "find_sub ''vlek'' (leaf_path demo_vlek) = Some 4" "find_sub ''vlek'' (leaf_path (demo_vlek\<lparr>vl_dir := ''runs/i''\<rparr>)) = None"
    by (simp_all add: demo_vlek_def leaf_path_def leaf_name_def)
  have run: "\<exists>row. vlek_run demo_vlek_lib demo_vlek = Inr row" "\<exists>row. vlek_run demo_vlek_lib (demo_vlek\<lparr>vl_dir := ''runs/i''\<rparr>) = Inr row"
    using demo_vlek_report f(3,4) by (auto simp: vlek_run_def demo_vlek_def demo_vlek_lib_def open_file_def vlek_parse_value Let_def chain_file_def leaf_file_def
        vlek_chain_ok_def)
  then obtain row row' where r: "vlek_run demo_vlek_lib demo_vlek = Inr row" "vlek_run demo_vlek_lib (demo_vlek\<lparr>vl_dir := ''runs/i''\<rparr>) = Inr row'"
    by blast
  have "(\<exists>(label, ok, t) \<in> set (vr_chain row). \<not> ok) \<and> (\<forall>(label, ok, t) \<in> set (vr_chain row'). ok)
      \<and> vr_leaf_pubkey row' = vr_leaf_pubkey row"
    by (rule vlek_path_misleads [OF f(1,2), where P = demo_vlek_lib and leaf = 0 and asvk = 1 and ark = 9 and rest = "[]" and certs = "[2, 9]"
        and leaf_pem = "[0]" and pv = "[1]" and pc = "[2]"])
      (use r in \<open>simp_all add: demo_vlek_def demo_vlek_lib_def issued_def chain_ok_def\<close>)
  with r show ?thesis by blast
qed

end
