(* ===== verification/BindVerify.thy ===== *)
theory BindVerify
  imports DualVerify GcpVerify NitroTpm
begin

text \<open>
  \<open>gcp-cvm/bind_verify.py\<close>: a run in which the guest bound the platform's own statements (an endorsement
  key certificate and an identity token) to SEV-SNP reports, one report per statement. The reports are
  checked with \<open>dual_verify.py\<close>'s functions under one VCEK, the statements with \<open>gcp_verify.py\<close>'s, and the
  zone is looked for in whatever the statements show.
\<close>

section \<open>Looking for the zone\<close>

text \<open>The nested values \<open>find_zone\<close> walks through, a text by its UTF-8 bytes. A text in which decoding put
  replacement characters keeps the bytes they replace: neither ends in a text without them.\<close>

datatype shown = ShText bytes | ShList "shown list" | ShDict "(string \<times> shown) list" | ShOther

definition ends_with :: "'a list \<Rightarrow> 'a list \<Rightarrow> bool" where
  "ends_with s p \<longleftrightarrow> last_n (length p) s = p"

definition rstrip_slashes :: "bytes \<Rightarrow> bytes" where
  "rstrip_slashes s = rev (dropWhile (\<lambda>x. x = 0x2f) (rev s))"

text \<open>\<open>any\<close> stops at the first match; a run without a zone (\<open>None\<close>) raises at the first text.\<close>

fun find_zone :: "bytes option \<Rightarrow> shown \<Rightarrow> bool res" and find_any :: "bytes option \<Rightarrow> shown list \<Rightarrow> bool res" where
  "find_zone z (ShText s) = (case z of None \<Rightarrow> Err TypeError | Some p \<Rightarrow> Ok (ends_with (rstrip_slashes s) p))"
| "find_zone z (ShList xs) = find_any z xs"
| "find_zone z (ShDict m) = find_any z (map snd m)"
| "find_zone z ShOther = Ok False"
| "find_any z [] = Ok False"
| "find_any z (x # xs) = rbind (find_zone z x) (\<lambda>b. if b then Ok True else find_any z xs)"

text \<open>All texts of a value.\<close>

fun texts :: "shown \<Rightarrow> bytes list" and texts_any :: "shown list \<Rightarrow> bytes list" where
  "texts (ShText s) = [s]"
| "texts (ShList xs) = texts_any xs"
| "texts (ShDict m) = texts_any (map snd m)"
| "texts ShOther = []"
| "texts_any [] = []"
| "texts_any (x # xs) = texts x @ texts_any xs"

lemma find_zone_texts:
  "find_zone (Some z) v = Ok (\<exists>s \<in> set (texts v). ends_with (rstrip_slashes s) z)"
  "find_any (Some z) vs = Ok (\<exists>s \<in> set (texts_any vs). ends_with (rstrip_slashes s) z)"
  by (induction v and vs rule: texts_texts_any.induct) auto

section \<open>What the statements show\<close>

definition sh_text :: "string \<Rightarrow> shown" where
  "sh_text s = ShText (utf8 s)"

fun sh_json :: "json \<Rightarrow> shown" where
  "sh_json (JStr s) = sh_text s"
| "sh_json (JList xs) = ShList (map sh_json xs)"
| "sh_json (JObj m) = ShDict (map (\<lambda>(k, v). (k, sh_json v)) m)"
| "sh_json _ = ShOther"

fun sh_der :: "der \<Rightarrow> shown" where
  "sh_der (DStr b) = ShText b"
| "sh_der (DSeq ds) = ShList (map sh_der ds)"
| "sh_der DNested = sh_text ''nested''"
| "sh_der (DOther t b) = ShDict [(''tag'', sh_text (py_hex t)), (''hex'', sh_text (hex b))]"
| "sh_der _ = ShOther"

text \<open>\<open>printable raw\<close>: the bytes decode to a printable text, which is shown instead of their hex.\<close>

definition sh_pb :: "(bytes \<Rightarrow> bool) \<Rightarrow> pbval \<Rightarrow> shown" where
  "sh_pb printable v = (case v of PInt n \<Rightarrow> ShOther | PBytes b \<Rightarrow> if printable b then ShText b else sh_text (hex b))"

definition sh_gce :: "(bytes \<Rightarrow> bool) \<Rightarrow> (pyerr \<Rightarrow> string) \<Rightarrow> gce_ext \<Rightarrow> shown" where
  "sh_gce printable repr g = (case g of
     GceFields fs \<Rightarrow> ShDict (map (\<lambda>(n, d). (n, sh_der d)) fs)
   | GceProtobuf pb \<Rightarrow> ShDict [(''protobuf'', ShDict (map (\<lambda>(f, vs). (dec f, ShList (map (sh_pb printable) vs))) pb))]
   | GceFailed e \<Rightarrow> sh_text (''decode failed: '' @ take 80 (repr e)))"

definition sh_opt :: "string \<Rightarrow> ('a \<Rightarrow> shown) \<Rightarrow> 'a option \<Rightarrow> (string \<times> shown) list" where
  "sh_opt k f x = (case x of None \<Rightarrow> [] | Some v \<Rightarrow> [(k, f v)])"

text \<open>The dictionaries of \<open>ek_verify\<close> and \<open>jwt_verify\<close>, and \<open>{"error": repr(e)[:120]}\<close>.\<close>

definition sh_ek :: "(bytes \<Rightarrow> bool) \<Rightarrow> (pyerr \<Rightarrow> string) \<Rightarrow> ek_out \<Rightarrow> shown" where
  "sh_ek printable repr o' = ShDict ([(''file'', sh_text ''ek-rsa.der''), (''subject'', sh_text (ek_subject o')), (''issuer'', sh_text (ek_issuer o')),
       (''not_before'', sh_text (ek_not_before o'))]
     @ sh_opt ''san'' (ShList \<circ> map sh_text) (ek_san o') @ [(''extension_oids'', ShList (map sh_text (ek_oids o')))]
     @ sh_opt ''gce_instance_ext_raw'' sh_text (ek_gce_raw o') @ sh_opt ''gce_instance_ext'' (sh_gce printable repr) (ek_gce o')
     @ sh_opt ''issuer_sig_ok'' (\<lambda>_. ShOther) (ek_issuer_sig_ok o') @ sh_opt ''issuer_of_issuer'' sh_text (ek_issuer_of_issuer o')
     @ sh_opt ''issuer_check'' (\<lambda>e. sh_text (take 120 (repr e))) (ek_error o'))"

definition TOKEN_FILE :: string where "TOKEN_FILE = ''gce-identity-token.jwt''"

definition sh_jwt :: "(pyerr \<Rightarrow> string) \<Rightarrow> jwt_result \<Rightarrow> shown" where
  "sh_jwt repr r = (case r of
     NotJwt t \<Rightarrow> ShDict [(''file'', sh_text TOKEN_FILE), (''error'', sh_text (''not a JWT: '' @ t))]
   | Token o' \<Rightarrow> ShDict ([(''file'', sh_text TOKEN_FILE), (''iss'', sh_json (jo_iss o')), (''alg'', sh_json (jo_alg o')), (''kid'', sh_json (jo_kid o')),
         (''claims'', sh_json (JObj (jo_claims o')))]
       @ sh_opt ''sig_ok'' (\<lambda>_. ShOther) (jo_sig_ok o') @ sh_opt ''jwks_uri'' sh_json (jo_jwks_uri o')
       @ sh_opt ''sig_check'' (\<lambda>e. sh_text (take 120 (repr e))) (jo_error o')))"

definition sh_result :: "(pyerr \<Rightarrow> string) \<Rightarrow> ('a \<Rightarrow> shown) \<Rightarrow> 'a res \<Rightarrow> shown" where
  "sh_result repr f r = (case r of Inl e \<Rightarrow> ShDict [(''error'', sh_text (take 120 (repr e)))] | Inr x \<Rightarrow> f x)"

section \<open>The reports of a run\<close>

record bind_files =
  bd_meta :: "string option"
  bd_sentence :: "string option"
  bd_ek :: "bytes option"
  bd_jwt :: "bytes option"
  bd_r0 :: "bytes option"
  bd_rek :: "bytes option"
  bd_rjwt :: "bytes option"

text \<open>The file is opened as text: UTF-8, line ends made \<open>\n\<close>.\<close>

fun newlines :: "string \<Rightarrow> string" where
  "newlines [] = []"
| "newlines (c # r) = (if c = CHR 0x0D then CHR 0x0A # (case r of [] \<Rightarrow> [] | d # r' \<Rightarrow> if d = CHR 0x0A then newlines r' else newlines r)
     else c # newlines r)"

definition read_text :: "bytes \<Rightarrow> string res" where
  "read_text b = (case utf8_decode b of None \<Rightarrow> Err (Raised ''UnicodeDecodeError'' '''') | Some s \<Rightarrow> Ok (newlines s))"

record bind_report =
  br_signing_key :: signing_key
  br_chip_prefix :: string
  br_report_id :: string
  br_sig_ok :: "bool option"
  br_chain_ok :: "bool option"
  br_hwid :: "bool option"
  br_binding :: "bool option"

record bind_row =
  bw_instance :: "string option"
  bw_zone :: "string option"
  bw_reports :: "(string \<times> bind_report) list"
  bw_kds_error :: "pyerr option"
  bw_ek :: "ek_out res option"
  bw_ek_zone :: "bool option"
  bw_token :: "jwt_result res"
  bw_token_zone :: bool

text \<open>What REPORT_DATA should be; without a certificate file there is nothing to expect of \<open>r-ek\<close>.\<close>

definition expected :: "bytes \<Rightarrow> bytes \<Rightarrow> bytes \<Rightarrow> string \<Rightarrow> bytes option" where
  "expected N ek jwt name = (if name = ''r0'' then Some N
     else if name = ''r-ek'' then (if ek = [] then None else Some (sha512 (N @ sha256 ek)))
     else Some (sha512 (N @ sha256 jwt)))"

text \<open>One report: the VCEK is asked for until there is one, with the CHIP_ID and TCB of the report at hand.\<close>

definition vcek_of :: "'c pki \<Rightarrow> fetch \<Rightarrow> dual_report \<Rightarrow> 'c option \<times> pyerr option \<Rightarrow> 'c option \<times> pyerr option" where
  "vcek_of P get f = (\<lambda>(vcek, err). case vcek of Some c \<Rightarrow> (Some c, err)
     | None \<Rightarrow> (case rbind (get (vcek_url ''Milan'' (chip_id f) (tcb f))) (load_cert P) of Inr c \<Rightarrow> (Some c, err) | Inl e \<Rightarrow> (None, Some e)))"

definition bind_report_of :: "'c pki \<Rightarrow> 'c list option \<Rightarrow> bytes \<Rightarrow> dual_report \<Rightarrow> 'c option \<Rightarrow> bytes option \<Rightarrow> bind_report" where
  "bind_report_of P chain rep f vcek expect =
     \<lparr>br_signing_key = signing_key f, br_chip_prefix = take 16 (chip_id f), br_report_id = take 16 (report_id f),
      br_sig_ok = map_option (sig_ok P rep) vcek,
      br_chain_ok = (case (vcek, chain) of (Some c, Some (x # xs)) \<Rightarrow> Some (chain_ok P c (x # xs)) | _ \<Rightarrow> None),
      br_hwid = (case vcek of None \<Rightarrow> None | Some c \<Rightarrow> hwid_equals P c (chip_id f)),
      br_binding = map_option (\<lambda>x. slice rep 0x50 0x90 = x) expect\<rparr>"

fun bind_reports :: "'c pki \<Rightarrow> fetch \<Rightarrow> 'c list option \<Rightarrow> (string \<Rightarrow> bytes option) \<Rightarrow> (string \<times> bytes) list \<Rightarrow> 'c option \<times> pyerr option
    \<Rightarrow> ((string \<times> bind_report) list \<times> pyerr option) res" where
  "bind_reports P get chain expect [] s = Ok ([], snd s)"
| "bind_reports P get chain expect ((name, raw) # rs) s = (let rep = take 1184 raw in rbind (parse rep) (\<lambda>f.
     let s' = vcek_of P get f s in
     rbind (bind_reports P get chain expect rs s') (\<lambda>(rows, err).
     Ok ((name, bind_report_of P chain rep f (fst s') (expect name)) # rows, err))))"

definition present :: "bind_files \<Rightarrow> (string \<times> bytes) list" where
  "present d = concat (map (\<lambda>(n, f). case f of None \<Rightarrow> [] | Some b \<Rightarrow> [(n, b)]) [(''r0'', bd_r0 d), (''r-ek'', bd_rek d), (''r-jwt'', bd_rjwt d)])"

section \<open>One run\<close>

definition bind_run :: "'c gpki \<Rightarrow> 'c jwt_lib \<Rightarrow> fetch \<Rightarrow> fetch \<Rightarrow> (bytes \<Rightarrow> bool) \<Rightarrow> (pyerr \<Rightarrow> string) \<Rightarrow> 'c list option \<Rightarrow> bind_files \<Rightarrow> bind_row res" where
  "bind_run P R get gcp_get printable repr chain d =
     rbind (open_file (bd_meta d)) (\<lambda>text0. let mt = key_values (split_ws text0); zone = map_of mt ''zone''; z = map_option utf8 zone in
     rbind (open_file (bd_sentence d)) (\<lambda>sent. let N = sha512 (utf8 sent); ek = (case bd_ek d of None \<Rightarrow> [] | Some b \<Rightarrow> b) in
     rbind (open_file (bd_jwt d)) (\<lambda>jwt.
     rbind (bind_reports (pki_of P) get chain (expected N ek jwt) (present d) (None, None)) (\<lambda>(rows, err).
     let ekr = (if ek = [] then None else Some (ek_verify P gcp_get ek)) in
     rbind (case ekr of None \<Rightarrow> Ok None | Some r \<Rightarrow> rbind (find_zone z (sh_result repr (sh_ek printable repr) r)) (\<lambda>b. Ok (Some b))) (\<lambda>ekz.
     let tok = rbind (read_text jwt) (jwt_verify R gcp_get) in
     rbind (find_zone z (sh_result repr (sh_jwt repr) tok)) (\<lambda>tz.
     Ok \<lparr>bw_instance = map_of mt ''instance'', bw_zone = zone, bw_reports = rows, bw_kds_error = err, bw_ek = ekr, bw_ek_zone = ekz,
        bw_token = tok, bw_token_zone = tz\<rparr>))))))"

text \<open>\<open>main\<close>: the KDS chain once, then the runs that have a results file.\<close>

definition bind_main :: "'c gpki \<Rightarrow> 'c jwt_lib \<Rightarrow> fetch \<Rightarrow> fetch \<Rightarrow> (bytes \<Rightarrow> bool) \<Rightarrow> (pyerr \<Rightarrow> string) \<Rightarrow> (bool \<times> bind_files) list \<Rightarrow> bind_row list res" where
  "bind_main P R get gcp_get printable repr ds =
     (let chain = drop_error (rbind (get (chain_url ''vcek'' ''Milan'')) (load_pem_chain P)) in
      rmap (bind_run P R get gcp_get printable repr chain) (map snd (filter fst ds)))"

section \<open>Lemmas\<close>

text \<open>Once there is a certificate it stays; the rows before it have nothing to check.\<close>

lemma bind_reports_known:
  assumes "bind_reports P get chain expect rs (Some c, e) = Inr (rows, err)" and "(name, row) \<in> set rows"
  shows "\<exists>raw f. (name, raw) \<in> set rs \<and> parse (take 1184 raw) = Inr f
    \<and> row = bind_report_of P chain (take 1184 raw) f (Some c) (expect name)"
  using assms
proof (induction rs arbitrary: rows err)
  case (Cons r rs)
  obtain n raw where r: "r = (n, raw)" by (cases r)
  with Cons.prems(1) obtain f rows' where p: "parse (take 1184 raw) = Inr f" "bind_reports P get chain expect rs (Some c, e) = Inr (rows', err)"
      "rows = (n, bind_report_of P chain (take 1184 raw) f (Some c) (expect n)) # rows'"
    by (auto simp: Let_def vcek_of_def res_iff)
  show ?case
  proof (cases "(name, row) \<in> set rows'")
    case True
    then show ?thesis using Cons.IH [OF p(2)] by (auto simp: r)
  next
    case False
    with Cons.prems(2) p r show ?thesis by auto
  qed
qed simp

definition from_kds :: "'c pki \<Rightarrow> fetch \<Rightarrow> 'c \<Rightarrow> bool" where
  "from_kds P get c \<longleftrightarrow> (\<exists>chip t. rbind (get (vcek_url ''Milan'' chip t)) (load_cert P) = Inr c)"

lemma from_kdsI: "rbind (get (vcek_url ''Milan'' chip t)) (load_cert P) = Inr c \<Longrightarrow> from_kds P get c"
  unfolding from_kds_def by blast

text \<open>All rows that were checked at all were checked with one certificate of the KDS.\<close>

lemma bind_reports_one_cert:
  assumes "bind_reports P get chain expect rs s = Inr (rows, err)" and "fst s = None \<or> (\<exists>c. fst s = Some c \<and> from_kds P get c)"
  shows "\<exists>c. \<forall>(name, row) \<in> set rows. br_sig_ok row \<noteq> None \<longrightarrow> from_kds P get c \<and> (\<exists>raw f. (name, raw) \<in> set rs
    \<and> parse (take 1184 raw) = Inr f \<and> row = bind_report_of P chain (take 1184 raw) f (Some c) (expect name))"
  using assms
proof (induction rs arbitrary: s rows err)
  case (Cons r rs)
  obtain n raw where r: "r = (n, raw)" by (cases r)
  with Cons.prems(1) obtain f rows' where p: "parse (take 1184 raw) = Inr f" "bind_reports P get chain expect rs (vcek_of P get f s) = Inr (rows', err)"
      "rows = (n, bind_report_of P chain (take 1184 raw) f (fst (vcek_of P get f s)) (expect n)) # rows'"
    by (auto simp: Let_def res_iff)
  have k: "fst (vcek_of P get f s) = None \<or> (\<exists>c. fst (vcek_of P get f s) = Some c \<and> from_kds P get c)"
    using Cons.prems(2) by (cases s) (auto simp: vcek_of_def intro: from_kdsI split: option.split sum.split)
  then consider (no) "fst (vcek_of P get f s) = None" | (yes) c e where "vcek_of P get f s = (Some c, e)" "from_kds P get c"
    by (metis prod.collapse)
  then show ?case
  proof cases
    case no
    then have "br_sig_ok (bind_report_of P chain (take 1184 raw) f (fst (vcek_of P get f s)) (expect n)) = None"
      by (simp add: bind_report_of_def)
    with Cons.IH [OF p(2)] no show ?thesis by (fastforce simp: r p(3))
  next
    case yes
    then show ?thesis using bind_reports_known [OF p(2) [unfolded yes(1)]] p(1,3) by (intro exI [of _ c]) (fastforce simp: r)
  qed
qed simp

lemma present_files: "(name, raw) \<in> set (present d) \<Longrightarrow>
    (name = ''r0'' \<and> bd_r0 d = Some raw) \<or> (name = ''r-ek'' \<and> bd_rek d = Some raw) \<or> (name = ''r-jwt'' \<and> bd_rjwt d = Some raw)"
  by (auto simp: present_def split: option.splits)

lemma bind_run_Inr:
  assumes "bind_run P R get gcp_get printable repr chain d = Inr row"
  obtains sent jwt err where "bd_sentence d = Some sent" "bd_jwt d = Some jwt"
    "bind_reports (pki_of P) get chain (expected (sha512 (utf8 sent)) (case bd_ek d of None \<Rightarrow> [] | Some b \<Rightarrow> b) jwt) (present d) (None, None) = Inr (bw_reports row, err)"
    "bw_token row = rbind (read_text jwt) (jwt_verify R gcp_get)"
    "find_zone (map_option utf8 (bw_zone row)) (sh_result repr (sh_jwt repr) (bw_token row)) = Inr (bw_token_zone row)"
    "bw_ek row = (case bd_ek d of None \<Rightarrow> None | Some b \<Rightarrow> if b = [] then None else Some (ek_verify P gcp_get b))"
    "\<And>r. bw_ek row = Some r \<Longrightarrow> \<exists>b. bw_ek_zone row = Some b \<and> find_zone (map_option utf8 (bw_zone row)) (sh_result repr (sh_ek printable repr) r) = Inr b"
proof -
  let ?ek = "case bd_ek d of None \<Rightarrow> [] | Some b \<Rightarrow> b" and ?z = "\<lambda>text0. map_of (key_values (split_ws text0)) ''zone''"
  from assms obtain text0 sent jwt p ekz tz where a: "open_file (bd_sentence d) = Inr sent" "open_file (bd_jwt d) = Inr jwt"
    "bind_reports (pki_of P) get chain (expected (sha512 (utf8 sent)) ?ek jwt) (present d) (None, None) = Inr p"
    and z: "(case if ?ek = [] then None else Some (ek_verify P gcp_get ?ek) of None \<Rightarrow> Ok None
      | Some r \<Rightarrow> rbind (find_zone (map_option utf8 (?z text0)) (sh_result repr (sh_ek printable repr) r)) (\<lambda>b. Ok (Some b))) = Inr ekz"
    "find_zone (map_option utf8 (?z text0)) (sh_result repr (sh_jwt repr) (rbind (read_text jwt) (jwt_verify R gcp_get))) = Inr tz"
    and r: "\<lparr>bw_instance = map_of (key_values (split_ws text0)) ''instance'', bw_zone = ?z text0, bw_reports = fst p, bw_kds_error = snd p,
      bw_ek = if ?ek = [] then None else Some (ek_verify P gcp_get ?ek), bw_ek_zone = ekz,
      bw_token = rbind (read_text jwt) (jwt_verify R gcp_get), bw_token_zone = tz\<rparr> = row"
    unfolding bind_run_def Let_def rbind_Inr_iff case_prod_beta sum.inject by (elim exE conjE) (rule that, assumption+)
  show thesis
    by (rule that [of sent jwt "snd p"])
      (use a z r in \<open>auto simp: open_file_def res_iff split: option.splits if_splits\<close>)
qed

lemma checked_row:
  assumes "row = bind_report_of P chain (take 1184 raw) f (Some c) x" "parse (take 1184 raw) = Inr f"
    and "br_sig_ok row = Some True" "br_chain_ok row = Some True" "br_hwid row = Some True" "br_binding row = Some True"
  shows "sig_ok P (take 1184 raw) c \<and> (\<exists>certs. chain = Some certs \<and> chain_ok P c certs)
    \<and> hwid_equals P c (hex (chip_id_of (take 1184 raw))) = Some True \<and> x = Some (report_data_of (take 1184 raw))"
proof -
  have "chip_id f = hex (chip_id_of (take 1184 raw))" using assms(2) by (auto simp: parse_Inr_iff)
  then show ?thesis using assms
    by (auto simp: bind_report_of_def report_data_of_def split: option.splits list.splits)
qed

lemma hwid_one_chip: "hwid_equals P c (hex a) = Some True \<Longrightarrow> hwid_equals P c (hex b) = Some True \<Longrightarrow> a = b"
  by (auto simp: hwid_equals_def)

text \<open>A small run for the witnesses: a chip of sevens, a certificate file of one byte, and a token file that is no token.\<close>

definition demo_bind_pki :: "nat gpki" where
  "demo_bind_pki = demo_gpki\<lparr>ec_issued := (\<lambda>_ _. True), exts := (\<lambda>_. [(HWID_OID, replicate 64 7)])\<rparr>"

definition demo_rep :: "bytes \<Rightarrow> bytes" where
  "demo_rep rd = put_slice (put_slice (zeros 1184) 0x1A0 0x1E0 (replicate 64 7)) 0x50 0x90 rd"

definition demo_bind :: bind_files where
  "demo_bind = \<lparr>bd_meta = Some ''zone=z'', bd_sentence = Some ''s'', bd_ek = Some [1], bd_jwt = Some (utf8 ''xz''), bd_r0 = None,
     bd_rek = Some (demo_rep (sha512 (sha512 (utf8 ''s'') @ sha256 [1]))), bd_rjwt = Some (demo_rep (sha512 (sha512 (utf8 ''s'') @ sha256 (utf8 ''xz''))))\<rparr>"

lemma demo_rep_fields:
  assumes "length rd = 64"
  shows "length (demo_rep rd) = 1184" "chip_id_of (demo_rep rd) = replicate 64 7" "report_data_of (demo_rep rd) = rd" "\<exists>f. parse (demo_rep rd) = Inr f"
proof -
  let ?a = "put_slice (zeros 1184) 0x1A0 0x1E0 (replicate 64 7)"
  have l: "length ?a = 1184" by (subst length_put_slice) simp_all
  then show len: "length (demo_rep rd) = 1184" unfolding demo_rep_def using assms by (subst length_put_slice) simp_all
  have "slice ?a 0x1A0 0x1E0 = replicate 64 7" by (rule slice_put_same) simp_all
  then show "chip_id_of (demo_rep rd) = replicate 64 7"
    unfolding chip_id_of_def demo_rep_def using assms l by (subst slice_put_after) simp_all
  show "report_data_of (demo_rep rd) = rd"
    unfolding report_data_of_def demo_rep_def using assms l by (intro slice_put_same) simp_all
  show "\<exists>f. parse (demo_rep rd) = Inr f" by (rule parse_long) (simp add: len)
qed

lemma demo_bind_runs:
  obtains row a b where "bind_main demo_bind_pki demo_rsa (\<lambda>_. Ok []) (\<lambda>_. Ok []) (\<lambda>_. True) (\<lambda>_. ''e'') [(True, demo_bind)] = Inr [row]"
    "(''r-ek'', a) \<in> set (bw_reports row)" "(''r-jwt'', b) \<in> set (bw_reports row)" "bw_zone row = Some ''z''"
    "\<forall>r \<in> {a, b}. br_sig_ok r = Some True \<and> br_chain_ok r = Some True \<and> br_hwid r = Some True \<and> br_binding r = Some True"
    "bw_token row = Inr (NotJwt ''xz'')"
proof -
  define N where "N = sha512 (utf8 ''s'')"
  let ?a = "sha512 (N @ sha256 [1])" and ?b = "sha512 (N @ sha256 (utf8 ''xz''))"
  obtain fa fb where f: "parse (demo_rep ?a) = Inr fa" "parse (demo_rep ?b) = Inr fb"
    using demo_rep_fields(4) length_sha512 by blast
  have c: "chip_id fa = hex (replicate 64 7)" "chip_id fb = hex (replicate 64 7)"
    using f demo_rep_fields(2) [of ?a] demo_rep_fields(2) [of ?b] by (auto simp: parse_Inr_iff)
  have l: "take 1184 (demo_rep ?a) = demo_rep ?a" "take 1184 (demo_rep ?b) = demo_rep ?b"
    by (simp_all add: demo_rep_fields)
  have d: "slice (demo_rep ?a) 0x50 0x90 = ?a" "slice (demo_rep ?b) 0x50 0x90 = ?b"
    using demo_rep_fields(3) [of ?a] demo_rep_fields(3) [of ?b] by (simp_all add: report_data_of_def)
  have P: "load_pem_chain demo_bind_pki x = Inr [4, 5]" "load_cert (pki_of demo_bind_pki) x = Inr 4 \<or> load_cert (pki_of demo_bind_pki) x = Inr 5"
    "sig_ok (pki_of demo_bind_pki) x y" "chain_ok (pki_of demo_bind_pki) y [4, 5]" "hwid_equals (pki_of demo_bind_pki) y (hex (replicate 64 7)) = Some True" for x y
    by (simp_all add: demo_bind_pki_def demo_gpki_def load_cert_def pki.truncate_def sig_ok_def chain_ok_def issued_def hwid_equals_def
        ext_value_def HWID_OID_def last_n_def)
  obtain z0 where z0: "load_cert (pki_of demo_bind_pki) [] = Inr z0" using P(2) [of "[]"] by blast
  let ?x = "expected N [1] (utf8 ''xz'')"
  let ?ra = "bind_report_of (pki_of demo_bind_pki) (Some [4, 5]) (demo_rep ?a) fa (Some z0) (?x ''r-ek'')"
    and ?rb = "bind_report_of (pki_of demo_bind_pki) (Some [4, 5]) (demo_rep ?b) fb (Some z0) (?x ''r-jwt'')"
  have rs: "bind_reports (pki_of demo_bind_pki) (\<lambda>_. Ok []) (Some [4, 5]) ?x (present demo_bind) (None, None) = Inr ([(''r-ek'', ?ra), (''r-jwt'', ?rb)], None)"
    unfolding present_def demo_bind_def N_def [symmetric] by (simp add: l f vcek_of_def z0)
  have ok: "br_sig_ok r = Some True \<and> br_chain_ok r = Some True \<and> br_hwid r = Some True \<and> br_binding r = Some True" if "r \<in> {?ra, ?rb}" for r
    using that P c d by (auto simp: bind_report_of_def expected_def)
  have tok: "rbind (read_text (utf8 ''xz'')) (jwt_verify demo_rsa (\<lambda>_. Ok [])) = Inr (NotJwt ''xz'')"
    by (simp add: read_text_def utf8_decode_utf8 jwt_verify_def strip_def is_space_def Let_def)
  have mt: "map_of (key_values (split_ws ''zone=z'')) ''zone'' = Some ''z''"
    by (simp add: key_values_def split_eq_def split_ws.simps is_space_def)
  have z: "find_zone (Some (utf8 ''z'')) v = Ok (\<exists>s \<in> set (texts v). ends_with (rstrip_slashes s) (utf8 ''z''))" for v
    by (rule find_zone_texts)
  obtain row where "bind_run demo_bind_pki demo_rsa (\<lambda>_. Ok []) (\<lambda>_. Ok []) (\<lambda>_. True) (\<lambda>_. ''e'') (Some [4, 5]) demo_bind = Inr row"
      "bw_reports row = [(''r-ek'', ?ra), (''r-jwt'', ?rb)]" "bw_zone row = Some ''z''" "bw_token row = Inr (NotJwt ''xz'')"
    using rs unfolding bind_run_def demo_bind_def
    by (simp add: open_file_def mt N_def [symmetric] z tok Let_def del: utf8_def)
  moreover have "drop_error (rbind ((\<lambda>_. Ok []) (chain_url ''vcek'' ''Milan'')) (load_pem_chain demo_bind_pki)) = Some [4, 5]"
    by (simp add: P drop_error_def)
  ultimately show thesis by (intro that [of row ?ra ?rb]) (use ok in \<open>simp_all add: bind_main_def Let_def\<close>)
qed

section \<open>Properties\<close>

text \<open>Every row of the reports that is good in all four columns was judged with one certificate of the KDS.\<close>

definition good_report :: "bind_report \<Rightarrow> bool" where
  "good_report r \<longleftrightarrow> br_sig_ok r = Some True \<and> br_chain_ok r = Some True \<and> br_hwid r = Some True \<and> br_binding r = Some True"

lemma good_reports_one_cert:
  assumes "bind_reports P get chain x files (None, None) = Inr (rows, err)"
  obtains c where "\<forall>name r. (name, r) \<in> set rows \<longrightarrow> good_report r \<longrightarrow> from_kds P get c \<and> (\<exists>raw. (name, raw) \<in> set files
    \<and> sig_ok P (take 1184 raw) c \<and> (\<exists>certs. chain = Some certs \<and> chain_ok P c certs)
    \<and> hwid_equals P c (hex (chip_id_of (take 1184 raw))) = Some True \<and> x name = Some (report_data_of (take 1184 raw)))"
proof -
  have "\<exists>c. \<forall>(name, r) \<in> set rows. br_sig_ok r \<noteq> None \<longrightarrow> from_kds P get c
      \<and> (\<exists>raw f. (name, raw) \<in> set files \<and> parse (take 1184 raw) = Inr f \<and> r = bind_report_of P chain (take 1184 raw) f (Some c) (x name))"
    by (rule bind_reports_one_cert [OF assms]) simp
  then obtain c where c: "\<forall>(name, r) \<in> set rows. br_sig_ok r \<noteq> None \<longrightarrow> from_kds P get c
      \<and> (\<exists>raw f. (name, raw) \<in> set files \<and> parse (take 1184 raw) = Inr f \<and> r = bind_report_of P chain (take 1184 raw) f (Some c) (x name))"
    by (rule exE)
  show thesis
  proof (rule that, intro allI impI)
    fix name r assume r: "(name, r) \<in> set rows" "good_report r"
    then have "br_sig_ok r \<noteq> None" by (simp add: good_report_def)
    with bspec [OF c r(1)] obtain raw f where "from_kds P get c" "(name, raw) \<in> set files" "parse (take 1184 raw) = Inr f"
        "r = bind_report_of P chain (take 1184 raw) f (Some c) (x name)" by auto
    then show "from_kds P get c \<and> (\<exists>raw. (name, raw) \<in> set files
      \<and> sig_ok P (take 1184 raw) c \<and> (\<exists>certs. chain = Some certs \<and> chain_ok P c certs)
      \<and> hwid_equals P c (hex (chip_id_of (take 1184 raw))) = Some True \<and> x name = Some (report_data_of (take 1184 raw)))"
      using checked_row [of r P chain "take 1184 raw" f c "x name"] r(2) by (auto simp: good_report_def)
  qed
qed

text \<open>C10: The statements are bound to one machine. If in a row of the summary the report on the endorsement key
  certificate and the report on the identity token have all their checks, then both reports were signed by
  one certificate that the KDS issued and that leads to a self-signed root of the KDS chain, both come from
  the chip with that certificate's identifier, the first carries the SHA-512 of the nonce and the digest of
  exactly the certificate file that was verified against its issuer, and the second that of exactly the
  token file that was verified.\<close>

theorem bound_statements_one_machine:
  assumes "bind_main P R get gcp_get printable repr ds = Inr rows" and "row \<in> set rows"
    and "(''r-ek'', a) \<in> set (bw_reports row)" "(''r-jwt'', b) \<in> set (bw_reports row)"
    and "\<And>r. r \<in> {a, b} \<Longrightarrow> br_sig_ok r = Some True \<and> br_chain_ok r = Some True \<and> br_hwid r = Some True \<and> br_binding r = Some True"
  shows "\<exists>d sent ek jwt rek rjwt vcek ask ark rest. (True, d) \<in> set ds \<and> bd_sentence d = Some sent \<and> bd_ek d = Some ek \<and> bd_jwt d = Some jwt
    \<and> bd_rek d = Some rek \<and> bd_rjwt d = Some rjwt \<and> from_kds (pki_of P) get vcek
    \<and> rbind (get (chain_url ''vcek'' ''Milan'')) (load_pem_chain P) = Inr (ask # ark # rest)
    \<and> issued (pki_of P) ask vcek \<and> issued (pki_of P) ark ask \<and> issued (pki_of P) ark ark
    \<and> sig_ok (pki_of P) (take 1184 rek) vcek \<and> sig_ok (pki_of P) (take 1184 rjwt) vcek
    \<and> chip_id_of (take 1184 rek) = chip_id_of (take 1184 rjwt)
    \<and> report_data_of (take 1184 rek) = sha512 (sha512 (utf8 sent) @ sha256 ek)
    \<and> report_data_of (take 1184 rjwt) = sha512 (sha512 (utf8 sent) @ sha256 jwt)
    \<and> bw_ek row = Some (ek_verify P gcp_get ek) \<and> bw_token row = rbind (read_text jwt) (jwt_verify R gcp_get)"
proof -
  define chain where "chain = drop_error (rbind (get (chain_url ''vcek'' ''Milan'')) (load_pem_chain P))"
  from assms(1,2) obtain d where d: "(True, d) \<in> set ds" and run: "bind_run P R get gcp_get printable repr chain d = Inr row"
    by (auto simp: bind_main_def Let_def chain_def dest!: rmap_Ok_member)
  from run obtain sent jwt err where s: "bd_sentence d = Some sent" "bd_jwt d = Some jwt"
    and rs: "bind_reports (pki_of P) get chain (expected (sha512 (utf8 sent)) (case bd_ek d of None \<Rightarrow> [] | Some b \<Rightarrow> b) jwt) (present d) (None, None) = Inr (bw_reports row, err)"
    and t: "bw_token row = rbind (read_text jwt) (jwt_verify R gcp_get)"
      "bw_ek row = (case bd_ek d of None \<Rightarrow> None | Some b \<Rightarrow> if b = [] then None else Some (ek_verify P gcp_get b))"
    by (rule bind_run_Inr)
  let ?x = "expected (sha512 (utf8 sent)) (case bd_ek d of None \<Rightarrow> [] | Some b \<Rightarrow> b) jwt"
  obtain c where c: "\<forall>name r. (name, r) \<in> set (bw_reports row) \<longrightarrow> good_report r \<longrightarrow> from_kds (pki_of P) get c \<and> (\<exists>raw. (name, raw) \<in> set (present d)
    \<and> sig_ok (pki_of P) (take 1184 raw) c \<and> (\<exists>certs. chain = Some certs \<and> chain_ok (pki_of P) c certs)
    \<and> hwid_equals (pki_of P) c (hex (chip_id_of (take 1184 raw))) = Some True \<and> ?x name = Some (report_data_of (take 1184 raw)))"
    by (rule good_reports_one_cert [OF rs])
  have g: "good_report a" "good_report b" using assms(5) by (simp_all add: good_report_def)
  obtain rek where ra: "(''r-ek'', rek) \<in> set (present d)" and ka: "sig_ok (pki_of P) (take 1184 rek) c" "\<exists>certs. chain = Some certs \<and> chain_ok (pki_of P) c certs"
      "hwid_equals (pki_of P) c (hex (chip_id_of (take 1184 rek))) = Some True" "?x ''r-ek'' = Some (report_data_of (take 1184 rek))"
    using c [rule_format, OF assms(3) g(1)] by blast
  obtain rjwt where rb: "(''r-jwt'', rjwt) \<in> set (present d)" and kb: "sig_ok (pki_of P) (take 1184 rjwt) c"
      "hwid_equals (pki_of P) c (hex (chip_id_of (take 1184 rjwt))) = Some True" "?x ''r-jwt'' = Some (report_data_of (take 1184 rjwt))"
    using c [rule_format, OF assms(4) g(2)] by blast
  from ka(4) obtain ek where ek: "bd_ek d = Some ek" "ek \<noteq> []" "report_data_of (take 1184 rek) = sha512 (sha512 (utf8 sent) @ sha256 ek)"
    by (cases "bd_ek d") (auto simp: expected_def split: if_splits)
  from ka(2) obtain ask ark rest where ch: "chain = Some (ask # ark # rest)" "issued (pki_of P) ask c" "issued (pki_of P) ark ask" "issued (pki_of P) ark ark"
    by (auto simp: chain_ok_iff)
  then have "rbind (get (chain_url ''vcek'' ''Milan'')) (load_pem_chain P) = Inr (ask # ark # rest)"
    by (auto simp: chain_def drop_error_def split: sum.splits)
  moreover have "from_kds (pki_of P) get c" using c [rule_format, OF assms(3) g(1)] by blast
  moreover have "bd_rek d = Some rek" "bd_rjwt d = Some rjwt" using present_files [OF ra] present_files [OF rb] by simp_all
  moreover have "chip_id_of (take 1184 rek) = chip_id_of (take 1184 rjwt)" by (rule hwid_one_chip [OF ka(3) kb(2)])
  moreover have "report_data_of (take 1184 rjwt) = sha512 (sha512 (utf8 sent) @ sha256 jwt)" using kb(3) by (simp add: expected_def)
  moreover have "bw_ek row = Some (ek_verify P gcp_get ek)" using t(2) ek by simp
  ultimately show ?thesis using d s ek(1,3) ch(2-4) ka(1) kb(1) t(1)
    by (intro exI [of _ d] exI [of _ sent] exI [of _ ek] exI [of _ jwt] exI [of _ rek] exI [of _ rjwt] exI [of _ c]
        exI [of _ ask] exI [of _ ark] exI [of _ rest] conjI)
qed

theorem bound_statements_one_machine_witness:
  "\<exists>row vcek. bind_main demo_bind_pki demo_rsa (\<lambda>_. Ok []) (\<lambda>_. Ok []) (\<lambda>_. True) (\<lambda>_. ''e'') [(True, demo_bind)] = Inr [row]
    \<and> from_kds (pki_of demo_bind_pki) (\<lambda>_. Ok []) vcek \<and> length (bw_reports row) \<ge> 2"
proof -
  obtain row a b where r: "bind_main demo_bind_pki demo_rsa (\<lambda>_. Ok []) (\<lambda>_. Ok []) (\<lambda>_. True) (\<lambda>_. ''e'') [(True, demo_bind)] = Inr [row]"
    "(''r-ek'', a) \<in> set (bw_reports row)" "(''r-jwt'', b) \<in> set (bw_reports row)"
    "\<forall>r \<in> {a, b}. br_sig_ok r = Some True \<and> br_chain_ok r = Some True \<and> br_hwid r = Some True \<and> br_binding r = Some True"
    by (rule demo_bind_runs)
  then have "length (bw_reports row) \<ge> 2" by (cases "bw_reports row"; cases "tl (bw_reports row)") auto
  moreover obtain vcek where "from_kds (pki_of demo_bind_pki) (\<lambda>_. Ok []) vcek"
    using bound_statements_one_machine [OF r(1) _ r(2,3) bspec [OF r(4)]] by auto
  ultimately show ?thesis using r(1) by blast
qed

text \<open>What naming the zone means. The two flags of a row say that some text among the values shown of the
  statement, at any depth of dictionaries and lists, ends in the zone once slashes at its end are dropped;
  they do not depend on whether the statement's signature was confirmed.\<close>

theorem zone_named_iff:
  assumes "bind_run P R get gcp_get printable repr chain d = Inr row" and "bw_zone row = Some z"
  shows "(bw_token_zone row \<longleftrightarrow> (\<exists>s \<in> set (texts (sh_result repr (sh_jwt repr) (bw_token row))). ends_with (rstrip_slashes s) (utf8 z)))
    \<and> (\<forall>r. bw_ek row = Some r \<longrightarrow> bw_ek_zone row = Some (\<exists>s \<in> set (texts (sh_result repr (sh_ek printable repr) r)). ends_with (rstrip_slashes s) (utf8 z)))"
proof -
  from assms(1) have t: "find_zone (map_option utf8 (bw_zone row)) (sh_result repr (sh_jwt repr) (bw_token row)) = Inr (bw_token_zone row)"
    by (rule bind_run_Inr)
  have e: "\<exists>b. bw_ek_zone row = Some b \<and> find_zone (map_option utf8 (bw_zone row)) (sh_result repr (sh_ek printable repr) r) = Inr b"
    if "bw_ek row = Some r" for r
    using bind_run_Inr [OF assms(1)] that by metis
  show ?thesis
  proof (intro conjI allI impI)
    show "bw_token_zone row \<longleftrightarrow> (\<exists>s \<in> set (texts (sh_result repr (sh_jwt repr) (bw_token row))). ends_with (rstrip_slashes s) (utf8 z))"
      using t by (simp add: assms(2) find_zone_texts)
    show "bw_ek_zone row = Some (\<exists>s \<in> set (texts (sh_result repr (sh_ek printable repr) r)). ends_with (rstrip_slashes s) (utf8 z))"
      if "bw_ek row = Some r" for r
      using e [OF that] by (auto simp: assms(2) find_zone_texts)
  qed
qed

theorem zone_named_iff_witness:
  "\<exists>row. bind_main demo_bind_pki demo_rsa (\<lambda>_. Ok []) (\<lambda>_. Ok []) (\<lambda>_. True) (\<lambda>_. ''e'') [(True, demo_bind)] = Inr [row]
    \<and> bw_zone row = Some ''z'' \<and> bw_token_zone row"
proof -
  obtain row where r: "bind_main demo_bind_pki demo_rsa (\<lambda>_. Ok []) (\<lambda>_. Ok []) (\<lambda>_. True) (\<lambda>_. ''e'') [(True, demo_bind)] = Inr [row]"
    "bw_zone row = Some ''z''" "bw_token row = Inr (NotJwt ''xz'')"
    by (rule demo_bind_runs)
  then obtain chain where "bind_run demo_bind_pki demo_rsa (\<lambda>_. Ok []) (\<lambda>_. Ok []) (\<lambda>_. True) (\<lambda>_. ''e'') chain demo_bind = Inr row"
    by (auto simp: bind_main_def Let_def res_iff)
  from zone_named_iff [OF this r(2)] have "bw_token_zone row"
    by (simp add: r(3) sh_result_def sh_jwt_def sh_text_def TOKEN_FILE_def rstrip_slashes_def ends_with_def last_n_def utf8_def utf8_char_def)
  with r show ?thesis by blast
qed

end
