(* ===== verification/Ledger.thy ===== *)
theory Ledger
  imports DualVerify
begin

text \<open>
  \<open>tools/fingerprint_ledger.py\<close>: the record a verifier keeps per attested machine. One row for each run
  directory that holds SEV-SNP reports, with the key that verifies them (the VCEK that the KDS issues for
  the CHIP_ID and TCB of the first report, kept in a dictionary over the runs, or a certificate of the
  hypervisor), and the rows grouped by CHIP_ID. The text of \<open>LEDGER.md\<close> is in \<^theory_text>\<open>LedgerText\<close>.
\<close>

section \<open>Run directories and rows\<close>

text \<open>\<open>ld_bins\<close>: the \<open>.bin\<close> files below the directory, sorted by path; \<open>ld_certs\<close>: \<open>cert-VLEK.bin\<close>,
  \<open>certs/vlek.pem\<close> and \<open>cert-*.bin\<close>, as far as they exist, in this order.\<close>

record ledger_dir =
  ld_cloud :: string
  ld_run :: string
  ld_stamp :: string
  ld_bins :: "bytes list"
  ld_certs :: "bytes list"

record ledger_row =
  lr_cloud :: string
  lr_run :: string
  lr_captured :: string
  lr_signing_key :: signing_key
  lr_chip_id :: string
  lr_tcb :: string
  lr_report_id :: string
  lr_measurement :: string
  lr_reports :: nat
  lr_chip_ids :: nat
  lr_report_ids :: nat
  lr_kds_error :: "pyerr option"
  lr_key_source :: "string option"
  lr_spki :: "string option"
  lr_sig_ok :: "bool option"
  lr_csp :: "bytes option"

definition is_report :: "bytes \<Rightarrow> bool" where
  "is_report b \<longleftrightarrow> length b = 1184 \<and> from_little (slice b 0 4) \<in> {2, 3, 4, 5}"

text \<open>A stamp such as \<open>20260911T175745Z\<close>.\<close>

definition captured_at :: "string \<Rightarrow> string" where
  "captured_at st = slice st 0 4 @ ''-'' @ slice st 4 6 @ ''-'' @ slice st 6 8 @ '' '' @ slice st 9 11 @ '':'' @ slice st 11 13 @ ''Z''"

definition cloud_name :: "string \<Rightarrow> string" where
  "cloud_name c = (if c = ''baremetal'' then ''baremetal'' else split_on (CHR ''-'') c ! 0)"

text \<open>\<open>f"{bl}.{tee}.{snp}.{uc}"\<close>.\<close>

definition tcb_text :: "tcb \<Rightarrow> string" where
  "tcb_text t = (case t of (bl, tee, snp, uc) \<Rightarrow> dec bl @ ''.'' @ dec tee @ ''.'' @ dec snp @ ''.'' @ dec uc)"

definition spki_sha256 :: "'c pki \<Rightarrow> 'c \<Rightarrow> string" where
  "spki_sha256 P c = hex (sha256 (spki_der P c))"

text \<open>The bytes that are decoded for printing.\<close>

definition csp_id :: "'c pki \<Rightarrow> 'c \<Rightarrow> bytes option" where
  "csp_id P c = map_option (drop 2) (ext_value P c CSP_OID)"

section \<open>The key of a run\<close>

type_synonym 'c kds_table = "((string \<times> tcb) \<times> 'c option) list"

definition fetch_milan :: "'c pki \<Rightarrow> fetch \<Rightarrow> string \<times> tcb \<Rightarrow> 'c res" where
  "fetch_milan P get k = rbind (get (vcek_url ''Milan'' (fst k) (snd k))) (load_cert P)"

text \<open>\<open>b.rstrip(b"\0")\<close>.\<close>

definition rstrip_nul :: "bytes \<Rightarrow> bytes" where
  "rstrip_nul b = rev (dropWhile (\<lambda>x. x = 0) (rev b))"

text \<open>The first certificate of the hypervisor that loads and verifies the report.\<close>

fun supplied_key :: "'c pki \<Rightarrow> bytes \<Rightarrow> bytes list \<Rightarrow> 'c option" where
  "supplied_key P rep [] = None"
| "supplied_key P rep (b # bs) = (case load_cert P (rstrip_nul b) of
     Inr c \<Rightarrow> if sig_ok P rep c then Some c else supplied_key P rep bs
   | Inl _ \<Rightarrow> supplied_key P rep bs)"

text \<open>The certificate, the exception of a failed request, the source, and the table after it.\<close>

definition ledger_key :: "'c pki \<Rightarrow> fetch \<Rightarrow> bytes \<Rightarrow> bytes list \<Rightarrow> dual_report \<Rightarrow> 'c kds_table
    \<Rightarrow> 'c option \<times> pyerr option \<times> string option \<times> 'c kds_table" where
  "ledger_key P get rep certs f m =
     (if signing_key f = VCEK \<and> \<not> chip_id_zero f then
        (case cached map_of AList.update (\<lambda>k. drop_error (fetch_milan P get k)) m (chip_id f, tcb f) of (v, m', new) \<Rightarrow>
         (v, if new then (case fetch_milan P get (chip_id f, tcb f) of Inl e \<Rightarrow> Some e | Inr _ \<Rightarrow> None) else None,
          Some ''AMD KDS by CHIP_ID and TCB'', m'))
      else (case supplied_key P rep certs of
         Some c \<Rightarrow> (Some c, None, Some ''hypervisor certificate table'', m)
       | None \<Rightarrow> (None, None, None, m)))"

section \<open>One run, all runs\<close>

definition ledger_row_of :: "'c pki \<Rightarrow> fetch \<Rightarrow> ledger_dir \<Rightarrow> bytes list \<Rightarrow> dual_report list \<Rightarrow> 'c kds_table \<Rightarrow> ledger_row \<times> 'c kds_table" where
  "ledger_row_of P get d reps fs m = (let f = hd fs in
     case ledger_key P get (hd reps) (ld_certs d) f m of (cert, err, src, m') \<Rightarrow>
     (\<lparr>lr_cloud = cloud_name (ld_cloud d), lr_run = ld_run d, lr_captured = captured_at (ld_stamp d), lr_signing_key = signing_key f,
       lr_chip_id = chip_id f, lr_tcb = tcb_text (tcb f), lr_report_id = report_id f, lr_measurement = measurement f,
       lr_reports = length reps, lr_chip_ids = length (remdups (map chip_id fs)), lr_report_ids = length (remdups (map report_id fs)),
       lr_kds_error = err, lr_key_source = src, lr_spki = map_option (spki_sha256 P) cert,
       lr_sig_ok = map_option (\<lambda>c. list_all (\<lambda>b. sig_ok P b c) reps) cert,
       lr_csp = (case cert of None \<Rightarrow> None | Some c \<Rightarrow> csp_id P c)\<rparr>, m'))"

text \<open>A directory without a report gives no row.\<close>

definition ledger_run :: "'c pki \<Rightarrow> fetch \<Rightarrow> ledger_dir \<Rightarrow> 'c kds_table \<Rightarrow> (ledger_row option \<times> 'c kds_table) res" where
  "ledger_run P get d m = (let reps = filter is_report (ld_bins d) in
     if reps = [] then Ok (None, m)
     else rbind (rmap parse reps) (\<lambda>fs. case ledger_row_of P get d reps fs m of (row, m') \<Rightarrow> Ok (Some row, m')))"

fun ledger_rows :: "'c pki \<Rightarrow> fetch \<Rightarrow> ledger_dir list \<Rightarrow> 'c kds_table \<Rightarrow> ledger_row list res" where
  "ledger_rows P get [] m = Ok []"
| "ledger_rows P get (d # ds) m = rbind (ledger_run P get d m) (\<lambda>(r, m').
     rbind (ledger_rows P get ds m') (\<lambda>rows. Ok (case r of None \<Rightarrow> rows | Some row \<Rightarrow> row # rows)))"

text \<open>\<open>r["signing_key"] == "VCEK" and set(r["chip_id"]) != {"0"}\<close>: a masked CHIP_ID names no machine.\<close>

definition names_machine :: "ledger_row \<Rightarrow> bool" where
  "names_machine r \<longleftrightarrow> lr_signing_key r = VCEK \<and> set (lr_chip_id r) \<noteq> {CHR ''0''}"

definition by_chip :: "ledger_row list \<Rightarrow> (string \<times> ledger_row list) list" where
  "by_chip rows = group_all lr_chip_id (\<lambda>r. r) (filter names_machine rows)"

text \<open>\<open>main\<close>: the rows of the four clouds in their order, and the machines.\<close>

definition ledger_main :: "'c pki \<Rightarrow> fetch \<Rightarrow> ledger_dir list \<Rightarrow> (ledger_row list \<times> (string \<times> ledger_row list) list) res" where
  "ledger_main P get ds = rbind (ledger_rows P get ds []) (\<lambda>rows. Ok (rows, by_chip rows))"

section \<open>Lemmas\<close>

abbreviation table_good :: "'c pki \<Rightarrow> fetch \<Rightarrow> 'c kds_table \<Rightarrow> bool" where
  "table_good P get m \<equiv> table_ok map_of (\<lambda>k. drop_error (fetch_milan P get k)) m"

text \<open>A run without the dictionary: what its row would be when every VCEK is asked for again.\<close>

definition direct_key :: "'c pki \<Rightarrow> fetch \<Rightarrow> bytes \<Rightarrow> bytes list \<Rightarrow> dual_report \<Rightarrow> 'c option" where
  "direct_key P get rep certs f = (if signing_key f = VCEK \<and> \<not> chip_id_zero f
     then drop_error (fetch_milan P get (chip_id f, tcb f)) else supplied_key P rep certs)"

lemma ledger_key_direct:
  assumes "table_good P get m" "ledger_key P get rep certs f m = (cert, err, src, m')"
  shows "cert = direct_key P get rep certs f" "table_good P get m'"
proof -
  let ?c = "cached map_of AList.update (\<lambda>k. drop_error (fetch_milan P get k)) m (chip_id f, tcb f)"
  have "fst ?c = drop_error (fetch_milan P get (chip_id f, tcb f))" by (rule dict.cached_value [OF assms(1)])
  moreover have "table_good P get (fst (snd ?c))" by (rule dict.cached_ok [OF assms(1)])
  ultimately show "cert = direct_key P get rep certs f" "table_good P get m'"
    using assms by (auto simp: ledger_key_def direct_key_def split: prod.splits option.splits if_splits)
qed

lemma ledger_rows_member:
  assumes "ledger_rows P get ds m = Inr rows" "table_good P get m" "row \<in> set rows"
  shows "\<exists>d \<in> set ds. \<exists>reps fs. reps = filter is_report (ld_bins d) \<and> reps \<noteq> [] \<and> rmap parse reps = Inr fs
    \<and> lr_signing_key row = signing_key (hd fs) \<and> lr_chip_id row = chip_id (hd fs)
    \<and> lr_spki row = map_option (spki_sha256 P) (direct_key P get (hd reps) (ld_certs d) (hd fs))
    \<and> lr_sig_ok row = map_option (\<lambda>c. list_all (\<lambda>b. sig_ok P b c) reps) (direct_key P get (hd reps) (ld_certs d) (hd fs))"
  using assms
proof (induction ds arbitrary: m rows)
  case (Cons d ds)
  from Cons.prems(1) obtain r m' rows' where r: "ledger_run P get d m = Inr (r, m')" and rs: "ledger_rows P get ds m' = Inr rows'"
    and rows: "rows = (case r of None \<Rightarrow> rows' | Some row \<Rightarrow> row # rows')"
    by (auto simp: res_iff)
  let ?reps = "filter is_report (ld_bins d)"
  show ?case
  proof (cases "?reps = []")
    case True
    with r rows have "m' = m" "rows = rows'" by (auto simp: ledger_run_def)
    with Cons.IH [OF rs] Cons.prems(2,3) show ?thesis by auto
  next
    case False
    with r obtain fs row0 where fs: "rmap parse ?reps = Inr fs" and row0: "ledger_row_of P get d ?reps fs m = (row0, m')" "r = Some row0"
      by (cases "ledger_row_of P get d ?reps (projr (rmap parse ?reps)) m") (auto simp: ledger_run_def Let_def res_iff)
    obtain cert err src m1 where k: "ledger_key P get (hd ?reps) (ld_certs d) (hd fs) m = (cert, err, src, m1)"
      by (metis prod_cases4)
    with row0(1) have v: "m1 = m'" "lr_signing_key row0 = signing_key (hd fs)" "lr_chip_id row0 = chip_id (hd fs)" "lr_spki row0 = map_option (spki_sha256 P) cert"
        "lr_sig_ok row0 = map_option (\<lambda>c. list_all (\<lambda>b. sig_ok P b c) ?reps) cert"
      by (auto simp: ledger_row_of_def Let_def)
    note dk = ledger_key_direct [OF Cons.prems(2) k]
    show ?thesis
    proof (cases "row \<in> set rows'")
      case True
      then show ?thesis using Cons.IH [OF rs] dk(2) v(1) by auto
    next
      case False
      then have "row = row0" using Cons.prems(3) rows row0(2) by auto
      then show ?thesis using fs v(2-5) dk(1) \<open>?reps \<noteq> []\<close> by (intro bexI [of _ d]) auto
    qed
  qed
qed simp

lemma by_chip_row: "(chip, rs) \<in> set (by_chip rows) \<Longrightarrow> rs = filter (\<lambda>r. names_machine r \<and> lr_chip_id r = chip) rows"
proof -
  assume a: "(chip, rs) \<in> set (by_chip rows)"
  have "distinct (map fst (by_chip rows))" unfolding by_chip_def by (rule group_all_distinct)
  then have "map_of (by_chip rows) chip = Some rs" using a by (rule map_of_is_SomeI)
  then have "rs = group_get (by_chip rows) chip" by (simp add: group_get_def)
  then show ?thesis by (simp add: by_chip_def group_all_get conj_commute)
qed

text \<open>A run with one report of a chip of sevens.\<close>

definition demo_ledger_report :: bytes where
  "demo_ledger_report = put_slice (put_slice (zeros 1184) 0 4 [2, 0, 0, 0]) 0x1A0 0x1E0 (replicate 64 7)"

definition ledger_pki :: "nat pki" where
  "ledger_pki = demo_pki\<lparr>ecdsa384_ok := (\<lambda>_ _ _. True)\<rparr>"

definition demo_ledger :: ledger_dir where
  "demo_ledger = \<lparr>ld_cloud = ''gcp-cvm'', ld_run = ''r'', ld_stamp = ''20260911T175745Z'', ld_bins = [[1], demo_ledger_report], ld_certs = []\<rparr>"

lemma demo_ledger_report: "is_report demo_ledger_report" "chip_id_of demo_ledger_report = replicate 64 7"
    "slice demo_ledger_report 0x48 0x4C = [0, 0, 0, 0]"
proof -
  let ?a = "put_slice (zeros 1184) 0 4 [2, 0, 0, 0]"
  have l: "length ?a = 1184" by (subst length_put_slice) simp_all
  then have len: "length demo_ledger_report = 1184" unfolding demo_ledger_report_def by (subst length_put_slice) simp_all
  have "slice demo_ledger_report 0 4 = slice ?a 0 4" unfolding demo_ledger_report_def using l by (intro slice_put_before) simp_all
  also have "\<dots> = [2, 0, 0, 0]" by (rule slice_put_same) simp_all
  finally show "is_report demo_ledger_report" using len by (simp add: is_report_def)
  show "chip_id_of demo_ledger_report = replicate 64 7"
    unfolding chip_id_of_def demo_ledger_report_def using l by (intro slice_put_same) simp_all
  have "slice demo_ledger_report 0x48 0x4C = slice ?a 0x48 0x4C"
    unfolding demo_ledger_report_def using l by (intro slice_put_before) simp_all
  also have "\<dots> = slice (zeros 1184) 0x48 0x4C" by (rule slice_put_after) simp_all
  finally show "slice demo_ledger_report 0x48 0x4C = [0, 0, 0, 0]" by (simp add: slice_def zeros_def numeral_eq_Suc)
qed

lemma demo_ledger_runs:
  obtains row where "ledger_main ledger_pki (\<lambda>_. Ok []) [demo_ledger] = Inr ([row], [(hex (replicate 64 7), [row])])" "lr_sig_ok row = Some True"
proof -
  let ?r = demo_ledger_report
  obtain f where f: "parse ?r = Inr f" using parse_long [of ?r] demo_ledger_report(1) by (auto simp: is_report_def)
  have c: "chip_id f = hex (replicate 64 7)" "chip_id_zero f = False" "signing_key f = VCEK"
    using f demo_ledger_report(2,3) by (auto simp: parse_Inr_iff signing_key_of_def zeros_def simp del: replicate.simps)
  have b: "filter is_report (ld_bins demo_ledger) = [?r]" using demo_ledger_report(1) by (simp add: demo_ledger_def is_report_def)
  have fm: "fetch_milan ledger_pki (\<lambda>_. Ok []) k = Inr 2" and sg: "sig_ok ledger_pki ?r x" for k x
    by (simp_all add: fetch_milan_def ledger_pki_def demo_pki_def load_cert_def sig_ok_def)
  let ?row = "fst (ledger_row_of ledger_pki (\<lambda>_. Ok []) demo_ledger [?r] [f] [])"
  have row: "ledger_run ledger_pki (\<lambda>_. Ok []) demo_ledger [] = Inr (Some ?row, [((hex (replicate 64 7), tcb f), Some 2)])"
      "lr_chip_id ?row = hex (replicate 64 7)" "lr_signing_key ?row = VCEK" "lr_sig_ok ?row = Some True"
    unfolding ledger_run_def b
    by (simp_all add: f ledger_row_of_def ledger_key_def cached_def drop_error_def Let_def fm sg c del: replicate.simps)
  have "replicate 64 (7 :: byte) \<noteq> zeros (length (replicate 64 (7 :: byte)))" by (simp add: zeros_def)
  then have "set (hex (replicate 64 7)) \<noteq> {CHR ''0''}" using hex_all_zero_iff [of "replicate 64 7"] by (simp add: zeros_def)
  then have "names_machine ?row" by (simp add: names_machine_def row(2,3) del: replicate.simps)
  then have "by_chip [?row] = [(hex (replicate 64 7), [?row])]" by (simp add: by_chip_def group_all_def row(2) del: replicate.simps)
  then show thesis using row(1,4) by (intro that [of ?row]) (simp_all add: ledger_main_def)
qed

section \<open>Properties\<close>

text \<open>What the table of machines lists. No machine is listed twice, a row is listed under the CHIP_ID it
  shows and nowhere else, in the order of the runs, and the machines are exactly the CHIP_IDs of the rows
  whose reports are signed with a VCEK and whose CHIP_ID is not masked.\<close>

theorem machines_listed:
  assumes "ledger_main P get ds = Inr (rows, chips)"
  shows "distinct (map fst chips) \<and> fst ` set chips = lr_chip_id ` {r \<in> set rows. names_machine r}
    \<and> (\<forall>(chip, rs) \<in> set chips. rs = filter (\<lambda>r. names_machine r \<and> lr_chip_id r = chip) rows)"
proof -
  have c: "chips = by_chip rows" using assms by (auto simp: ledger_main_def res_iff)
  have "distinct (map fst chips)" unfolding c by_chip_def by (rule group_all_distinct)
  moreover have "fst ` set chips = lr_chip_id ` {r \<in> set rows. names_machine r}"
    unfolding c by_chip_def group_all_keys by auto
  ultimately show ?thesis using by_chip_row c by auto
qed

theorem machines_listed_witness:
  "\<exists>row. ledger_main ledger_pki (\<lambda>_. Ok []) [demo_ledger] = Inr ([row], [(hex (replicate 64 7), [row])]) \<and> names_machine row"
proof -
  obtain row where r: "ledger_main ledger_pki (\<lambda>_. Ok []) [demo_ledger] = Inr ([row], [(hex (replicate 64 7), [row])])"
    by (rule demo_ledger_runs)
  have "names_machine row" using machines_listed [OF r] by (auto split: if_splits)
  with r show ?thesis by blast
qed

text \<open>C19: A machine seen again is the same machine. If a run is listed under a CHIP_ID with its signatures
  checked, then all its reports, however many runs asked for certificates before it, are signed with the
  certificate that the KDS issues for this CHIP_ID and the TCB of the first report, which carries the CHIP_ID
  and is not masked, and the fingerprint of the row is that certificate's.\<close>

theorem machine_seen_again:
  assumes "ledger_main P get ds = Inr (rows, chips)" and "(chip, rs) \<in> set chips" "row \<in> set rs" and "lr_sig_ok row = Some True"
  shows "\<exists>d \<in> set ds. \<exists>rep reps f c. filter is_report (ld_bins d) = rep # reps \<and> parse rep = Inr f \<and> chip = hex (chip_id_of rep)
    \<and> chip_id_of rep \<noteq> zeros 64 \<and> fetch_milan P get (chip, tcb f) = Inr c \<and> (\<forall>b \<in> set (rep # reps). sig_ok P b c)
    \<and> lr_spki row = Some (spki_sha256 P c)"
proof -
  from assms(1) have r: "ledger_rows P get ds [] = Inr rows" and c: "chips = by_chip rows" by (auto simp: ledger_main_def res_iff)
  from assms(2,3) have n: "row \<in> set rows" "names_machine row" "lr_chip_id row = chip" using by_chip_row [of chip rs rows] by (auto simp: c)
  have "table_good P get []" by (simp add: table_ok_def)
  from ledger_rows_member [OF r this n(1)] obtain d where d: "d \<in> set ds" and "\<exists>reps fs. reps = filter is_report (ld_bins d) \<and> reps \<noteq> [] \<and> rmap parse reps = Inr fs
    \<and> lr_signing_key row = signing_key (hd fs) \<and> lr_chip_id row = chip_id (hd fs)
    \<and> lr_spki row = map_option (spki_sha256 P) (direct_key P get (hd reps) (ld_certs d) (hd fs))
    \<and> lr_sig_ok row = map_option (\<lambda>c. list_all (\<lambda>b. sig_ok P b c) reps) (direct_key P get (hd reps) (ld_certs d) (hd fs))" by (rule bexE)
  then obtain reps0 fs where reps0: "reps0 = filter is_report (ld_bins d)" "reps0 \<noteq> []" and fs: "rmap parse reps0 = Inr fs"
    and v: "lr_signing_key row = signing_key (hd fs)" "lr_chip_id row = chip_id (hd fs)"
      "lr_spki row = map_option (spki_sha256 P) (direct_key P get (hd reps0) (ld_certs d) (hd fs))"
      "lr_sig_ok row = map_option (\<lambda>c. list_all (\<lambda>b. sig_ok P b c) reps0) (direct_key P get (hd reps0) (ld_certs d) (hd fs))"
    by blast
  obtain rep reps f fs' where l: "reps0 = rep # reps" "fs = f # fs'" "parse rep = Inr f"
    using reps0(2) fs by (cases reps0) (auto simp: res_iff)
  have "rep \<in> set (filter is_report (ld_bins d))" unfolding reps0(1) [symmetric] l(1) by simp
  then have "length rep = 1184" by (simp add: is_report_def)
  then have z: "chip_id_zero f \<longleftrightarrow> set (chip_id f) = {CHR ''0''}" using masked_chip_tests_agree [OF l(3)] by simp
  have f: "chip_id f = hex (chip_id_of rep)" "chip_id_zero f = (chip_id_of rep = zeros 64)"
    using l(3) unfolding parse_Inr_iff by (elim conjE exE, hypsubst, simp only: dual_report.select_convs)+
  have k: "signing_key f = VCEK" "\<not> chip_id_zero f" using n(2) v(1,2) z by (simp_all add: names_machine_def l(2))
  then have dk: "direct_key P get (hd reps0) (ld_certs d) (hd fs) = drop_error (fetch_milan P get (chip, tcb f))"
    using n(3) v(2) by (simp add: direct_key_def l(2))
  with v(4) assms(4) obtain c where "fetch_milan P get (chip, tcb f) = Inr c" "list_all (\<lambda>b. sig_ok P b c) reps0"
    by (cases "fetch_milan P get (chip, tcb f)") (auto simp: drop_error_def)
  moreover from this have "lr_spki row = Some (spki_sha256 P c)" using v(3) dk by (simp add: drop_error_def)
  moreover have "chip = hex (chip_id_of rep)" using n(3) v(2) f(1) l(2) by simp
  ultimately show ?thesis using l(1,3) k(2) f(2) reps0(1) unfolding list_all_iff
    by (intro bexI [OF _ d] exI [of _ rep] exI [of _ reps] exI [of _ f] exI [of _ c] conjI) simp_all
qed

theorem machine_seen_again_witness:
  "\<exists>row rep c. ledger_main ledger_pki (\<lambda>_. Ok []) [demo_ledger] = Inr ([row], [(hex (replicate 64 7), [row])])
    \<and> chip_id_of rep = replicate 64 7 \<and> sig_ok ledger_pki rep c \<and> lr_spki row = Some (spki_sha256 ledger_pki c)"
proof -
  obtain row where r: "ledger_main ledger_pki (\<lambda>_. Ok []) [demo_ledger] = Inr ([row], [(hex (replicate 64 7), [row])])" "lr_sig_ok row = Some True"
    by (rule demo_ledger_runs)
  obtain rep c where "hex (replicate 64 7) = hex (chip_id_of rep)" "sig_ok ledger_pki rep c" "lr_spki row = Some (spki_sha256 ledger_pki c)"
    using machine_seen_again [OF r(1) _ _ r(2), of "hex (replicate 64 7)" "[row]"] by auto
  with r(1) show ?thesis by (metis hex_eq_iff)
qed

end
