(* ===== verification/LedgerText.thy ===== *)
theory LedgerText
  imports Ledger
begin

text \<open>
  The text of \<open>LEDGER.md\<close> that \<open>tools/fingerprint_ledger.py\<close> writes from the rows and the machines, as the UTF-8
  bytes of the file: one line per run, then the machines with their runs. The CSP identifier is kept as the bytes
  that the script decodes and writes again.
\<close>

section \<open>Lines\<close>

text \<open>The character \<open>U+2026\<close> in UTF-8.\<close>

definition ELLIPSIS :: bytes where "ELLIPSIS = [0xE2, 0x80, 0xA6]"

fun key_text :: "signing_key \<Rightarrow> string" where
  "key_text VCEK = ''VCEK''"
| "key_text VLEK = ''VLEK''"
| "key_text NoneKey = ''none''"
| "key_text (KeyNumber k) = dec k"

definition shortened :: "string \<Rightarrow> bytes" where
  "shortened s = utf8 (take 16 s) @ ELLIPSIS"

definition bar :: bytes where "bar = utf8 '' | ''"

definition row_line :: "ledger_row \<Rightarrow> bytes" where
  "row_line r = utf8 ''| '' @ utf8 (lr_cloud r) @ bar @ utf8 (lr_run r) @ bar @ utf8 (lr_captured r) @ bar @ utf8 (key_text (lr_signing_key r))
     @ (case lr_csp r of None \<Rightarrow> [] | Some b \<Rightarrow> if b = [] then [] else utf8 '' ('' @ b @ utf8 '')'')
     @ bar @ (if set (lr_chip_id r) = {CHR ''0''} then utf8 ''all zeros'' else shortened (lr_chip_id r))
     @ bar @ shortened (case lr_spki r of None \<Rightarrow> ''?'' | Some s \<Rightarrow> s)
     @ bar @ utf8 (lr_tcb r) @ bar @ shortened (lr_report_id r) @ bar @ utf8 (dec (int (lr_reports r)))
     @ bar @ utf8 (case lr_sig_ok r of None \<Rightarrow> ''None'' | Some b \<Rightarrow> if b then ''OK'' else ''False'') @ utf8 '' |''"

definition HEAD_LINES :: "bytes list" where
  "HEAD_LINES = map utf8
     [''# Ledger: the per-machine record a verifier keeps (protocol 1)'', [],
      ''One row per run that produced SEV-SNP reports. `key` is the SPKI SHA-256 of the certificate that verifies every report of the run: the VCEK that AMD KDS issues for the run'' @ [CHR 0x27] @ ''s CHIP_ID and TCB (fetched when this table was built), or the VLEK the hypervisor supplied. Full values are in `ledger.json`; the reports themselves are in the run directories.'', [],
      ''| cloud | run | captured (UTC) | key | CHIP_ID | key SPKI SHA-256 | TCB bl.tee.snp.ucode | REPORT_ID | reports | signatures |'', ''|---|---|---|---|---|---|---|---|---|---|'']"

definition heading :: "(string \<times> ledger_row list) list \<Rightarrow> bytes" where
  "heading chips = utf8 (''## Machines seen more than once ('' @ dec (int (length chips)) @ '' distinct CHIP_ID values across ''
     @ dec (int (sum_list (map (length \<circ> snd) chips))) @ '' VCEK-signed runs that expose one; runs with a masked, all-zero CHIP_ID are excluded)'')"

definition run_text :: "ledger_row \<Rightarrow> string" where
  "run_text r = lr_run r @ '' ('' @ lr_captured r @ '')''"

fun semicolons :: "string list \<Rightarrow> string" where
  "semicolons [] = []"
| "semicolons [w] = w"
| "semicolons (w # v # ws) = w @ ''; '' @ semicolons (v # ws)"

definition chip_line :: "string \<times> ledger_row list \<Rightarrow> bytes" where
  "chip_line c = (case c of (cid, rs) \<Rightarrow> utf8 ''| '' @ shortened cid @ bar @ utf8 (semicolons (map run_text rs)) @ utf8 '' |'')"

definition READING :: bytes where
  "READING = utf8 (''Reading: a CHIP_ID that comes back in a later run is the same machine seen again (the KDS certificate for it verifies both runs'' @ [CHR 0x27] @ '' reports); a run whose reports show two CHIP_ID values would be a VM that moved between reports (none so far). REPORT_ID is per guest and changes at every launch, CHIP_ID does not.'')"

definition ledger_lines :: "ledger_row list \<Rightarrow> (string \<times> ledger_row list) list \<Rightarrow> bytes list" where
  "ledger_lines rows chips = HEAD_LINES @ map row_line rows
     @ [[], heading chips, [], utf8 ''| CHIP_ID | runs (captured) |'', utf8 ''|---|---|''] @ map chip_line chips @ [[], READING]"

definition ledger_md :: "ledger_row list \<Rightarrow> (string \<times> ledger_row list) list \<Rightarrow> bytes" where
  "ledger_md rows chips = concat (map (\<lambda>l. l @ [10]) (ledger_lines rows chips))"

section \<open>What the second table says\<close>

lemma by_chip_keys: "fst ` set (by_chip rows) = lr_chip_id ` {r \<in> set rows. names_machine r}"
  by (auto simp: by_chip_def group_all_keys)

lemma listed_runs:
  assumes "row \<in> set rows" "names_machine row"
  shows "(lr_chip_id row, filter (\<lambda>r. names_machine r \<and> lr_chip_id r = lr_chip_id row) rows) \<in> set (by_chip rows)"
proof -
  have "lr_chip_id row \<in> fst ` set (by_chip rows)" using assms by (auto simp: by_chip_keys)
  then obtain rs where "(lr_chip_id row, rs) \<in> set (by_chip rows)" by auto
  with by_chip_row show ?thesis by blast
qed

text \<open>The second number of the heading counts every row that names a machine.\<close>

lemma group_add_total: "sum_list (map (length \<circ> snd) (group_add k v d)) = Suc (sum_list (map (length \<circ> snd) d))"
  by (induction k v d rule: group_add.induct) auto

lemma group_all_total: "sum_list (map (length \<circ> snd) (group_all f g xs)) = length xs"
proof (induction xs rule: rev_induct)
  case (snoc x xs)
  then show ?case using group_add_total [of "f x" "g x" "group_all f g xs"] by (simp add: group_all_def o_def)
qed (simp add: group_all_def)

text \<open>The heading promises machines seen more than once, and a machine seen in a single run is listed under it all the
  same; the numbers in the heading count it as well.\<close>

theorem listed_though_seen_once:
  assumes "ledger_main P get ds = Ok (rows, chips)" "filter (\<lambda>r. names_machine r \<and> lr_chip_id r = chip) rows = [row]"
  shows "\<exists>before rest. ledger_lines rows chips = before @ heading chips # rest \<and> chip_line (chip, [row]) \<in> set rest
    \<and> sum_list (map (length \<circ> snd) chips) = length (filter names_machine rows)"
proof -
  have c: "chips = by_chip rows" using assms(1) by (auto simp: ledger_main_def res_iff)
  have "row \<in> set (filter (\<lambda>r. names_machine r \<and> lr_chip_id r = chip) rows)" using assms(2) by simp
  then have r: "row \<in> set rows" "names_machine row" "lr_chip_id row = chip" by auto
  have "(chip, [row]) \<in> set chips" using listed_runs [OF r(1,2)] by (simp add: c r(3) assms(2))
  then have "chip_line (chip, [row]) \<in> set (map chip_line chips)" by auto
  moreover have "ledger_lines rows chips = (HEAD_LINES @ map row_line rows @ [[]]) @ heading chips #
      ([[], utf8 ''| CHIP_ID | runs (captured) |'', utf8 ''|---|---|''] @ map chip_line chips @ [[], READING])"
    by (simp add: ledger_lines_def)
  moreover have "sum_list (map (length \<circ> snd) chips) = length (filter names_machine rows)"
    unfolding c by_chip_def by (rule group_all_total)
  ultimately show ?thesis by (metis UnI1 UnI2 set_append)
qed

theorem listed_though_seen_once_witness:
  "\<exists>row. ledger_main ledger_pki (\<lambda>_. Ok []) [demo_ledger] = Ok ([row], [(hex (replicate 64 7), [row])])
    \<and> (\<exists>before rest. ledger_lines [row] [(hex (replicate 64 7), [row])] = before @ heading [(hex (replicate 64 7), [row])] # rest
        \<and> chip_line (hex (replicate 64 7), [row]) \<in> set rest)"
proof -
  obtain row where r: "ledger_main ledger_pki (\<lambda>_. Ok []) [demo_ledger] = Ok ([row], [(hex (replicate 64 7), [row])])"
    by (rule demo_ledger_runs)
  then have "by_chip [row] = [(hex (replicate 64 7), [row])]" by (auto simp: ledger_main_def res_iff)
  then have "(hex (replicate 64 7), [row]) \<in> set (by_chip [row])" by (simp del: replicate.simps)
  from by_chip_row [OF this] have f: "filter (\<lambda>x. names_machine x \<and> lr_chip_id x = hex (replicate 64 7)) [row] = [row]" by (rule sym)
  show ?thesis by (rule exI [of _ row], rule conjI [OF r]) (use listed_though_seen_once [OF r f] in blast)
qed

end
