(* ===== verification/CborDiag.thy ===== *)
theory CborDiag
  imports Cbor
begin

text \<open>
  \<open>cbor_diag.py\<close>: the printer for CBOR diagnostic notation, which decodes the protected header and the
  payload of a COSE_Sign1 message and prints them in place. The codec is a parameter. Every call of \<open>diag\<close>
  within another, for an element of a list, a key or value of a map, the content of a tag or an embedded
  message, takes one unit of a limit; a limit that is used up is Python's \<open>RecursionError\<close>. The interpreter
  counts frames: one for each such call and, in a list, one for the generator expression around it, so a
  limit of \<open>L\<close> frames is one of at least \<open>L div 2\<close> calls. The theorems say which limit a value needs, that the
  length of the file is always enough, and that the text of a value without embedded messages determines
  the value.
\<close>

section \<open>Texts\<close>







section \<open>The printer\<close>







section \<open>How deep a value is\<close>




















section \<open>Reading the text back\<close>

































section \<open>Properties\<close>










end
