(* ===== verification/Listener.thy ===== *)
theory Listener
  imports Json
begin

text \<open>
  The parent's side of a Nitro Enclaves run (\<open>listener.py\<close>, written by \<open>probe-nitro.sh\<close>): it hands the
  enclave a nonce over vsock and stores the files the enclave sends, each as a name and its contents behind
  their lengths, until one named \<open>done\<close>. The sender is the function \<open>send\<close> of the enclave's program in
  \<open>probe-nitro.sh\<close>. The receiving loop does not notice that the peer closed the connection, so it may not
  end: it is a \<open>partial_function\<close>, and \<open>None\<close> is a run that never returns.
\<close>

section \<open>The connection\<close>

text \<open>What \<open>recv\<close> will meet: a piece of data or a timeout; after the last event the peer has closed the
  connection and \<open>recv\<close> returns no bytes, again and again.\<close>

datatype event = Arrives bytes | TimesOut

definition recv_event :: "nat \<Rightarrow> event list \<Rightarrow> (bytes \<times> event list) res" where
  "recv_event n es = (case es of [] \<Rightarrow> Ok ([], [])
     | TimesOut # r \<Rightarrow> Err (Raised ''TimeoutError'' ''timed out'')
     | Arrives p # r \<Rightarrow> if length p \<le> n then Ok (p, r) else Ok (take n p, Arrives (drop n p) # r))"

text \<open>\<open>recvall\<close>, with its variable \<open>b\<close>.\<close>

partial_function (option) recvall :: "nat \<Rightarrow> bytes \<Rightarrow> event list \<Rightarrow> (bytes \<times> event list) res option" where
  "recvall k b es = (if length b < k then
     (case recv_event (k - length b) es of Inl e \<Rightarrow> Some (Err e) | Inr p \<Rightarrow> recvall k (b @ fst p) (snd p))
     else Some (Ok (b, es)))"

text \<open>Sequencing of steps that may raise or never return.\<close>

definition rthen :: "'a res option \<Rightarrow> ('a \<Rightarrow> 'b res option) \<Rightarrow> 'b res option" where
  "rthen m f = (case m of None \<Rightarrow> None | Some (Inl e) \<Rightarrow> Some (Err e) | Some (Inr x) \<Rightarrow> f x)"

lemma rthen_simps [simp]: "rthen None f = None" "rthen (Some (Inl e)) f = Some (Inl e)" "rthen (Some (Inr x)) f = f x"
  by (simp_all add: rthen_def)

section \<open>The listener\<close>

text \<open>\<open>struct.unpack(">B", recvall(1))[0]\<close> and \<open>struct.unpack(">I", recvall(4))[0]\<close>, then as many bytes.\<close>

definition recv_block :: "nat \<Rightarrow> event list \<Rightarrow> (bytes \<times> event list) res option" where
  "recv_block w es = rthen (recvall w [] es) (\<lambda>(h, es1). rthen (Some (unpack_be w h 0)) (\<lambda>n. recvall (nat n) [] es1))"

definition decode_name :: "bytes \<Rightarrow> string res" where
  "decode_name b = of_option (Raised ''UnicodeDecodeError'' '''') (utf8_decode b)"

definition recv_file :: "event list \<Rightarrow> (string \<times> bytes \<times> event list) res option" where
  "recv_file es = rthen (recv_block 1 es) (\<lambda>(nb, es1). rthen (Some (decode_name nb)) (\<lambda>name.
     rthen (recv_block 4 es1) (\<lambda>(data, es2). Some (Ok (name, data, es2)))))"

text \<open>The loop: \<open>disk\<close> is what was written, \<open>got\<close> the list of names and lengths; \<open>W\<close> opens a name for
  writing. The exception that ended the loop, if one did, comes first.\<close>

type_synonym received = "pyerr option \<times> (string \<times> bytes) list \<times> (string \<times> nat) list"

partial_function (option) listen_loop :: "(string \<Rightarrow> unit res) \<Rightarrow> (string \<times> bytes) list \<Rightarrow> (string \<times> nat) list \<Rightarrow> event list \<Rightarrow> received option" where
  "listen_loop W disk got es = (case recv_file es of None \<Rightarrow> None
     | Some r \<Rightarrow> (case r of Inl e \<Rightarrow> Some (Some e, disk, got)
       | Inr q \<Rightarrow> if fst q = ''done'' then Some (None, disk, got)
         else (case W (fst q) of Inl e \<Rightarrow> Some (Some e, disk, got)
           | Inr _ \<Rightarrow> listen_loop W (AList.update (fst q) (fst (snd q)) disk) (got @ [(fst q, length (fst (snd q)))]) (snd (snd q)))))"

text \<open>\<open>accepted\<close>: what the connection of \<open>srv.accept()\<close> will deliver, or the exception of \<open>accept\<close> or of
  \<open>sendall\<close>. The first component is what is sent on the connection.\<close>

definition listener :: "(string \<Rightarrow> unit res) \<Rightarrow> string \<Rightarrow> event list res \<Rightarrow> (bytes \<times> received) option res" where
  "listener W nonce_hex accepted = rbind (fromhex (strip nonce_hex)) (\<lambda>N.
     case accepted of Inl e \<Rightarrow> Ok (Some ([], Some e, [], []))
     | Inr es \<Rightarrow> (case listen_loop W [] [] es of None \<Rightarrow> Ok None
         | Some r \<Rightarrow> Ok (Some (to_big 4 (int (length N)) @ N, r))))"

section \<open>The sender\<close>

text \<open>\<open>send\<close> of the enclave's program.\<close>

definition send_file :: "string \<Rightarrow> bytes \<Rightarrow> bytes" where
  "send_file name data = to_big 1 (int (length (utf8 name))) @ utf8 name @ to_big 4 (int (length data)) @ data"

definition send_all :: "(string \<times> bytes) list \<Rightarrow> bytes" where
  "send_all fs = concat (map (\<lambda>(n, d). send_file n d) fs) @ send_file ''done'' []"

definition sendable :: "string \<times> bytes \<Rightarrow> bool" where
  "sendable f \<longleftrightarrow> length (utf8 (fst f)) < 256 \<and> length (snd f) < 2 ^ 32"

section \<open>Lemmas\<close>

text \<open>The bytes that will arrive, and a connection on which nothing times out and every piece has a byte.\<close>

fun bytes_of :: "event list \<Rightarrow> bytes" where
  "bytes_of [] = []"
| "bytes_of (Arrives p # r) = p @ bytes_of r"
| "bytes_of (TimesOut # r) = bytes_of r"

definition steady :: "event list \<Rightarrow> bool" where
  "steady es \<longleftrightarrow> (\<forall>e \<in> set es. \<exists>p. e = Arrives p \<and> p \<noteq> [])"

lemma recvall_enough:
  assumes "steady es" "length b \<le> k" "k \<le> length b + length (bytes_of es)"
  shows "\<exists>es'. recvall k b es = Some (Inr (b @ take (k - length b) (bytes_of es), es')) \<and> steady es'
    \<and> bytes_of es' = drop (k - length b) (bytes_of es)"
  using assms
proof (induction es arbitrary: b)
  case Nil
  then show ?case by (subst recvall.simps) (simp add: steady_def)
next
  case (Cons e es)
  then obtain p where e: "e = Arrives p" "p \<noteq> []" and st: "steady es" by (auto simp: steady_def)
  show ?case
  proof (cases "length b < k")
    case False
    then show ?thesis using Cons.prems by (subst recvall.simps) simp
  next
    case True
    show ?thesis
    proof (cases "length p \<le> k - length b")
      case le: True
      then have "recvall k b (e # es) = recvall k (b @ p) es" using True by (subst recvall.simps) (simp add: e recv_event_def)
      then show ?thesis using Cons.IH [OF st, of "b @ p"] Cons.prems(3) le True e by (simp add: diff_diff_add)
    next
      case False
      then have "recvall k b (e # es) = recvall k (b @ take (k - length b) p) (Arrives (drop (k - length b) p) # es)"
        using True by (subst recvall.simps) (simp add: e recv_event_def)
      also have "\<dots> = Some (Inr (b @ take (k - length b) p, Arrives (drop (k - length b) p) # es))"
        using False True by (subst recvall.simps) simp
      finally show ?thesis using False st by (simp add: e steady_def)
    qed
  qed
qed

lemma recv_event_steady:
  assumes "steady es" "0 < n"
  shows "\<exists>p es'. recv_event n es = Inr (p, es') \<and> length p \<le> n \<and> length p + length (bytes_of es') = length (bytes_of es) \<and> steady es'"
proof (cases es)
  case (Cons e r)
  then obtain p where "e = Arrives p" "p \<noteq> []" using assms(1) by (auto simp: steady_def)
  with Cons assms show ?thesis by (auto simp: recv_event_def steady_def)
qed (simp add: recv_event_def steady_def)

text \<open>Without enough bytes the loop never returns.\<close>

lemma recvall_returns:
  assumes "recvall k b es = Some r" "steady es" "length b \<le> k"
  shows "k \<le> length b + length (bytes_of es)"
proof -
  let ?P = "\<lambda>k b es r. steady es \<longrightarrow> length b \<le> k \<longrightarrow> k \<le> length b + length (bytes_of es)"
  have "?P k b es r"
  proof (rule recvall.raw_induct [where P = ?P, OF _ assms(1)])
    fix f k b es r
    assume IH: "\<And>k b es r. f k b es = Some r \<Longrightarrow> ?P k b es r"
      and r: "(if length b < k then (case recv_event (k - length b) es of Inl e \<Rightarrow> Some (Err e) | Inr p \<Rightarrow> f k (b @ fst p) (snd p))
        else Some (Ok (b, es))) = Some r"
    show "?P k b es r"
    proof (intro impI)
      assume st: "steady es" and len: "length b \<le> k"
      show "k \<le> length b + length (bytes_of es)"
      proof (cases "length b < k")
        case True
        then obtain p es' where p: "recv_event (k - length b) es = Inr (p, es')" "length p \<le> k - length b"
            "length p + length (bytes_of es') = length (bytes_of es)" "steady es'"
          using recv_event_steady [OF st, of "k - length b"] by auto
        have "f k (b @ p) es' = Some r" using r True p(1) by simp
        from IH [OF this] have "k \<le> length (b @ p) + length (bytes_of es')" using p(2,4) True by simp
        then show ?thesis using p(3) by simp
      qed (use len in simp)
    qed
  qed
  then show ?thesis using assms by simp
qed

lemma recvall_exact:
  assumes "steady es" "bytes_of es = x @ rest"
  shows "\<exists>es'. recvall (length x) [] es = Some (Inr (x, es')) \<and> steady es' \<and> bytes_of es' = rest"
  using recvall_enough [OF assms(1), of "[]" "length x"] assms(2) by simp

lemma recvall_short: "steady es \<Longrightarrow> length (bytes_of es) < k \<Longrightarrow> recvall k [] es = None"
  using recvall_returns [of k "[]" es] by (cases "recvall k [] es") auto

lemma unpack_to_big:
  assumes "n < 256 ^ w"
  shows "unpack_be w (to_big w (int n)) 0 = Inr (int n)"
proof -
  have "int n < int (256 ^ w)" using assms by (simp only: of_nat_less_iff)
  then show ?thesis by (simp add: unpack_be_def slice_def from_big_to_big)
qed

text \<open>A prefix of two pieces reaches into the second or stops short of it.\<close>

lemma prefix_past: "a @ m = x @ y \<Longrightarrow> length x \<le> length a \<Longrightarrow> \<exists>z. a = x @ z \<and> z @ m = y"
  by (auto simp: append_eq_append_conv2)

lemma prefix_short: "a @ m = x @ y \<Longrightarrow> length a < length x \<Longrightarrow> \<exists>z. a @ z = x \<and> z \<noteq> []"
  by (auto simp: append_eq_append_conv2)

lemma recv_block_exact:
  assumes "steady es" "bytes_of es = to_big w (int (length d)) @ d @ rest" "length d < 256 ^ w"
  shows "\<exists>es'. recv_block w es = Some (Inr (d, es')) \<and> steady es' \<and> bytes_of es' = rest"
proof -
  obtain es1 where 1: "recvall w [] es = Some (Inr (to_big w (int (length d)), es1))" "steady es1" "bytes_of es1 = d @ rest"
    using recvall_exact [OF assms(1,2)] by auto
  have "unpack_be w (to_big w (int (length d))) 0 = Inr (int (length d))" by (rule unpack_to_big [OF assms(3)])
  then show ?thesis using recvall_exact [OF 1(2,3)] 1(1) by (auto simp: recv_block_def)
qed

lemma recv_block_short:
  assumes "steady es" "bytes_of es @ more = to_big w (int (length d)) @ d" "more \<noteq> []" "length d < 256 ^ w"
  shows "recv_block w es = None"
proof (cases "length (bytes_of es) < w")
  case True
  then show ?thesis by (simp add: recv_block_def recvall_short [OF assms(1)])
next
  case False
  then obtain x where x: "bytes_of es = to_big w (int (length d)) @ x" "x @ more = d"
    using prefix_past [OF assms(2)] by auto
  obtain es1 where 1: "recvall w [] es = Some (Inr (to_big w (int (length d)), es1))" "steady es1" "bytes_of es1 = x"
    using recvall_exact [OF assms(1) x(1)] by auto
  have "unpack_be w (to_big w (int (length d))) 0 = Inr (int (length d))" by (rule unpack_to_big [OF assms(4)])
  moreover have "length (bytes_of es1) < length d" using 1(3) x(2) assms(3) by auto
  ultimately show ?thesis using recvall_short [OF 1(2)] 1(1) by (simp add: recv_block_def)
qed

lemma recv_file_exact:
  assumes "steady es" "bytes_of es = send_file n d @ rest" "sendable (n, d)"
  shows "\<exists>es'. recv_file es = Some (Inr (n, d, es')) \<and> steady es' \<and> bytes_of es' = rest"
proof -
  obtain es1 where 1: "recv_block 1 es = Some (Inr (utf8 n, es1))" "steady es1" "bytes_of es1 = to_big 4 (int (length d)) @ d @ rest"
    using recv_block_exact [OF assms(1), of 1 "utf8 n"] assms(2,3) by (auto simp: send_file_def sendable_def)
  obtain es2 where "recv_block 4 es1 = Some (Inr (d, es2))" "steady es2" "bytes_of es2 = rest"
    using recv_block_exact [OF 1(2,3)] assms(3) by (auto simp: sendable_def)
  with 1(1) show ?thesis by (simp add: recv_file_def decode_name_def utf8_decode_utf8 of_option_def)
qed

lemma recv_file_short:
  assumes "steady es" "bytes_of es @ more = send_file n d" "more \<noteq> []" "sendable (n, d)"
  shows "recv_file es = None"
proof -
  have eq: "bytes_of es @ more = (to_big 1 (int (length (utf8 n))) @ utf8 n) @ to_big 4 (int (length d)) @ d"
    using assms(2) by (simp add: send_file_def)
  show ?thesis
  proof (cases "length (bytes_of es) < length (to_big 1 (int (length (utf8 n))) @ utf8 n)")
    case True
    then obtain x where x: "bytes_of es @ x = to_big 1 (int (length (utf8 n))) @ utf8 n" "x \<noteq> []"
      using prefix_short [OF eq] by blast
    show ?thesis using recv_block_short [OF assms(1) x] assms(4) by (simp add: recv_file_def sendable_def)
  next
    case False
    then obtain x where 2: "bytes_of es = to_big 1 (int (length (utf8 n))) @ utf8 n @ x" "x @ more = to_big 4 (int (length d)) @ d"
      using prefix_past [OF eq] by auto
    obtain es1 where es1: "recv_block 1 es = Some (Inr (utf8 n, es1))" "steady es1" "bytes_of es1 = x"
      using recv_block_exact [OF assms(1), of 1 "utf8 n"] 2(1) assms(4) by (auto simp: sendable_def)
    have "recv_block 4 es1 = None"
      using recv_block_short [OF es1(2), of more 4 d] 2(2) es1(3) assms(3,4) by (simp add: sendable_def)
    with es1(1) show ?thesis by (simp add: recv_file_def decode_name_def utf8_decode_utf8 of_option_def)
  qed
qed

text \<open>A file the loop stores: it can be sent, its name does not end the run, and it opens for writing.\<close>

definition stored :: "(string \<Rightarrow> unit res) \<Rightarrow> string \<times> bytes \<Rightarrow> bool" where
  "stored W f \<longleftrightarrow> sendable f \<and> fst f \<noteq> ''done'' \<and> W (fst f) = Ok ()"

lemma sendable_done: "sendable (''done'', [])"
  by (simp add: sendable_def utf8_def utf8_char_def)

lemma send_all_simps [simp]:
  "send_all [] = send_file ''done'' []" "send_all ((n, d) # fs) = send_file n d @ send_all fs"
  by (simp_all add: send_all_def)

lemma listen_loop_receives:
  assumes "steady es" "bytes_of es = send_all fs @ extra" "\<forall>f \<in> set fs. stored W f"
  shows "listen_loop W disk got es =
    Some (None, fold (\<lambda>(n, d). AList.update n d) fs disk, got @ map (\<lambda>(n, d). (n, length d)) fs)"
  using assms
proof (induction fs arbitrary: es disk got)
  case Nil
  then obtain es' where "recv_file es = Some (Inr (''done'', [], es'))"
    using recv_file_exact [OF _ _ sendable_done, of es extra] by auto
  then show ?case by (subst listen_loop.simps) simp
next
  case (Cons f fs)
  obtain n d where f: "f = (n, d)" by (cases f)
  have ok: "sendable (n, d)" "n \<noteq> ''done''" "W n = Inr ()" using Cons.prems(3) by (auto simp: f stored_def)
  obtain es' where es': "recv_file es = Some (Inr (n, d, es'))" "steady es'" "bytes_of es' = send_all fs @ extra"
    using recv_file_exact [OF Cons.prems(1) _ ok(1), of "send_all fs @ extra"] Cons.prems(2) by (auto simp: f)
  from es'(1) have "listen_loop W disk got es = listen_loop W (AList.update n d disk) (got @ [(n, length d)]) es'"
    by (subst listen_loop.simps) (simp add: ok)
  with Cons.IH [OF es'(2,3)] Cons.prems(3) show ?case by (simp add: f)
qed

lemma listen_loop_hangs:
  assumes "steady es" "bytes_of es @ more = send_all fs" "more \<noteq> []" "\<forall>f \<in> set fs. stored W f"
  shows "listen_loop W disk got es = None"
  using assms
proof (induction fs arbitrary: es disk got)
  case Nil
  then have "recv_file es = None" using recv_file_short [OF _ _ _ sendable_done] by simp
  then show ?case by (subst listen_loop.simps) simp
next
  case (Cons f fs)
  obtain n d where f: "f = (n, d)" by (cases f)
  have ok: "sendable (n, d)" "n \<noteq> ''done''" "W n = Inr ()" using Cons.prems(4) by (auto simp: f stored_def)
  have eq: "bytes_of es @ more = send_file n d @ send_all fs" using Cons.prems(2) by (simp add: f)
  show ?case
  proof (cases "length (bytes_of es) < length (send_file n d)")
    case True
    then obtain x where x: "bytes_of es @ x = send_file n d" "x \<noteq> []" using prefix_short [OF eq] by blast
    show ?thesis using recv_file_short [OF Cons.prems(1) x ok(1)] by (subst listen_loop.simps) simp
  next
    case False
    then obtain x where x: "bytes_of es = send_file n d @ x" "x @ more = send_all fs" using prefix_past [OF eq] by auto
    obtain es' where es': "recv_file es = Some (Inr (n, d, es'))" "steady es'" "bytes_of es' = x"
      using recv_file_exact [OF Cons.prems(1) x(1) ok(1)] by auto
    then have "listen_loop W (AList.update n d disk) (got @ [(n, length d)]) es' = None"
      using Cons.IH [OF es'(2)] x(2) Cons.prems(3,4) by simp
    then show ?thesis using es'(1) by (subst listen_loop.simps) (simp add: ok)
  qed
qed

lemma map_of_stored: "map_of (fold (\<lambda>(n, d). AList.update n d) fs disk) = map_of (rev fs @ disk)"
  by (induction fs arbitrary: disk) (auto simp: update_conv' map_add_def fun_eq_iff split: option.splits)

section \<open>Properties\<close>

text \<open>C21: However the stream is cut into pieces, the listener stores every file the enclave sends before
  \<open>done\<close>, the last contents under a name that is sent twice; lists each with its length; stops without an
  exception; and ignores what follows.\<close>

theorem listener_receives:
  assumes "fromhex (strip nonce_hex) = Ok N" "steady es" "bytes_of es = send_all fs @ extra"
    and "\<forall>f \<in> set fs. stored W f"
  shows "\<exists>disk. listener W nonce_hex (Ok es) = Ok (Some (to_big 4 (int (length N)) @ N, None, disk, map (\<lambda>(n, d). (n, length d)) fs))
    \<and> map_of disk = map_of (rev fs)"
  using listen_loop_receives [OF assms(2-4)] by (simp add: listener_def assms(1) map_of_stored)

text \<open>C36: A connection that closes before the whole of \<open>done\<close> has arrived makes the listener spin for ever:
  \<open>recv\<close> returns no bytes and the loop of \<open>recvall\<close> does not notice, so no timeout applies and the result file
  is never written.\<close>

theorem listener_hangs:
  assumes "fromhex (strip nonce_hex) = Ok N" "steady es" "bytes_of es @ more = send_all fs" "more \<noteq> []" "\<forall>f \<in> set fs. stored W f"
  shows "listener W nonce_hex (Ok es) = Ok None"
  using listen_loop_hangs [OF assms(2-5)] by (simp add: listener_def assms(1))

section \<open>Witnesses\<close>

definition two_files :: "(string \<times> bytes) list" where
  "two_files = [(''doc'', [1, 2]), (''doc'', [3])]"

definition wire :: bytes where
  "wire = [3, 100, 111, 99, 0, 0, 0, 2, 1, 2, 3, 100, 111, 99, 0, 0, 0, 1, 3, 4, 100, 111, 110, 101, 0, 0, 0, 0]"

lemma wire_sent: "send_all two_files = wire"
  by (simp add: two_files_def wire_def send_file_def to_big_def utf8_def utf8_char_def numeral_eq_Suc)

lemma two_files_stored: "\<forall>f \<in> set two_files. stored (\<lambda>n. Ok ()) f"
  by (simp add: two_files_def stored_def sendable_def utf8_def utf8_char_def)

lemma nonce_ab: "fromhex (strip ''ab'') = Ok [171]"
  by code_simp

theorem listener_receives_witness:
  "\<exists>disk. listener (\<lambda>n. Ok ()) ''ab'' (Ok [Arrives (take 10 wire), Arrives (drop 10 wire @ [7])])
      = Ok (Some (to_big 4 (int (length [171 :: 8 word])) @ [171], None, disk, map (\<lambda>(n, d). (n, length d)) two_files))
    \<and> map_of disk = map_of (rev two_files)"
  by (rule listener_receives [OF nonce_ab _ _ two_files_stored, where extra = "[7]"])
    (simp_all add: steady_def wire_sent, simp_all add: wire_def)

theorem listener_hangs_witness: "listener (\<lambda>n. Ok ()) ''ab'' (Ok [Arrives (take 21 wire)]) = Ok None"
  by (rule listener_hangs [OF nonce_ab _ _ _ two_files_stored, where more = "drop 21 wire"])
    (simp_all add: steady_def wire_sent, simp_all add: wire_def)

end
