(* ===== verification/IdBind.thy ===== *)
theory IdBind
  imports Ledger VlekVerify Json Base64
begin

text \<open>
  \<open>aws-vlek/idbind_verify.py\<close>: the EC2 identity document of a run, its PKCS#7 and RSA-2048 signatures
  against the certificates AWS publishes for the document's region, and the SEV-SNP report that binds the
  document to a machine. The \<open>openssl\<close> command line is the record \<open>smime_tools\<close>; what its manual says of
  \<open>smime -verify\<close> is \<open>smime_contract\<close>.
\<close>

section \<open>The command line\<close>

text \<open>
  \<open>smime_pem p7 doc pem\<close>: \<open>smime -verify -in p7 -inform PEM -content doc -certfile pem -noverify\<close> exits
  with 0. \<open>x509_pubkey pem\<close>: the file that \<open>x509 -pubkey\<close> leaves, if it leaves one. \<open>dgst_verify pub sig doc\<close>:
  \<open>dgst -sha256 -verify\<close> exits with 0.
\<close>

record smime_tools =
  smime_pem :: "string \<Rightarrow> bytes \<Rightarrow> string \<Rightarrow> bool"
  x509_pubkey :: "string \<Rightarrow> bytes option"
  dgst_verify :: "bytes option \<Rightarrow> bytes \<Rightarrow> bytes \<Rightarrow> bool"

text \<open>
  The manual: the certificates in the message and those of \<open>-certfile\<close> are searched for the signing
  certificate (\<open>-nointern\<close> would leave the message's own out), and \<open>-noverify\<close> leaves the signing certificate
  itself unchecked. \<open>held p7\<close> are the certificates in the message, \<open>file pem\<close> those of the file, and
  \<open>signs k p7 doc\<close> says that the message names \<open>k\<close> as its signer and the signature verifies under its key.
\<close>

definition smime_contract :: "smime_tools \<Rightarrow> (string \<Rightarrow> 'k list) \<Rightarrow> (string \<Rightarrow> 'k list) \<Rightarrow> ('k \<Rightarrow> string \<Rightarrow> bytes \<Rightarrow> bool) \<Rightarrow> bool" where
  "smime_contract T held file signs \<longleftrightarrow>
     (\<forall>p7 doc pem. smime_pem T p7 doc pem = list_ex (\<lambda>k. signs k p7 doc) (held p7 @ file pem))"

section \<open>The certificates of a region\<close>

definition DOCS :: string where
  "DOCS = ''https://docs.aws.amazon.com/AWSEC2/latest/UserGuide/regions-certs.html''"

definition REGION_NAMES :: "(string \<times> string) list" where
  "REGION_NAMES = [(''us-east-2'', ''US East (Ohio)''), (''us-east-1'', ''US East (N. Virginia)''),
     (''eu-west-1'', ''Europe (Ireland)''), (''us-west-2'', ''US West (Oregon)'')]"

definition region_name :: "string \<Rightarrow> string" where
  "region_name region = (case map_of REGION_NAMES region of Some n \<Rightarrow> n | None \<Rightarrow> region)"

text \<open>\<open>seg\<close>: from the name to the next heading. A name that is not there leaves \<open>page[-1:7999]\<close>.\<close>

definition page_segment :: "string \<Rightarrow> string \<Rightarrow> string" where
  "page_segment page name = (case find_sub name page of
     None \<Rightarrow> slice page (length page - 1) 7999
   | Some i \<Rightarrow> (case find_sub ''<h3'' (drop (i + 1) page) of
       Some k \<Rightarrow> slice page i (i + 1 + k)
     | None \<Rightarrow> slice page i (i + 8000)))"

definition BEGIN_CERT :: string where "BEGIN_CERT = ''-----BEGIN CERTIFICATE-----''"
definition END_CERT :: string where "END_CERT = ''-----END CERTIFICATE-----''"

text \<open>\<open>re.findall\<close> with the shortest text between the two marks.\<close>

function find_certs :: "string \<Rightarrow> string list" where
  "find_certs s = (case find_sub BEGIN_CERT s of None \<Rightarrow> []
     | Some i \<Rightarrow> let r = drop (i + length BEGIN_CERT) s in
       (case find_sub END_CERT r of None \<Rightarrow> []
        | Some j \<Rightarrow> (BEGIN_CERT @ take (j + length END_CERT) r) # find_certs (drop (j + length END_CERT) r)))"
  by pat_completeness auto
termination
proof (relation "measure length")
  fix s i r j
  assume i: "find_sub BEGIN_CERT s = Some i" and r: "r = drop (i + length BEGIN_CERT) s"
  have "length s - (i + length BEGIN_CERT) < length s" by (rule find_sub_shrinks [OF i]) (simp add: BEGIN_CERT_def)
  then show "(drop (j + length END_CERT) r, s) \<in> measure length" by (simp add: r)
qed simp

declare find_certs.simps [simp del]

text \<open>\<open>page_text\<close> is \<open>html.unescape(b.decode(errors="replace"))\<close>.\<close>

definition region_certs :: "(bytes \<Rightarrow> string) \<Rightarrow> fetch \<Rightarrow> json \<Rightarrow> string list res" where
  "region_certs page_text get region = rbind (get DOCS) (\<lambda>b. rbind (jstr TypeError region) (\<lambda>name.
     Ok (find_certs (page_segment (page_text b) (region_name name)))))"

section \<open>One run\<close>

record 'c id_lib = "'c pki" +
  sig_alg_name :: "'c \<Rightarrow> string"

record id_files =
  id_meta :: "string option"
  id_doc :: "bytes option"
  id_report :: "bytes option"
  id_sentence :: "string option"
  id_p7 :: "string option"
  id_rsa :: "string option"
  id_vlek :: "bytes option"

record id_row =
  ir_instance :: "string option"
  ir_zone :: "string option"
  ir_region :: json
  ir_az :: json
  ir_instance_id :: json
  ir_doc_sha256 :: string
  ir_signing_key :: signing_key
  ir_chip_id_zero :: bool
  ir_binding :: bool
  ir_certs :: nat
  ir_pkcs7 :: "(nat \<times> string) list"
  ir_rsa :: "nat list"
  ir_sig_ok :: bool
  ir_chain_ok :: "bool option"
  ir_csp :: "bytes option"
  ir_csp_region :: bool

definition lower_char :: "char \<Rightarrow> char" where
  "lower_char c = (let n = (of_char c :: nat) in
     if 65 \<le> n \<and> n \<le> 90 \<or> 192 \<le> n \<and> n \<le> 222 \<and> n \<noteq> 215 then char_of (n + 32) else c)"

definition is_rsa_alg :: "string \<Rightarrow> bool" where
  "is_rsa_alg alg \<longleftrightarrow> find_sub ''rsa'' (map lower_char alg) \<noteq> None"

definition p7_text :: "string \<Rightarrow> string" where
  "p7_text t = ''-----BEGIN PKCS7-----'' @ [CHR 0x0A] @ strip t @ [CHR 0x0A] @ ''-----END PKCS7-----'' @ [CHR 0x0A]"

definition rsa_sig :: "string option \<Rightarrow> bytes res" where
  "rsa_sig f = rbind (open_file f) (\<lambda>t. b64decode (filter (\<lambda>c. \<not> is_space c) t))"

text \<open>The loop over the certificates: what the two signatures verified under.\<close>

fun id_certs :: "'c id_lib \<Rightarrow> smime_tools \<Rightarrow> string \<Rightarrow> bytes \<Rightarrow> string option \<Rightarrow> (nat \<times> string) list \<Rightarrow> ((nat \<times> string) list \<times> nat list) res" where
  "id_certs P T p7 doc rsa [] = Ok ([], [])"
| "id_certs P T p7 doc rsa ((k, pem) # r) = (let cp = pem @ [CHR 0x0A] in
     rbind (load_pem P (utf8 pem)) (\<lambda>c. let alg = sig_alg_name P c; ok = smime_pem T p7 doc cp in
     rbind (if is_rsa_alg alg then rbind (rsa_sig rsa) (\<lambda>sig. Ok (dgst_verify T (x509_pubkey T cp) sig doc)) else Ok False) (\<lambda>ok2.
     rbind (id_certs P T p7 doc rsa r) (\<lambda>(ps, qs).
     Ok (if ok then (k, alg) # ps else ps, if ok2 then k # qs else qs)))))"

text \<open>\<open>region in csp_id\<close> of the decoded text is a substring of the bytes.\<close>

definition csp_names :: "json \<Rightarrow> bytes option \<Rightarrow> bool" where
  "csp_names region csp = (case csp of None \<Rightarrow> False | Some b \<Rightarrow>
     (case region of JStr s \<Rightarrow> find_sub (utf8 s) b \<noteq> None | _ \<Rightarrow> False))"

definition id_run :: "'c id_lib \<Rightarrow> smime_tools \<Rightarrow> (bytes \<Rightarrow> string) \<Rightarrow> fetch \<Rightarrow> 'c list option \<Rightarrow> bytes \<Rightarrow> id_files \<Rightarrow> id_row res" where
  "id_run P T page_text get chain raw d =
     rbind (open_file (id_meta d)) (\<lambda>text0. let mt = key_values (split_ws text0) in
     rbind (open_file (id_doc d)) (\<lambda>doc. rbind (json_loads_bytes doc) (\<lambda>dj. rbind (jitem dj ''region'') (\<lambda>region.
     let rep = take 1184 raw in rbind (parse rep) (\<lambda>f.
     rbind (open_file (id_sentence d)) (\<lambda>sent. let N = sha512 (utf8 sent) in
     rbind (jget dj ''availabilityZone'') (\<lambda>az. rbind (jget dj ''instanceId'') (\<lambda>iid.
     rbind (region_certs page_text get region) (\<lambda>certs.
     rbind (open_file (id_p7 d)) (\<lambda>p7.
     rbind (id_certs P T (p7_text p7) doc (id_rsa d) (enumerate 0 certs)) (\<lambda>(ps, qs).
     rbind (rbind (open_file (id_vlek d)) (\<lambda>b. load_cert (pki.truncate P) (rstrip_nul b))) (\<lambda>vlek.
     let csp = csp_id (pki.truncate P) vlek in
     Ok \<lparr>ir_instance = map_of mt ''instance'', ir_zone = map_of mt ''zone'', ir_region = region, ir_az = az, ir_instance_id = iid,
        ir_doc_sha256 = hex (sha256 doc), ir_signing_key = signing_key f, ir_chip_id_zero = chip_id_zero f,
        ir_binding = (slice rep 0x50 0x90 = sha512 (N @ sha256 doc)), ir_certs = length certs, ir_pkcs7 = ps, ir_rsa = qs,
        ir_sig_ok = sig_ok (pki.truncate P) rep vlek,
        ir_chain_ok = (case chain of Some (x # xs) \<Rightarrow> Some (chain_ok (pki.truncate P) vlek (x # xs)) | _ \<Rightarrow> None),
        ir_csp = csp, ir_csp_region = csp_names region csp\<rparr>))))))))))))"

text \<open>\<open>main\<close>: the VLEK chain once, then the runs that have a report.\<close>

definition id_main :: "'c id_lib \<Rightarrow> smime_tools \<Rightarrow> (bytes \<Rightarrow> string) \<Rightarrow> fetch \<Rightarrow> id_files list \<Rightarrow> id_row list res" where
  "id_main P T page_text get ds =
     (let chain = drop_error (rbind (get (chain_url ''vlek'' ''Milan'')) (load_pem_chain P)) in
      rmap (\<lambda>(raw, d). id_run P T page_text get chain raw d)
        (concat (map (\<lambda>d. case id_report d of None \<Rightarrow> [] | Some raw \<Rightarrow> [(raw, d)]) ds)))"

section \<open>Lemmas\<close>

lemma id_certs_rsa:
  assumes "id_certs P T p7 doc rsa ks = Inr (ps, qs)" "k \<in> set qs"
  shows "\<exists>pem sig. (k, pem) \<in> set ks \<and> dgst_verify T (x509_pubkey T (pem @ [CHR 0x0A])) sig doc"
  using assms
proof (induction P T p7 doc rsa ks arbitrary: ps qs rule: id_certs.induct)
  case (2 P T p7 doc rsa k' pem r)
  from 2(2) obtain ok2 ps' qs' where ok2: "(if is_rsa_alg (sig_alg_name P (projr (load_pem P (utf8 pem)))) then
        rbind (rsa_sig rsa) (\<lambda>sig. Ok (dgst_verify T (x509_pubkey T (pem @ [CHR 0x0A])) sig doc)) else Ok False) = Inr ok2"
    and rest: "id_certs P T p7 doc rsa r = Inr (ps', qs')" and qs: "qs = (if ok2 then k' # qs' else qs')"
    by (auto simp: Let_def rbind_Inr_iff)
  have IH: "k \<in> set qs' \<Longrightarrow> \<exists>pem sig. (k, pem) \<in> set r \<and> dgst_verify T (x509_pubkey T (pem @ [CHR 0x0A])) sig doc"
    using 2(2) 2(1) rest by (auto simp: Let_def rbind_Inr_iff)
  show ?case
  proof (cases "ok2 \<and> k = k'")
    case True
    then show ?thesis using ok2 by (auto simp: rbind_Inr_iff split: if_splits)
  next
    case False
    then show ?thesis using IH qs 2(3) by (auto split: if_splits)
  qed
qed simp

text \<open>A message that carries its signer's certificate is verified with every file.\<close>

lemma id_certs_any:
  assumes "\<And>pem. smime_pem T p7 doc pem" "id_certs P T p7 doc rsa ks = Inr (ps, qs)"
  shows "map fst ps = map fst ks"
  using assms
proof (induction P T p7 doc rsa ks arbitrary: ps qs rule: id_certs.induct)
  case (2 P T p7 doc rsa k pem r)
  from 2(3) obtain c ok2 ps' qs' where "load_pem P (utf8 pem) = Inr c" "id_certs P T p7 doc rsa r = Inr (ps', qs')"
      "(if is_rsa_alg (sig_alg_name P c) then rbind (rsa_sig rsa) (\<lambda>sig. Ok (dgst_verify T (x509_pubkey T (pem @ [CHR 0x0A])) sig doc)) else Ok False) = Inr ok2"
      "ps = (k, sig_alg_name P c) # ps'"
    by (auto simp: Let_def rbind_Inr_iff 2(2))
  then show ?case using 2(1) 2(2) by auto
qed simp

lemma id_run_Inr:
  assumes "id_run P T page_text get chain raw d = Inr row"
  obtains doc m region sent page p7 ps qs f vlek where "id_doc d = Some doc" "json_loads_bytes doc = Inr (JObj m)"
    "map_of m ''region'' = Some (JStr region)" "id_sentence d = Some sent" "parse (take 1184 raw) = Inr f" "get DOCS = Inr page"
    "id_p7 d = Some p7"
    "id_certs P T (p7_text p7) doc (id_rsa d) (enumerate 0 (find_certs (page_segment (page_text page) (region_name region)))) = Inr (ps, qs)"
    "ir_binding row = (report_data_of (take 1184 raw) = sha512 (sha512 (utf8 sent) @ sha256 doc))"
    "ir_certs row = length (find_certs (page_segment (page_text page) (region_name region)))" "ir_pkcs7 row = ps" "ir_rsa row = qs"
    "ir_sig_ok row = sig_ok (pki.truncate P) (take 1184 raw) vlek"
    "ir_chain_ok row = (case chain of Some (x # xs) \<Rightarrow> Some (chain_ok (pki.truncate P) vlek (x # xs)) | _ \<Rightarrow> None)"
    "ir_csp_region row = csp_names (JStr region) (csp_id (pki.truncate P) vlek)"
proof -
  from assms obtain doc dj reg f sent az iid certs p7 pq vlek where a: "open_file (id_doc d) = Inr doc" "json_loads_bytes doc = Inr dj"
      "jitem dj ''region'' = Inr reg" "parse (take 1184 raw) = Inr f" "open_file (id_sentence d) = Inr sent"
      "jget dj ''availabilityZone'' = Inr az" "jget dj ''instanceId'' = Inr iid"
      "region_certs page_text get reg = Inr certs" "open_file (id_p7 d) = Inr p7"
      "id_certs P T (p7_text p7) doc (id_rsa d) (enumerate 0 certs) = Inr pq"
    and r: "ir_binding row = (slice (take 1184 raw) 0x50 0x90 = sha512 (sha512 (utf8 sent) @ sha256 doc))"
      "ir_certs row = length certs" "ir_pkcs7 row = fst pq" "ir_rsa row = snd pq" "ir_sig_ok row = sig_ok (pki.truncate P) (take 1184 raw) vlek"
      "ir_chain_ok row = (case chain of Some (x # xs) \<Rightarrow> Some (chain_ok (pki.truncate P) vlek (x # xs)) | _ \<Rightarrow> None)"
      "ir_csp_region row = csp_names reg (csp_id (pki.truncate P) vlek)"
    unfolding id_run_def Let_def rbind_Inr_iff case_prod_beta sum.inject by (elim exE conjE) (hypsubst, simp)
  from a(1,5,9) have s: "id_doc d = Some doc" "id_sentence d = Some sent" "id_p7 d = Some p7" by (simp_all add: open_file_def res_iff)
  from a(2,3) obtain m where m: "dj = JObj m" "map_of m ''region'' = Some reg" by (auto simp: jitem_Inr)
  from a(8) obtain page name where p: "get DOCS = Inr page" "reg = JStr name"
      "certs = find_certs (page_segment (page_text page) (region_name name))"
    by (auto simp: region_certs_def rbind_Inr_iff jstr_Inr)
  show thesis
    by (rule that [of doc m name sent f page p7 "fst pq" "snd pq" vlek]) (use a s m p r in \<open>simp_all add: report_data_of_def\<close>)
qed

lemma id_main_row:
  assumes "id_main P T page_text get ds = Inr rows" "row \<in> set rows"
  obtains d raw where "d \<in> set ds" "id_report d = Some raw"
    "id_run P T page_text get (drop_error (rbind (get (chain_url ''vlek'' ''Milan'')) (load_pem_chain P))) raw d = Inr row"
proof -
  from assms(1) rmap_Ok_member [OF _ assms(2)] obtain p where
    p: "p \<in> set (concat (map (\<lambda>d. case id_report d of None \<Rightarrow> [] | Some raw \<Rightarrow> [(raw, d)]) ds))"
      "id_run P T page_text get (drop_error (rbind (get (chain_url ''vlek'' ''Milan'')) (load_pem_chain P))) (fst p) (snd p) = Inr row"
    unfolding id_main_def Let_def by (metis (no_types, lifting) case_prod_beta)
  then show thesis by (intro that [of "snd p" "fst p"]) (auto split: option.splits)
qed

text \<open>\<open>t\<close> has no \<open>p\<close>, not even one that begins in it before a \<open>p\<close> that follows.\<close>

definition clear :: "string \<Rightarrow> string \<Rightarrow> bool" where
  "clear p t \<longleftrightarrow> find_sub p (t @ p) = Some (length t)"

lemma find_sub_more: "find_sub p a = Some i \<Longrightarrow> find_sub p (a @ b) = Some i"
proof (induction p a arbitrary: i rule: find_sub.induct)
  case (1 p)
  then show ?case by (cases b) (auto split: if_splits)
next
  case (2 p x xs)
  show ?case
  proof (cases "take (length p) (x # xs) = p")
    case True
    then have "length p \<le> length (x # xs)" by (metis length_take min.absorb_iff2 nat_le_linear)
    then have "take (length p) ((x # xs) @ b) = p" using True take_append [of "length p" "x # xs" b] by simp
    then show ?thesis using 2(2) True by (auto split: if_splits)
  next
    case False
    then obtain j where j: "find_sub p xs = Some j" "i = Suc j" using 2(2) by auto
    have "length p \<le> length (x # xs)" using find_sub_Some [OF j(1)] by simp
    then have "take (length p) ((x # xs) @ b) \<noteq> p" using False take_append [of "length p" "x # xs" b] by simp
    then show ?thesis using 2(1) [OF False j(1)] j(2) by simp
  qed
qed

lemma clear_find: "clear p t \<Longrightarrow> find_sub p (t @ p @ r) = Some (length t)"
  using find_sub_more [of p "t @ p" "length t" r] by (simp add: clear_def)

definition cert_block :: "string \<Rightarrow> string" where
  "cert_block c = BEGIN_CERT @ c @ END_CERT"

lemma find_certs_step:
  assumes "clear BEGIN_CERT t" "clear END_CERT c"
  shows "find_certs (t @ cert_block c @ r) = cert_block c # find_certs r"
proof -
  have b: "find_sub BEGIN_CERT (t @ BEGIN_CERT @ c @ END_CERT @ r) = Some (length t)"
    and e: "find_sub END_CERT (c @ END_CERT @ r) = Some (length c)"
    using assms clear_find by simp_all
  show ?thesis by (subst find_certs.simps) (simp add: b e cert_block_def)
qed

lemma find_certs_blocks:
  assumes "\<forall>(t, c) \<in> set xs. clear BEGIN_CERT t \<and> clear END_CERT c" "find_sub BEGIN_CERT rest = None"
  shows "find_certs (concat (map (\<lambda>(t, c). t @ cert_block c) xs) @ rest) = map (\<lambda>(t, c). cert_block c) xs"
  using assms(1)
proof (induction xs)
  case Nil
  then show ?case by (simp add: find_certs.simps assms(2))
next
  case (Cons x xs)
  then show ?case by (cases x) (simp add: find_certs_step)
qed

lemma page_segment_section:
  assumes "clear name pre" "name \<noteq> []" "clear ''<h3'' (tl (name @ sec))"
  shows "page_segment (pre @ name @ sec @ ''<h3'' @ post) name = name @ sec"
proof -
  let ?p = "pre @ name @ sec @ ''<h3'' @ post"
  have i: "find_sub name ?p = Some (length pre)" using clear_find [OF assms(1)] by simp
  have "drop (length pre + 1) ?p = tl (name @ sec) @ ''<h3'' @ post" using assms(2) by (cases name) simp_all
  then have k: "find_sub ''<h3'' (drop (length pre + 1) ?p) = Some (length (tl (name @ sec)))"
    using clear_find [OF assms(3)] by simp
  have "length pre + 1 + length (tl (name @ sec)) = length pre + length (name @ sec)" using assms(2) by (cases name) simp_all
  then show ?thesis unfolding page_segment_def i option.simps k by (simp add: slice_def)
qed

section \<open>Properties\<close>

text \<open>C12: What a good row of the summary means. If a row has the binding, the report's signature, a chain, the
  region and an RSA signature, then the identity document of its run names a region, is signed under a
  certificate that stands in the section of that region on the page of AWS, and is the very document whose
  digest, after the nonce, is in the report; and the report is signed by a VLEK that leads to a self-signed
  root through the chain of the KDS and whose provider identifier contains the region.\<close>

theorem id_summary_sound:
  assumes "id_main P T page_text get ds = Inr rows" and "row \<in> set rows"
    and "ir_binding row" "ir_sig_ok row" "ir_chain_ok row = Some True" "ir_csp_region row" "ir_rsa row \<noteq> []"
  shows "\<exists>d \<in> set ds. \<exists>raw doc m region sent page vlek ask ark rest csp pem sig. id_report d = Some raw \<and> id_doc d = Some doc
    \<and> id_sentence d = Some sent \<and> json_loads_bytes doc = Inr (JObj m) \<and> map_of m ''region'' = Some (JStr region)
    \<and> report_data_of (take 1184 raw) = sha512 (sha512 (utf8 sent) @ sha256 doc)
    \<and> get DOCS = Inr page \<and> pem \<in> set (find_certs (page_segment (page_text page) (region_name region)))
    \<and> dgst_verify T (x509_pubkey T (pem @ [CHR 0x0A])) sig doc
    \<and> sig_ok (pki.truncate P) (take 1184 raw) vlek
    \<and> rbind (get (chain_url ''vlek'' ''Milan'')) (load_pem_chain P) = Inr (ask # ark # rest)
    \<and> issued (pki.truncate P) ask vlek \<and> issued (pki.truncate P) ark ask \<and> issued (pki.truncate P) ark ark
    \<and> csp_id (pki.truncate P) vlek = Some csp \<and> find_sub (utf8 region) csp \<noteq> None"
proof -
  let ?chain = "drop_error (rbind (get (chain_url ''vlek'' ''Milan'')) (load_pem_chain P))"
  obtain d raw where d: "d \<in> set ds" "id_report d = Some raw" and run: "id_run P T page_text get ?chain raw d = Inr row"
    by (rule id_main_row [OF assms(1,2)])
  show ?thesis
  proof (rule id_run_Inr [OF run], goal_cases)
    case (1 doc m region sent page p7 ps qs f vlek)
    obtain k where "k \<in> set qs" using assms(7) 1(12) by (cases qs) auto
    from id_certs_rsa [OF 1(8) this] obtain pem sig where
      pem: "(k, pem) \<in> set (enumerate 0 (find_certs (page_segment (page_text page) (region_name region))))"
        "dgst_verify T (x509_pubkey T (pem @ [CHR 0x0A])) sig doc" by blast
    then have in_page: "pem \<in> set (find_certs (page_segment (page_text page) (region_name region)))"
      by (auto simp: in_set_enumerate_eq)
    from assms(5) 1(14) obtain cs where cs: "?chain = Some cs" "chain_ok (pki.truncate P) vlek cs"
      by (auto split: option.splits list.splits)
    then obtain ask ark rest where chain: "rbind (get (chain_url ''vlek'' ''Milan'')) (load_pem_chain P) = Inr (ask # ark # rest)"
        "issued (pki.truncate P) ask vlek" "issued (pki.truncate P) ark ask" "issued (pki.truncate P) ark ark"
      by (auto simp: chain_ok_iff drop_error_def split: sum.splits)
    obtain csp where "csp_id (pki.truncate P) vlek = Some csp" "find_sub (utf8 region) csp \<noteq> None"
      using assms(6) 1(15) by (auto simp: csp_names_def split: option.splits)
    with d 1 chain in_page pem(2) assms(3,4) show ?thesis by blast
  qed
qed

text \<open>C38: The PKCS#7 verdict does not rest on the certificates of AWS. For the command as its manual describes
  it, a message that carries the certificate it is signed with, whoever made it, is listed as verified under
  every certificate found on the page.\<close>

theorem pkcs7_any_signer:
  assumes "smime_contract T held file signs" and "id_run P T page_text get chain raw d = Inr row"
    and "id_p7 d = Some p7" "id_doc d = Some doc" "k \<in> set (held (p7_text p7))" "signs k (p7_text p7) doc"
  shows "map fst (ir_pkcs7 row) = [0..<ir_certs row]"
proof (rule id_run_Inr [OF assms(2)], goal_cases)
  case (1 doc' m region sent page p7' ps qs f vlek)
  have "\<And>pem. smime_pem T (p7_text p7) doc pem" using assms(1,5,6) by (auto simp: smime_contract_def list_ex_iff)
  then have "map fst ps = map fst (enumerate 0 (find_certs (page_segment (page_text page) (region_name region))))"
    using id_certs_any [OF _ 1(8)] 1(1,7) assms(3,4) by simp
  then show ?case using 1(10,11) by (simp add: enumerate_eq_zip)
qed

text \<open>The certificates that are tried are those of the region's section, all of them and in order: where the
  page has the region's name, text and certificates up to the next heading, the list is exactly the blocks
  of that section.\<close>

theorem region_section_read:
  assumes "get DOCS = Inr b" and "page_text b = pre @ region_name region @ sec @ ''<h3'' @ post"
    and "clear (region_name region) pre" "region_name region \<noteq> []" "clear ''<h3'' (tl (region_name region @ sec))"
    and "region_name region @ sec = concat (map (\<lambda>(t, c). t @ cert_block c) xs) @ rest"
    and "\<forall>(t, c) \<in> set xs. clear BEGIN_CERT t \<and> clear END_CERT c" "find_sub BEGIN_CERT rest = None"
  shows "region_certs page_text get (JStr region) = Ok (map (\<lambda>(t, c). cert_block c) xs)"
proof -
  have "page_segment (page_text b) (region_name region) = region_name region @ sec"
    unfolding assms(2) by (rule page_segment_section) fact+
  then show ?thesis using find_certs_blocks [OF assms(7,8)] assms(6) by (simp add: region_certs_def assms(1) jstr_def)
qed

section \<open>Witnesses\<close>

text \<open>One run in a region \<open>r\<close> whose section on the page holds one certificate; the tools accept the message for
  a certificate of its own (number 0) and not for the one of the page (number 1).\<close>

definition demo_id_lib :: "nat id_lib" where
  "demo_id_lib = \<lparr>ecdsa384_ok = (\<lambda>_ _ _. True), is_rsa = (\<lambda>_. True), rsa_issued = (\<lambda>_ _. True), ec_issued = (\<lambda>_ _. False),
     exts = (\<lambda>_. [(CSP_OID, [0, 0] @ utf8 ''r'')]), subject = (\<lambda>_. ''s''), spki_der = (\<lambda>c. []), load_pem = (\<lambda>b. Ok 4),
     load_der = (\<lambda>b. Ok 4), load_pem_chain = (\<lambda>b. Ok [5, 6]), issue_error = (\<lambda>_ _. ''e''), sig_alg_name = (\<lambda>_. ''sha256WithRSAEncryption'')\<rparr>"

definition demo_doc :: json where
  "demo_doc = JObj [(''region'', JStr ''r'')]"

definition demo_page :: string where
  "demo_page = ''r'' @ cert_block ''c'' @ ''<h3''"

definition demo_tools :: smime_tools where
  "demo_tools = \<lparr>smime_pem = (\<lambda>p7 doc pem. list_ex (\<lambda>k. k = (0 :: nat)) ([0] @ [1])), x509_pubkey = Some \<circ> utf8, dgst_verify = (\<lambda>pub sig doc. pub \<noteq> None)\<rparr>"

definition demo_id :: id_files where
  "demo_id = \<lparr>id_meta = Some ''zone=z'', id_doc = Some (utf8 (json_dumps demo_doc)),
     id_report = Some (put_slice (zeros 1184) 0x50 0x90 (sha512 (sha512 (utf8 ''s'') @ sha256 (utf8 (json_dumps demo_doc))))),
     id_sentence = Some ''s'', id_p7 = Some '''', id_rsa = Some '''', id_vlek = Some [1]\<rparr>"

lemma demo_clear: "clear BEGIN_CERT ''r''" "clear END_CERT ''c''" "clear ''r'' ''''" "clear ''<h3'' (tl (''r'' @ cert_block ''c''))"
  by code_simp+

lemma demo_region: "find_certs (page_segment demo_page (region_name ''r'')) = [cert_block ''c'']"
proof -
  have "page_segment demo_page ''r'' = ''r'' @ cert_block ''c''"
    using page_segment_section [OF demo_clear(3) _ demo_clear(4), where post = "''''"] by (simp add: demo_page_def)
  then show ?thesis
    using find_certs_blocks [of "[(''r'', ''c'')]" "''''"] demo_clear(1,2) by (simp add: region_name_def REGION_NAMES_def BEGIN_CERT_def)
qed

lemma demo_id_runs:
  obtains row raw where "id_report demo_id = Some raw" "id_run demo_id_lib demo_tools (\<lambda>_. demo_page) (\<lambda>_. Ok []) (Some [5, 6]) raw demo_id = Inr row"
    "ir_binding row" "ir_sig_ok row" "ir_chain_ok row = Some True" "ir_csp_region row" "ir_rsa row \<noteq> []"
proof -
  define doc where "doc = utf8 (json_dumps demo_doc)"
  define rd where "rd = sha512 (sha512 (utf8 ''s'') @ sha256 doc)"
  define raw where "raw = put_slice (zeros 1184) 0x50 0x90 rd"
  have l: "length rd = 64" by (simp add: rd_def)
  have "length raw = 1184" unfolding raw_def using l by (subst length_put_slice) simp_all
  then have t: "take 1184 raw = raw" and "\<exists>f. parse raw = Inr f" by (simp, intro parse_long) simp
  then obtain f where f: "parse raw = Inr f" by blast
  have b: "slice raw 0x50 0x90 = rd" unfolding raw_def using l by (intro slice_put_same) simp_all
  have j: "json_loads_bytes doc = Ok demo_doc" unfolding doc_def by (rule json_loads_bytes_dumps) (simp add: demo_doc_def)
  have ji: "jitem demo_doc ''region'' = Ok (JStr ''r'')" "jget demo_doc ''availabilityZone'' = Ok JNull" "jget demo_doc ''instanceId'' = Ok JNull"
    by (simp_all add: demo_doc_def jitem_def jget_def of_option_def)
  have rc: "region_certs (\<lambda>_. demo_page) (\<lambda>_. Ok []) (JStr ''r'') = Ok [cert_block ''c'']"
    by (simp add: region_certs_def jstr_def demo_region)
  have alg: "is_rsa_alg ''sha256WithRSAEncryption''" by code_simp
  have csp: "csp_id (pki.truncate demo_id_lib) 4 = Some (utf8 ''r'')" by (simp add: csp_id_def ext_value_def demo_id_lib_def)
  have m: "key_values (split_ws ''zone=z'') = [(''zone'', ''z'')]"
    by (simp add: key_values_def split_eq_def split_ws.simps is_space_def)
  have f': "id_report demo_id = Some raw" "id_doc demo_id = Some doc" "id_sentence demo_id = Some ''s''" "id_meta demo_id = Some ''zone=z''"
      "id_p7 demo_id = Some ''''" "id_rsa demo_id = Some ''''" "id_vlek demo_id = Some [1]"
    by (simp_all add: demo_id_def raw_def rd_def doc_def)
  have ck: "id_certs demo_id_lib demo_tools p7 doc (Some '''') (enumerate 0 [cert_block ''c'']) = Ok ([(0, ''sha256WithRSAEncryption'')], [0])" for p7
    by (simp add: enumerate_eq_zip alg demo_id_lib_def demo_tools_def rsa_sig_def open_file_def b64decode_def of_option_def Let_def is_ascii_def)
  have lc: "load_cert (pki.truncate demo_id_lib) b = Ok 4" for b
    by (simp add: load_cert_def demo_id_lib_def pki.truncate_def)
  obtain row where r: "id_run demo_id_lib demo_tools (\<lambda>_. demo_page) (\<lambda>_. Ok []) (Some [5, 6]) raw demo_id = Inr row"
    "ir_binding row = (slice raw 0x50 0x90 = rd)" "ir_sig_ok row = sig_ok (pki.truncate demo_id_lib) raw 4"
    "ir_chain_ok row = Some (chain_ok (pki.truncate demo_id_lib) 4 [5, 6])" "ir_csp_region row = csp_names (JStr ''r'') (Some (utf8 ''r''))" "ir_rsa row = [0]"
    unfolding id_run_def f' open_file_def
    by (simp add: of_option_def m j t f rc ck lc csp ji rd_def Let_def del: enumerate_simps)
  have "sig_ok (pki.truncate demo_id_lib) raw 4" "chain_ok (pki.truncate demo_id_lib) 4 [5, 6]"
    by (simp_all add: sig_ok_def chain_ok_def issued_def demo_id_lib_def pki.truncate_def)
  moreover have "csp_names (JStr ''r'') (Some (utf8 ''r''))" by code_simp
  ultimately show thesis using f'(1) r b by (intro that [of raw row]) simp_all
qed

theorem id_summary_sound_witness:
  "\<exists>rows row vlek. id_main demo_id_lib demo_tools (\<lambda>_. demo_page) (\<lambda>_. Ok []) [demo_id] = Inr rows \<and> row \<in> set rows
    \<and> csp_id (pki.truncate demo_id_lib) vlek \<noteq> None"
proof -
  obtain row raw where r: "id_report demo_id = Some raw" "id_run demo_id_lib demo_tools (\<lambda>_. demo_page) (\<lambda>_. Ok []) (Some [5, 6]) raw demo_id = Inr row"
    "ir_binding row" "ir_sig_ok row" "ir_chain_ok row = Some True" "ir_csp_region row" "ir_rsa row \<noteq> []" by (rule demo_id_runs)
  have "load_pem_chain demo_id_lib [] = Ok [5, 6]" by (simp add: demo_id_lib_def)
  then have m: "id_main demo_id_lib demo_tools (\<lambda>_. demo_page) (\<lambda>_. Ok []) [demo_id] = Inr [row]"
    by (simp add: id_main_def r(1,2) drop_error_def)
  show ?thesis using id_summary_sound [OF m _ r(3-7)] m by auto
qed

theorem pkcs7_any_signer_witness:
  "\<exists>row raw. id_run demo_id_lib demo_tools (\<lambda>_. demo_page) (\<lambda>_. Ok []) (Some [5, 6]) raw demo_id = Inr row
    \<and> map fst (ir_pkcs7 row) = [0..<ir_certs row]"
proof -
  have "smime_contract demo_tools (\<lambda>_. [0]) (\<lambda>_. [1]) (\<lambda>k p7 doc. k = (0 :: nat))"
    by (simp add: smime_contract_def demo_tools_def)
  moreover obtain row raw where "id_run demo_id_lib demo_tools (\<lambda>_. demo_page) (\<lambda>_. Ok []) (Some [5, 6]) raw demo_id = Inr row"
    by (rule demo_id_runs)
  moreover have "id_p7 demo_id = Some ''''" "id_doc demo_id = Some (utf8 (json_dumps demo_doc))" by (simp_all add: demo_id_def)
  ultimately show ?thesis using pkcs7_any_signer [where k = 0] by fastforce
qed

theorem region_section_read_witness:
  "region_certs (\<lambda>_. demo_page) (\<lambda>_. Ok []) (JStr ''r'') = Ok (map (\<lambda>(t, c). cert_block c) [(''r'', ''c'')])"
  by (rule region_section_read [where pre = "''''" and sec = "cert_block ''c''" and post = "''''" and rest = "''''"])
    (use demo_clear in \<open>simp_all add: demo_page_def region_name_def REGION_NAMES_def BEGIN_CERT_def\<close>)

end
