(* ===== verification/GuestRun.thy ===== *)
theory GuestRun
  imports EarlyAttest Json
begin

text \<open>
  The programs around the binder: the guest's \<open>handshake_stdlib.py\<close> that captures a handshake and writes the
  files of a run, and the self-tests of \<open>binder.py\<close> and \<open>handshake.py\<close>. The files a guest writes are the files
  \<open>verify_run.py\<close> reads.
\<close>

section \<open>The guest\<close>

record guest_files =
  gf_transcript :: bytes
  gf_report_data :: bytes
  gf_hs :: json

text \<open>What is dumped into \<open>cap-hs.json\<close>.\<close>

definition hs_json :: "string \<Rightarrow> string \<Rightarrow> bytes \<Rightarrow> bytes \<Rightarrow> bytes \<Rightarrow> bytes \<Rightarrow> json" where
  "hs_json suite hn tr spki binder rd = JObj [(''suite'', JStr suite), (''hash'', JStr hn), (''transcript_len'', JNum (dec (int (length tr)))),
     (''transcript_sha256'', JStr (hex (sha256 tr))), (''spki_sha256'', JStr (hex (sha256 spki))),
     (''binder'', JStr (hex binder)), (''report_data'', JStr (hex rd))]"

definition stdlib_main :: "'c endpoint \<Rightarrow> 's endpoint \<Rightarrow> 'c \<Rightarrow> 's \<Rightarrow> bytes option \<Rightarrow> guest_files res" where
  "stdlib_main C S c s spki_path = rbind (read_file spki_path) (\<lambda>spki.
     rbind (stdlib_capture C S c s) (\<lambda>(tr, hn, suite).
     rbind (stdlib_server_binder tr spki hn) (\<lambda>binder. let rd = stdlib_report_data binder in
     Ok \<lparr>gf_transcript = tr, gf_report_data = rd, gf_hs = hs_json suite hn tr spki binder rd\<rparr>)))"

section \<open>The self-test of binder.py\<close>

definition SELF_TR :: bytes where
  "SELF_TR = concat (replicate 4 (map word_of_nat [0..<256]))"

definition SELF_S :: bytes where "SELF_S = utf8 ''SERVER-SPKI-DER-example-0123456789''"
definition SELF_A :: bytes where "SELF_A = utf8 ''ATTACKER-SPKI-DER-example-different''"

definition assert :: "bool \<Rightarrow> (unit \<Rightarrow> 'a res) \<Rightarrow> 'a res" where
  "assert b k = rbind (rassert b AssertionError) k"

definition selftest_for :: "string \<Rightarrow> unit res" where
  "selftest_for hn = rbind (HASHES hn) (\<lambda>h. let hlen = digest_size h in
     rbind (server_binder SELF_TR SELF_S hn) (\<lambda>b_S. assert (length b_S = hlen) (\<lambda>_.
     rbind (server_binder SELF_TR SELF_S hn) (\<lambda>b. assert (b = b_S) (\<lambda>_.
     rbind (server_binder (SELF_TR @ utf8 ''x'') SELF_S hn) (\<lambda>b. assert (b \<noteq> b_S) (\<lambda>_.
     rbind (server_binder SELF_TR SELF_A hn) (\<lambda>b. assert (b \<noteq> b_S) (\<lambda>_.
     rbind (client_binder SELF_TR SELF_S hn) (\<lambda>b. assert (b = b_S) (\<lambda>_.
     rbind (client_binder SELF_TR SELF_A hn) (\<lambda>b. assert (b \<noteq> b_S) (\<lambda>_.
     rbind (into_report_data b_S) (\<lambda>rd. assert (length rd = 64) (\<lambda>_. Ok ())))))))))))))))"

definition binder_selftest :: "bytes res" where
  "binder_selftest = rbind (rmap selftest_for [''sha384'', ''sha256'']) (\<lambda>_.
     hkdf_expand_label (zeros 32) ''attestation'' [] 32 ''sha256'')"

section \<open>The self-test of handshake.py\<close>

text \<open>Two handshakes with the same key, from the states \<open>c\<close>, \<open>s\<close> and \<open>c2\<close>, \<open>s2\<close>; the two binders and the REPORT_DATA.\<close>

definition handshake_selftest :: "'c endpoint \<Rightarrow> 's endpoint \<Rightarrow> 'c \<Rightarrow> 's \<Rightarrow> 'c \<Rightarrow> 's \<Rightarrow> bytes \<Rightarrow> (bytes \<times> bytes \<times> bytes) res" where
  "handshake_selftest C S c s c2 s2 tik_spki =
     rbind (do_handshake_capture C S c s tik_spki) (\<lambda>(tr, spki, hn, suite).
     rbind (server_binder tr spki hn) (\<lambda>b_srv.
     rbind (do_handshake_capture C S c2 s2 tik_spki) (\<lambda>(tr2, spki2, hn2, _). assert (spki = spki2 \<and> hn = hn2) (\<lambda>_.
     rbind (server_binder tr2 spki2 hn2) (\<lambda>b_srv2. rbind (byte_at tr 0) (\<lambda>_.
     assert (b_srv \<noteq> b_srv2) (\<lambda>_. rbind (into_report_data b_srv) (\<lambda>rd. Ok (b_srv, b_srv2, rd)))))))))"

section \<open>Lemmas\<close>

lemma assert_simps [simp]: "assert True k = k ()" "assert False k = Err AssertionError"
  by (simp_all add: assert_def rassert_def)

lemma selftest_for_passes:
  assumes "HASHES hn = Inr h"
    and "\<not> hash_collision h (binder_hash_inputs h SELF_TR SELF_S) (binder_hash_inputs h (SELF_TR @ utf8 ''x'') SELF_S)"
    and "\<not> hash_collision h (binder_hash_inputs h SELF_TR SELF_S) (binder_hash_inputs h SELF_TR SELF_A)"
  shows "selftest_for hn = Ok ()"
proof -
  have fn: "hash_fn h" using assms(1) by (rule HASHES_hash_fn)
  have "utf8 ''x'' \<noteq> []" by (simp add: utf8_ascii is_ascii_def)
  then have x: "binder_value h (SELF_TR @ utf8 ''x'') SELF_S \<noteq> binder_value h SELF_TR SELF_S"
    using binder_clash [OF fn _ assms(2)] by fastforce
  have "SELF_S \<noteq> SELF_A" by (simp add: SELF_S_def SELF_A_def utf8_ascii is_ascii_def char_byte_def)
  then have a: "binder_value h SELF_TR SELF_A \<noteq> binder_value h SELF_TR SELF_S"
    using binder_clash [OF fn _ assms(3)] by fastforce
  have c: "client_binder tr spki hn = server_binder tr spki hn" for tr spki by (simp add: client_binder_def server_binder_def)
  show ?thesis
    using x a hash_fn.digest_size_64 [OF fn]
    by (simp add: selftest_for_def assms(1) server_binder_value [OF assms(1)] c into_report_data_binder [OF fn] length_binder_value [OF fn])
qed

lemma hash_field_dump: "hash_field (json_dumps (hs_json suite hn tr spki b rd)) = Ok (JStr hn)"
proof -
  have "json_ok (hs_json suite hn tr spki b rd)" unfolding hs_json_def using json_ok_nat by simp
  then show ?thesis by (simp add: hash_field_def json_loads_dumps) (simp add: hs_json_def jitem_def of_option_def)
qed

section \<open>Properties\<close>

text \<open>C11: A run of the guest's program is a run its verifier accepts. Whatever handshake it captured, if the
  firmware put the REPORT_DATA file into a report that a certificate of the guest's directory or of the KDS
  signs and that certificate chains, then \<open>verify_run.py\<close>, reading the files as written (the hash name out of
  the dumped JSON), accepts the guest and shows the digests of its transcript and key.\<close>

theorem guest_run_accepted:
  assumes "stdlib_main C S c s (spki_file d) = Ok g"
    and "cap_transcript d = Some (gf_transcript g)" "hs_file d = Some (json_dumps (gf_hs g))"
    and "report_binder d = Some raw" "0x188 \<le> length (take 1184 raw)" "report_data_of (take 1184 raw) = gf_report_data g"
    and "meta d = Some text" "find_vcek P get d (take 1184 raw) = Ok (Some cert)" "sig_ok P (take 1184 raw) cert"
    and "chain_verified P (Some cert) (fetch_chain P get) = Some True"
  shows "\<exists>v spki. one P get d = Ok v \<and> gv_accept v \<and> spki_file d = Some spki \<and> gv_spki_sha256 v = take 16 (hex (sha256 spki))
    \<and> gv_transcript_sha256 v = take 16 (hex (sha256 (gf_transcript g)))"
proof -
  from assms(1) obtain spki tr hn suite b where g: "spki_file d = Some spki" "stdlib_capture C S c s = Ok (tr, hn, suite)"
      "stdlib_server_binder tr spki hn = Ok b" "g = \<lparr>gf_transcript = tr, gf_report_data = stdlib_report_data b, gf_hs = hs_json suite hn tr spki b (stdlib_report_data b)\<rparr>"
    by (auto simp: stdlib_main_def Let_def res_iff)
  have h: "hs_value d = Ok (JStr hn)" using assms(3) by (simp add: hs_value_def g(4) hash_field_dump)
  have b: "server_binder tr spki hn = Ok b" using stdlib_binder_agrees [of tr spki hn] g(3) by simp
  have rd: "into_report_data b = Ok (stdlib_report_data b)"
    using stdlib_binder_agrees [of tr spki hn] g(3) b by (metis rbind_simps(2))
  have f: "unpack_le 4 (take 1184 raw) 0x48 = Inr (from_little (slice (take 1184 raw) 0x48 (0x48 + 4)))"
    using assms(5) by (simp add: unpack_le_Inr_iff)
  have files: "read_file (cap_transcript d) = Ok tr" "read_file (spki_file d) = Ok spki" "read_file (report_binder d) = Ok raw"
      "read_file (meta d) = Ok text" and r: "report_data_of (take 1184 raw) = stdlib_report_data b"
    using assms(2,4,6,7) g(1,4) by (simp_all add: read_file_def of_option_def)
  show ?thesis
    unfolding one_eqn files
    by (simp add: h hash_name_def b rd assms(8-10) r f g(1,4) Let_def)
qed

text \<open>The self-test of \<open>binder.py\<close> reaches its last line, with a known-answer value of 32 bytes, unless SHA-256
  or SHA-384 collides on the inputs of two of its own binders.\<close>

theorem binder_selftest_passes:
  "(\<exists>v. binder_selftest = Ok v \<and> length v = 32)
   \<or> (\<exists>h \<in> {sha256_alg, sha384_alg}.
       hash_collision h (binder_hash_inputs h SELF_TR SELF_S) (binder_hash_inputs h (SELF_TR @ utf8 ''x'') SELF_S)
       \<or> hash_collision h (binder_hash_inputs h SELF_TR SELF_S) (binder_hash_inputs h SELF_TR SELF_A))"
proof (rule disjCI)
  assume no: "\<not> (\<exists>h \<in> {sha256_alg, sha384_alg}.
       hash_collision h (binder_hash_inputs h SELF_TR SELF_S) (binder_hash_inputs h (SELF_TR @ utf8 ''x'') SELF_S)
       \<or> hash_collision h (binder_hash_inputs h SELF_TR SELF_S) (binder_hash_inputs h SELF_TR SELF_A))"
  have t: "selftest_for ''sha384'' = Ok ()" by (rule selftest_for_passes [OF HASHES_known(2)]) (use no in simp_all)
  have u: "selftest_for ''sha256'' = Ok ()" by (rule selftest_for_passes [OF HASHES_known(1)]) (use no in simp_all)
  have "length (utf8 ''attestation'') = 11" by (simp add: length_utf8_ascii is_ascii_def)
  then obtain l where "hkdf_label 32 ''attestation'' [] = Ok l" by (auto simp: hkdf_label_Inr_iff)
  moreover have "digest_size sha256_alg = 32" by (simp add: sha256_alg_def)
  then have "\<exists>v. hkdf_expand (zeros 32) l 32 ''sha256'' = Ok v \<and> length v = 32"
    using hkdf_expand_ok [OF HASHES_known(1), of 32 "zeros 32" l]
      hash_fn.blocks_cover [OF HASHES_hash_fn [OF HASHES_known(1)], of 32]
    by (simp add: hash_fn.length_hkdf_okm [OF HASHES_hash_fn [OF HASHES_known(1)]])
  ultimately show "\<exists>v. binder_selftest = Ok v \<and> length v = 32"
    by (simp add: binder_selftest_def t u hkdf_expand_label_def)
qed

text \<open>The self-test of \<open>handshake.py\<close> tells two sessions apart: with two captured handshakes under one hash it
  returns their binders and a REPORT_DATA of 64 bytes when the transcripts differ, unless the hash collides on
  the inputs of the two, and it stops on its assertion when they are the same.\<close>

theorem handshake_selftest_result:
  assumes "do_handshake_capture C S c s spki = Ok (tr, spki, hn, suite)" and "do_handshake_capture C S c2 s2 spki = Ok (tr2, spki, hn, suite2)"
  shows "if tr = tr2 then handshake_selftest C S c s c2 s2 spki = Err AssertionError
    else (\<exists>b b2 rd. handshake_selftest C S c s c2 s2 spki = Ok (b, b2, rd) \<and> b \<noteq> b2 \<and> length rd = 64
        \<and> server_binder tr spki hn = Ok b \<and> server_binder tr2 spki hn = Ok b2)
      \<or> (\<exists>h. HASHES hn = Ok h \<and> hash_collision h (binder_hash_inputs h tr spki) (binder_hash_inputs h tr2 spki))"
proof -
  from capture_shape [OF assms(1)] obtain h ch sh where h: "HASHES hn = Inr h" and "tr = ch @ sh" "4 \<le> length ch" by blast
  then have ne: "0 < length tr" by auto
  have fn: "hash_fn h" using h by (rule HASHES_hash_fn)
  have t: "byte_at tr 0 = Ok (uint (tr ! 0))" using ne by (simp add: byte_at_Inr_iff)
  have run: "handshake_selftest C S c s c2 s2 spki = (if binder_value h tr spki \<noteq> binder_value h tr2 spki
      then Ok (binder_value h tr spki, binder_value h tr2 spki, binder_value h tr spki @ zeros (64 - digest_size h)) else Err AssertionError)"
    using into_report_data_binder [OF fn, of tr spki]
    by (simp add: handshake_selftest_def assms server_binder_value [OF h] t)
  have len: "length (binder_value h tr spki @ zeros (64 - digest_size h)) = 64"
    by (simp add: length_binder_value [OF fn] hash_fn.digest_size_64 [OF fn])
  show ?thesis
  proof (cases "binder_value h tr spki = binder_value h tr2 spki")
    case True
    then have "tr = tr2 \<or> hash_collision h (binder_hash_inputs h tr spki) (binder_hash_inputs h tr2 spki)"
      using binder_clash [OF fn True] by blast
    then show ?thesis using True run h by auto
  next
    case False
    then show ?thesis using run len server_binder_value [OF h] by auto
  qed
qed

section \<open>Witnesses\<close>

theorem guest_run_accepted_witness:
  "\<exists>g raw v. stdlib_main demo_client demo_server () () (Some [42]) = Ok g
    \<and> one demo_pki (\<lambda>u. Ok []) \<lparr>cap_transcript = Some (gf_transcript g), spki_file = Some [42], report_binder = Some raw,
        hs_file = Some (json_dumps (gf_hs g)), meta = Some '''', cert_vcek = Some [0]\<rparr> = Ok v \<and> gv_accept v"
proof -
  have "stdlib_capture demo_client demo_server () () = Ok ([1, 0, 0, 0, 2, 0, 0, 0], ''sha256'', ''TLS_AES_128_GCM_SHA256'')"
    using captures_agree [of demo_client demo_server "()" "()" "[42]"] by (simp add: demo_capture)
  moreover obtain b where b: "server_binder [1, 0, 0, 0, 2, 0, 0, 0] [42] ''sha256'' = Ok b" "length b = 32"
    using server_binder_value [OF HASHES_known(1)] length_binder_value [OF sha256h.hash_fn_axioms]
    by (simp add: sha256_alg_def)
  ultimately obtain g where g: "stdlib_main demo_client demo_server () () (Some [42]) = Ok g"
      "gf_transcript g = [1, 0, 0, 0, 2, 0, 0, 0]" "gf_report_data g = b @ zeros 32"
    by (simp add: stdlib_main_def read_file_def of_option_def stdlib_binder_agrees stdlib_report_data_def Let_def)
  have rd: "length (gf_report_data g) = 64" using g(3) b(2) by simp
  from genuine_signs [OF demo_genuine rd] obtain raw where raw: "sign_report (demo_chip 7) (zeros 32) (gf_report_data g) = Inr raw" by blast
  have chip: "length (mc_chip_id (demo_chip 7)) = 64" by (simp add: demo_chip_def)
  note f = sign_report_fields [OF raw chip length_zeros]
  have t: "take 1184 raw = raw" using f by simp
  have sig: "sig_ok demo_pki raw 2"
    using demo_genuine [of 7 2] by (intro sign_report_sig_ok [OF raw chip length_zeros]) (simp add: genuine_def)
  let ?d = "\<lparr>cap_transcript = Some (gf_transcript g), spki_file = Some [42], report_binder = Some raw,
        hs_file = Some (json_dumps (gf_hs g)), meta = Some '''', cert_vcek = Some [0]\<rparr>"
  have v: "find_vcek demo_pki (\<lambda>u. Ok []) ?d (take 1184 raw) = Ok (Some 2)"
    using f by (simp add: find_vcek_eqn unpack_le_def load_cert_def demo_pki_def)
  have c: "chain_verified demo_pki (Some 2) (fetch_chain demo_pki (\<lambda>u. Ok [])) = Some True"
    by (simp add: chain_verified_eqn chain_ok_def issued_def demo_pki_def fetch_chain_def try_opt_def)
  have "stdlib_main demo_client demo_server () () (spki_file ?d) = Ok g" using g(1) by simp
  from guest_run_accepted [OF this _ _ _ _ _ _ v _ c] f sig g(1) t show ?thesis by (fastforce simp del: json_dumps.simps)
qed

theorem handshake_selftest_result_witness:
  "handshake_selftest demo_client demo_server () () () () [42] = Err AssertionError"
  using handshake_selftest_result [OF demo_capture demo_capture] by simp

end
