(* ===== verification/Server.thy ===== *)
theory Server
  imports Exporter CborDiag
begin

text \<open>
  The loop of the guest's server (\<open>server.py\<close> of the exporter run): connections are accepted one after the
  other until a deadline, each is served inside a \<open>try\<close> block, and each leaves one record, whatever failed.
  \<open>Exporter\<close> has what one session sends; here are the records and the files.
\<close>

section \<open>One connection\<close>

text \<open>The connection: its peer, the time, what the TLS package does with it, and what arrives on it.\<close>

record conn =
  cn_peer :: string
  cn_time :: string
  cn_handshake :: "unit res"
  cn_version :: string
  cn_exporter :: bytes
  cn_in :: incoming
  cn_send :: "bytes \<Rightarrow> unit res"

text \<open>\<open>rec\<close>; the last field is the exception behind \<open>"error"\<close>.\<close>

record session =
  ss_n :: nat
  ss_peer :: string
  ss_time :: string
  ss_nonce :: "string option"
  ss_exporter :: "string option"
  ss_tls :: "string option"
  ss_ok :: bool
  ss_error :: "pyerr option"

text \<open>The session of \<^const>\<open>serve\<close> with the values that are kept: nonce, the two reports, the answer.\<close>

definition serve_all :: "guest \<Rightarrow> bytes \<Rightarrow> incoming \<Rightarrow> (bytes \<times> bytes \<times> bytes \<times> bytes) res" where
  "serve_all g exporter ps =
     rbind (recv_line (Some 200) [] ps) (\<lambda>(line, _).
     rbind (of_option (Raised ''UnicodeDecodeError'' '''') (utf8_decode (strip_bytes line))) (\<lambda>text0.
     rbind (fromhex text0) (\<lambda>N.
     rbind (snp_report g (sha512 (N @ exporter))) (\<lambda>r_exp.
     rbind (snp_report g (sha512 (N @ guest_spki g))) (\<lambda>r_key.
     rbind (frame (utf8 (json_dumps (blob_of g N exporter r_exp r_key)))) (\<lambda>out. Ok (N, r_exp, r_key, out)))))))"

text \<open>\<open>f"{n:02d}"\<close> and the file names.\<close>

definition two_digits :: "nat \<Rightarrow> string" where
  "two_digits n = (if n < 10 then ''0'' @ dec_nat n else dec_nat n)"

definition session_file :: "string \<Rightarrow> nat \<Rightarrow> string" where
  "session_file kind n = ''session-'' @ two_digits n @ ''-report-'' @ kind @ ''.bin''"

text \<open>Writing files in order; \<open>W\<close> opens a name for writing. What was written before a failure stays.\<close>

type_synonym disk = "(string \<times> bytes) list"

fun write_files :: "(string \<Rightarrow> unit res) \<Rightarrow> (string \<times> bytes) list \<Rightarrow> disk \<Rightarrow> disk \<times> pyerr option" where
  "write_files W [] d = (d, None)"
| "write_files W ((n, b) # fs) d = (case W n of Inl e \<Rightarrow> (d, Some e) | Inr _ \<Rightarrow> write_files W fs (AList.update n b d))"

definition handle :: "(string \<Rightarrow> unit res) \<Rightarrow> guest \<Rightarrow> nat \<Rightarrow> conn \<Rightarrow> disk \<Rightarrow> disk \<times> session" where
  "handle W g n c d =
     (let failed = (\<lambda>e. \<lparr>ss_n = n, ss_peer = cn_peer c, ss_time = cn_time c, ss_nonce = None, ss_exporter = None, ss_tls = None,
            ss_ok = False, ss_error = Some e\<rparr>) in
      case rbind (cn_handshake c) (\<lambda>_. rbind (serve_all (g\<lparr>protocol_version := cn_version c\<rparr>) (cn_exporter c) (cn_in c)) (\<lambda>(N, r_exp, r_key, out).
          rbind (cn_send c out) (\<lambda>_. Ok (N, r_exp, r_key)))) of
        Inl e \<Rightarrow> (d, failed e)
      | Inr (N, r_exp, r_key) \<Rightarrow>
          (case write_files W [(session_file ''exporter'' n, r_exp), (session_file ''key'' n, r_key)] d of
             (d', Some e) \<Rightarrow> (d', failed e)
           | (d', None) \<Rightarrow> (d', \<lparr>ss_n = n, ss_peer = cn_peer c, ss_time = cn_time c, ss_nonce = Some (take 16 (hex N) @ ''...''),
               ss_exporter = Some (hex (cn_exporter c)), ss_tls = Some (cn_version c), ss_ok = True, ss_error = None\<rparr>)))"

section \<open>The loop\<close>

text \<open>A turn of the loop: the clock at its head, and the connection \<open>accept\<close> returns or \<open>None\<close> when it times
  out. The clock does not stop, so the list of turns ends.\<close>

type_synonym turn = "int \<times> conn option"

fun server_loop :: "(string \<Rightarrow> unit res) \<Rightarrow> guest \<Rightarrow> int \<Rightarrow> nat \<Rightarrow> disk \<Rightarrow> session list \<Rightarrow> turn list \<Rightarrow> disk \<times> session list" where
  "server_loop W g deadline n d sessions [] = (d, sessions)"
| "server_loop W g deadline n d sessions ((now, ev) # ts) =
     (if now < deadline then
        (case ev of None \<Rightarrow> server_loop W g deadline n d sessions ts
         | Some c \<Rightarrow> (case handle W g (n + 1) c d of (d', r) \<Rightarrow> server_loop W g deadline (n + 1) d' (sessions @ [r]) ts))
      else (d, sessions))"

definition server_main :: "(string \<Rightarrow> unit res) \<Rightarrow> guest \<Rightarrow> int \<Rightarrow> turn list \<Rightarrow> disk \<times> session list" where
  "server_main W g start ts = server_loop W g (start + 15 * 60) 0 [] [] ts"

section \<open>Lemmas\<close>

text \<open>The connections met before the deadline.\<close>

definition met :: "int \<Rightarrow> turn list \<Rightarrow> conn list" where
  "met deadline ts = concat (map (\<lambda>(now, ev). case ev of None \<Rightarrow> [] | Some c \<Rightarrow> [c]) (takeWhile (\<lambda>(now, ev). now < deadline) ts))"

lemma met_simps [simp]:
  "met deadline [] = []"
  "met deadline ((now, ev) # ts) = (if now < deadline then (case ev of None \<Rightarrow> [] | Some c \<Rightarrow> [c]) @ met deadline ts else [])"
  by (simp_all add: met_def)

lemma serve_serve_all: "serve g e ps = rbind (serve_all g e ps) (\<lambda>(N, a, b, out). Ok out)"
proof -
  have f: "rbind r (\<lambda>x. Ok x) = r" for r :: "bytes res" by (cases r) simp_all
  show ?thesis by (simp add: serve_def serve_all_def rbind_assoc case_prod_unfold f)
qed

lemma two_digits_value: "dig_val (two_digits n) = n" "\<forall>c \<in> set (two_digits n). is_dig c"
proof -
  have z: "dig_val (''0'' @ s) = dig_val s" for s by (simp add: dig_val_def)
  show "dig_val (two_digits n) = n" unfolding two_digits_def using dec_nat_digits [of n] z by simp
  have "is_dig (CHR ''0'')" by (simp add: is_dig_def)
  then show "\<forall>c \<in> set (two_digits n). is_dig c" using dec_nat_digits [of n] by (auto simp: two_digits_def)
qed

lemma session_file_inj: "session_file k n = session_file k' n' \<Longrightarrow> n = n' \<and> k = k'"
proof -
  assume eq: "session_file k n = session_file k' n'"
  have d: "takeWhile is_dig (two_digits n @ ''-report-'' @ r) = two_digits n" for n r
    using two_digits_value(2) [of n] by (simp add: is_dig_def)
  have s: "two_digits n @ ''-report-'' @ k @ ''.bin'' = two_digits n' @ ''-report-'' @ k' @ ''.bin''"
    using eq by (simp add: session_file_def)
  have t: "two_digits n = two_digits n'" using arg_cong [OF s, of "takeWhile is_dig"] unfolding d .
  then have "n = n'" using two_digits_value(1) by metis
  with eq t show ?thesis by (simp add: session_file_def)
qed

lemma handle_record:
  "ss_n (snd (handle W g n c d)) = n" "ss_peer (snd (handle W g n c d)) = cn_peer c" "ss_time (snd (handle W g n c d)) = cn_time c"
  by (auto simp: handle_def Let_def split: sum.splits prod.splits option.splits)

text \<open>What a session keeps: the files of other sessions are left alone.\<close>

lemma handle_disk:
  assumes "m \<noteq> n"
  shows "map_of (fst (handle W g n c d)) (session_file k m) = map_of d (session_file k m)"
proof -
  have "session_file k m \<noteq> session_file k' n" for k' using session_file_inj assms by metis
  then show ?thesis by (auto simp: handle_def Let_def update_conv' split: sum.splits prod.splits option.splits if_splits)
qed

text \<open>The files of a good session hold the reports over its own nonce.\<close>

definition kept :: "guest \<Rightarrow> disk \<Rightarrow> conn \<Rightarrow> session \<Rightarrow> bool" where
  "kept g d c r \<longleftrightarrow> (\<exists>N a b out. serve_all (g\<lparr>protocol_version := cn_version c\<rparr>) (cn_exporter c) (cn_in c) = Ok (N, a, b, out)
     \<and> cn_send c out = Ok () \<and> ss_nonce r = Some (take 16 (hex N) @ ''...'')
     \<and> snp_report g (sha512 (N @ cn_exporter c)) = Ok a \<and> snp_report g (sha512 (N @ guest_spki g)) = Ok b
     \<and> map_of d (session_file ''exporter'' (ss_n r)) = Some a \<and> map_of d (session_file ''key'' (ss_n r)) = Some b)"

lemma serve_all_reports:
  assumes "serve_all g e ps = Inr (N, a, b, out)"
  shows "snp_report g (sha512 (N @ e)) = Inr a \<and> snp_report g (sha512 (N @ guest_spki g)) = Inr b"
  using assms by (auto simp: serve_all_def rbind_Inr_iff)

lemma handle_kept:
  assumes "handle W g n c d = (d', r)" "ss_ok r"
  shows "kept g d' c r"
proof -
  from assms obtain N a b out where s: "serve_all (g\<lparr>protocol_version := cn_version c\<rparr>) (cn_exporter c) (cn_in c) = Inr (N, a, b, out)"
      "cn_send c out = Inr ()"
    and w: "write_files W [(session_file ''exporter'' n, a), (session_file ''key'' n, b)] d = (d', None)"
    and r: "ss_nonce r = Some (take 16 (hex N) @ ''...'')" "ss_n r = n"
    by (auto simp: handle_def Let_def rbind_Inr_iff split: sum.splits prod.splits option.splits if_splits)
  have ne: "session_file ''exporter'' n \<noteq> session_file ''key'' n" using session_file_inj [of "''exporter''" n "''key''" n] by auto
  from w have "d' = AList.update (session_file ''key'' n) b (AList.update (session_file ''exporter'' n) a d)"
    by (auto split: sum.splits)
  then have "map_of d' (session_file ''exporter'' n) = Some a" "map_of d' (session_file ''key'' n) = Some b"
    using ne by (simp_all add: update_conv')
  with s r serve_all_reports [OF s(1)] show ?thesis unfolding kept_def by auto
qed

lemma kept_later: "kept g d c r \<Longrightarrow> ss_n r \<noteq> n \<Longrightarrow> kept g (fst (handle W g n c' d)) c r"
  using handle_disk [of "ss_n r" n] unfolding kept_def by fastforce

text \<open>The invariant of the loop: one record per connection met, numbered from 1, and the good ones kept.\<close>

definition logged :: "guest \<Rightarrow> nat \<Rightarrow> disk \<Rightarrow> session list \<Rightarrow> conn list \<Rightarrow> bool" where
  "logged g n d rs cs \<longleftrightarrow> length rs = n \<and> length cs = n \<and>
     (\<forall>i < n. ss_n (rs ! i) = i + 1 \<and> ss_peer (rs ! i) = cn_peer (cs ! i) \<and> ss_time (rs ! i) = cn_time (cs ! i)
       \<and> (ss_ok (rs ! i) \<longrightarrow> kept g d (cs ! i) (rs ! i)))"

lemma logged_step:
  assumes "logged g n d rs cs" "handle W g (n + 1) c d = (d', r)"
  shows "logged g (n + 1) d' (rs @ [r]) (cs @ [c])"
proof -
  have len: "length rs = n" "length cs = n" using assms(1) by (simp_all add: logged_def)
  have r: "ss_n r = n + 1" "ss_peer r = cn_peer c" "ss_time r = cn_time c" using handle_record [of W g "n + 1" c d] assms(2) by simp_all
  have old: "kept g d (cs ! i) (rs ! i) \<Longrightarrow> kept g d' (cs ! i) (rs ! i)" if "i < n" for i
    using kept_later [of g d "cs ! i" "rs ! i" "n + 1" W c] assms that by (simp add: logged_def)
  have "ss_n ((rs @ [r]) ! i) = i + 1 \<and> ss_peer ((rs @ [r]) ! i) = cn_peer ((cs @ [c]) ! i)
      \<and> ss_time ((rs @ [r]) ! i) = cn_time ((cs @ [c]) ! i)
      \<and> (ss_ok ((rs @ [r]) ! i) \<longrightarrow> kept g d' ((cs @ [c]) ! i) ((rs @ [r]) ! i))" if "i < n + 1" for i
  proof (cases "i < n")
    case True
    then show ?thesis using assms(1) old [OF True] by (simp add: logged_def nth_append)
  next
    case False
    then have "i = n" using that by simp
    then show ?thesis using r len handle_kept [OF assms(2)] by (simp add: nth_append)
  qed
  then show ?thesis unfolding logged_def using len by simp
qed

lemma server_loop_logged:
  assumes "logged g n d rs cs" "server_loop W g deadline n d rs ts = (d', rs')"
  shows "logged g (length cs + length (met deadline ts)) d' rs' (cs @ met deadline ts)"
  using assms
proof (induction W g deadline n d rs ts arbitrary: cs rule: server_loop.induct)
  case (1 W g deadline n d rs)
  then show ?case by (auto simp: logged_def)
next
  case (2 W g deadline n d rs now ev ts)
  show ?case
  proof (cases "now < deadline")
    case False
    then show ?thesis using 2(3,4) by (auto simp: logged_def)
  next
    case now: True
    show ?thesis
    proof (cases ev)
      case None
      then show ?thesis using 2(1) [OF now None 2(3)] 2(4) now by simp
    next
      case (Some c)
      obtain d1 r where h: "handle W g (n + 1) c d = (d1, r)" by fastforce
      have "logged g (length (cs @ [c]) + length (met deadline ts)) d' rs' ((cs @ [c]) @ met deadline ts)"
        by (rule 2(2) [OF now Some h [symmetric] logged_step [OF 2(3) h]]) (use 2(4) now Some h in simp)
      then show ?thesis using now Some by simp
    qed
  qed
qed

section \<open>Property\<close>

text \<open>C24: Every connection accepted before the deadline leaves exactly one record, numbered in the order of
  arrival from 1 and with its own peer and time, whatever fails in it or in the others; and at the end the
  two files of every session recorded as good hold the reports the firmware gave for that session's nonce
  and exporter and for its nonce and key, so no later session overwrote them.\<close>

theorem every_session_recorded:
  assumes "server_main W g start ts = (d, rs)"
  shows "length rs = length (met (start + 900) ts) \<and> (\<forall>i < length rs. let r = rs ! i; c = met (start + 900) ts ! i in
      ss_n r = i + 1 \<and> ss_peer r = cn_peer c \<and> ss_time r = cn_time c
      \<and> (ss_ok r \<longrightarrow> (\<exists>N a b. ss_nonce r = Some (take 16 (hex N) @ ''...'')
          \<and> snp_report g (sha512 (N @ cn_exporter c)) = Ok a \<and> snp_report g (sha512 (N @ guest_spki g)) = Ok b
          \<and> map_of d (session_file ''exporter'' (i + 1)) = Some a \<and> map_of d (session_file ''key'' (i + 1)) = Some b)))"
proof -
  have "logged g 0 [] [] []" by (simp add: logged_def)
  from server_loop_logged [OF this, of W "start + 900" ts d rs] assms
  have l: "logged g (length (met (start + 900) ts)) d rs (met (start + 900) ts)" by (simp add: server_main_def)
  then have n: "length rs = length (met (start + 900) ts)" by (simp add: logged_def)
  have "let r = rs ! i; c = met (start + 900) ts ! i in
      ss_n r = i + 1 \<and> ss_peer r = cn_peer c \<and> ss_time r = cn_time c
      \<and> (ss_ok r \<longrightarrow> (\<exists>N a b. ss_nonce r = Some (take 16 (hex N) @ ''...'')
          \<and> snp_report g (sha512 (N @ cn_exporter c)) = Ok a \<and> snp_report g (sha512 (N @ guest_spki g)) = Ok b
          \<and> map_of d (session_file ''exporter'' (i + 1)) = Some a \<and> map_of d (session_file ''key'' (i + 1)) = Some b))"
    if i: "i < length (met (start + 900) ts)" for i
  proof -
    have "ss_n (rs ! i) = i + 1" "ss_peer (rs ! i) = cn_peer (met (start + 900) ts ! i)" "ss_time (rs ! i) = cn_time (met (start + 900) ts ! i)"
      and k: "ss_ok (rs ! i) \<Longrightarrow> kept g d (met (start + 900) ts ! i) (rs ! i)"
      using l i by (simp_all add: logged_def)
    then show ?thesis unfolding Let_def kept_def by metis
  qed
  then show ?thesis unfolding n by blast
qed

text \<open>Two connections, the first of which fails in its handshake, and one that comes too late.\<close>

definition demo_conn :: conn where
  "demo_conn = \<lparr>cn_peer = ''p'', cn_time = ''t'', cn_handshake = Err (Raised ''Error'' ''''), cn_version = ''TLSv1.3'', cn_exporter = [1],
     cn_in = [nonce_line [7]], cn_send = (\<lambda>_. Ok ())\<rparr>"

theorem every_session_recorded_witness:
  "\<exists>d rs. server_main (\<lambda>_. Ok ()) demo_guest 0 [(0, Some demo_conn), (5, None), (7, Some (demo_conn\<lparr>cn_handshake := Ok ()\<rparr>)), (900, Some demo_conn)] = (d, rs)
    \<and> length rs = 2 \<and> ss_n (rs ! 1) = 2"
proof -
  let ?ts = "[(0, Some demo_conn), (5, None), (7, Some (demo_conn\<lparr>cn_handshake := Ok ()\<rparr>)), (900, Some demo_conn)]"
  obtain d rs where m: "server_main (\<lambda>_. Ok ()) demo_guest 0 ?ts = (d, rs)" by fastforce
  from every_session_recorded [OF m] have "length rs = 2" "\<forall>i < length rs. ss_n (rs ! i) = i + 1" by (auto simp: Let_def)
  then show ?thesis using m by simp
qed

end
