(* ===== verification/Retry.thy ===== *)
theory Retry
  imports Prelude
begin

text \<open>
  \<open>get\<close> of \<open>gcp-cvm/gcp_verify.py\<close>: a request is made up to three times. The other verifiers fetch once.
  \<open>req i\<close> is the outcome of the request numbered \<open>i\<close>; the second component is the number of requests made.
\<close>

function get_loop :: "(nat \<Rightarrow> bytes res) \<Rightarrow> nat \<Rightarrow> nat \<Rightarrow> bytes option res \<times> nat" where
  "get_loop req tries i = (if i < tries then
     (case req i of Inr b \<Rightarrow> (Ok (Some b), i + 1)
      | Inl e \<Rightarrow> if i = tries - 1 then (Err e, i + 1) else get_loop req tries (i + 1))
   else (Ok None, i))"
  by pat_completeness auto
termination
  by (relation "measure (\<lambda>(req, tries, i). tries - i)") auto

declare get_loop.simps [simp del]

definition get_retry :: "(nat \<Rightarrow> bytes res) \<Rightarrow> nat \<Rightarrow> bytes option res \<times> nat" where
  "get_retry req tries = get_loop req tries 0"

text \<open>The fetch the verifier's functions take, for a network whose answer may differ from one request to the next.\<close>

definition gcp_fetch :: "(string \<Rightarrow> nat \<Rightarrow> bytes res) \<Rightarrow> string \<Rightarrow> bytes res" where
  "gcp_fetch net url = rbind (fst (get_retry (net url) 3)) (\<lambda>r. case r of Some b \<Rightarrow> Ok b | None \<Rightarrow> Err TypeError)"

text \<open>The fetch of the Google verifier makes at most three requests: it returns the first answer there is and
  asks no more after it, and it raises the exception of the third request exactly when all three fail.\<close>

theorem fetch_bounded:
  "snd (get_retry (net url) 3) \<le> 3
   \<and> (case find (\<lambda>i. is_ok (net url i)) [0, 1, 2] of
        Some i \<Rightarrow> gcp_fetch net url = net url i \<and> snd (get_retry (net url) 3) = i + 1
      | None \<Rightarrow> gcp_fetch net url = net url 2 \<and> \<not> is_ok (gcp_fetch net url) \<and> snd (get_retry (net url) 3) = 3)"
proof -
  have s: "get_loop req 3 i = (case req i of Inr b \<Rightarrow> (Ok (Some b), i + 1)
      | Inl e \<Rightarrow> if i = 2 then (Err e, i + 1) else get_loop req 3 (i + 1))" if "i < 3" for req i
    using that by (subst get_loop.simps) (simp split: sum.split)
  show ?thesis
    by (cases "net url 0"; cases "net url 1"; cases "net url 2")
      (simp_all add: gcp_fetch_def get_retry_def s [of 0] s [of 1, simplified] s [of 2] numeral_2_eq_2 [symmetric])
qed

end
